(* ===== verification/Pyre_Prelude.thy ===== *)
theory Pyre_Prelude
  imports Main "HOL-Library.Word" "HOL-Library.Signed_Division" "HOL-Library.AList"
begin

text \<open>
  Shared vocabulary of the pyre development: the widths of Rust's integer types, byte
  strings, the wrap-around of 32-bit signed arithmetic, suffixes of lists (what a bounded
  log keeps), association lists (the iteration order of a Rust hash map is the order of the
  list, and every theorem holds for every order), and the interface of a bounded log that
  both the PTY ring buffer and the daemon's event ring provide.
\<close>

section \<open>Types\<close>

type_synonym u8 = "8 word"
type_synonym u16 = "16 word"
type_synonym u32 = "32 word"
type_synonym u64 = "64 word"

text \<open>A byte of PTY traffic is an 8-bit character, and a Rust string is its UTF-8 bytes.\<close>

type_synonym byte = char
type_synonym bytes = "char list"

type_synonym uuid = "128 word"

text \<open>Wall-clock timestamps and monotonic instants, in nanoseconds, which is their resolution in the code.\<close>

type_synonym instant = nat

text \<open>\<open>Duration::from_secs\<close> and \<open>Duration::from_millis\<close>.\<close>

definition from_secs :: "nat \<Rightarrow> instant" where
  "from_secs n = n * 1000000000"

definition from_millis :: "nat \<Rightarrow> instant" where
  "from_millis n = n * 1000000"

named_theorems layout_simps \<open>characteristic equations of the layout tree\<close>
named_theorems registry_simps \<open>field equations of the session registry operations\<close>
named_theorems store_simps \<open>characteristic equations of the store operations\<close>

section \<open>Signed 32-bit arithmetic\<close>

text \<open>
  Rust's \<open>i32\<close> as an integer kept in range by two's-complement wrap-around (the release
  profile of the workspace does not enable overflow checks).
\<close>

definition i32_wrap :: "int \<Rightarrow> int" where
  "i32_wrap n = signed_take_bit 31 n"

definition clamp_int :: "int \<Rightarrow> int \<Rightarrow> int \<Rightarrow> int" where
  "clamp_int lo hi x = (if x < lo then lo else if x > hi then hi else x)"

lemma i32_wrap_id: "- 2147483648 \<le> n \<Longrightarrow> n < 2147483648 \<Longrightarrow> i32_wrap n = n"
  unfolding i32_wrap_def by (rule signed_take_bit_int_eq_self) auto

lemma clamp_int_bounds: "lo \<le> hi \<Longrightarrow> lo \<le> clamp_int lo hi x \<and> clamp_int lo hi x \<le> hi"
  by (simp add: clamp_int_def)

lemma clamp_int_id [simp]: "lo \<le> x \<Longrightarrow> x \<le> hi \<Longrightarrow> clamp_int lo hi x = x"
  by (simp add: clamp_int_def)

section \<open>Decimal numerals\<close>

text \<open>\<open>to_string\<close> of an unsigned integer.\<close>

fun show_nat :: "nat \<Rightarrow> string" where
  "show_nat n = (if n < 10 then [char_of (48 + n)] else show_nat (n div 10) @ [char_of (48 + n mod 10)])"

declare show_nat.simps [simp del]

section \<open>Suffixes of lists\<close>

definition last_n :: "nat \<Rightarrow> 'a list \<Rightarrow> 'a list" where
  "last_n n xs = drop (length xs - n) xs"

lemma length_last_n [simp]: "length (last_n n xs) = min n (length xs)"
  by (simp add: last_n_def)

lemma last_n_all [simp]: "length xs \<le> n \<Longrightarrow> last_n n xs = xs"
  by (simp add: last_n_def)

lemma last_n_0 [simp]: "last_n 0 xs = []"
  by (simp add: last_n_def)

lemma last_n_append_long: "n \<le> length ys \<Longrightarrow> last_n n (xs @ ys) = last_n n ys"
  by (simp add: last_n_def)

lemma last_n_last_n: "last_n n (last_n n xs @ ys) = last_n n (xs @ ys)"
proof (cases "n \<le> length ys")
  case True
  then show ?thesis by (simp add: last_n_append_long)
next
  case False
  then show ?thesis
    by (cases "length xs \<le> n") (auto simp: last_n_def add.commute)
qed

lemma last_n_suffix: "\<exists>zs. xs = zs @ last_n n xs"
  by (metis last_n_def append_take_drop_id)

lemma set_last_n: "set (last_n n xs) \<subseteq> set xs"
  by (simp add: last_n_def set_drop_subset)

lemma filter_last_n: "\<exists>zs. filter P xs = zs @ filter P (last_n n xs)"
proof -
  obtain zs where "xs = zs @ last_n n xs" using last_n_suffix by blast
  then have "filter P xs = filter P zs @ filter P (last_n n xs)"
    by (metis filter_append)
  then show ?thesis by blast
qed

section \<open>Association lists as hash maps\<close>

lemma map_fst_delete: "map fst (AList.delete k xs) = filter (\<lambda>x. x \<noteq> k) (map fst xs)"
  by (induction xs) auto

lemma distinct_fst_delete [intro]:
  "distinct (map fst xs) \<Longrightarrow> distinct (map fst (AList.delete k xs))"
  by (simp add: map_fst_delete)

lemma distinct_fst_update [intro]:
  "distinct (map fst xs) \<Longrightarrow> distinct (map fst (AList.update k v xs))"
  by (rule AList.distinct_update)

lemma set_delete: "set (AList.delete k xs) = {p \<in> set xs. fst p \<noteq> k}"
  by (auto simp: AList.delete_eq)

lemma set_update_subset: "set (AList.update k v xs) \<subseteq> insert (k, v) (set xs)"
  by (induction xs) auto

lemma update_fresh: "k \<notin> fst ` set xs \<Longrightarrow> AList.update k v xs = xs @ [(k, v)]"
  by (induction xs) auto

section \<open>A bounded log\<close>

text \<open>
  What a bounded first-in first-out log promises: its contents are the newest \<open>cap\<close>
  elements of everything appended to it. The replay ring of a pane (bytes) and the event
  ring of the daemon (events) are two providers.
\<close>

locale bounded_log =
  fixes append_log :: "'a list \<Rightarrow> 's \<Rightarrow> 's"
    and contents :: "'s \<Rightarrow> 'a list"
    and capacity :: "'s \<Rightarrow> nat"
    and invar :: "'s \<Rightarrow> bool"
  assumes contents_append: "invar s \<Longrightarrow> contents (append_log xs s) = last_n (capacity s) (contents s @ xs)"
    and capacity_append: "capacity (append_log xs s) = capacity s"
    and invar_append: "invar s \<Longrightarrow> invar (append_log xs s)"
begin

lemma run_invar: "invar s \<Longrightarrow> invar (foldl (\<lambda>s xs. append_log xs s) s xss)"
  by (induction xss arbitrary: s) (auto simp: invar_append)

lemma run_capacity: "capacity (foldl (\<lambda>s xs. append_log xs s) s xss) = capacity s"
  by (induction xss arbitrary: s) (auto simp: capacity_append)

lemma run_contents:
  assumes "invar s" "length (contents s) \<le> capacity s"
  shows "contents (foldl (\<lambda>s xs. append_log xs s) s xss)
    = last_n (capacity s) (contents s @ concat xss)"
  using assms
proof (induction xss arbitrary: s)
  case Nil
  then show ?case by simp
next
  case (Cons xs xss)
  have "contents (foldl (\<lambda>s xs. append_log xs s) (append_log xs s) xss)
    = last_n (capacity s) (last_n (capacity s) (contents s @ xs) @ concat xss)"
    using Cons.IH [of "append_log xs s"] Cons.prems
    by (simp add: contents_append capacity_append invar_append)
  then show ?case by (simp add: last_n_last_n)
qed

lemma run_suffix:
  assumes "invar s" "contents s = []"
  shows "\<exists>dropped. concat xss = dropped @ contents (foldl (\<lambda>s xs. append_log xs s) s xss)"
proof -
  have "contents (foldl (\<lambda>s xs. append_log xs s) s xss) = last_n (capacity s) (concat xss)"
    using run_contents [of s xss] assms by simp
  then show ?thesis using last_n_suffix [of "concat xss" "capacity s"] by simp
qed

end

end
