(* ===== verification/Pyre_Proto.thy ===== *)
theory Pyre_Proto
  imports Pyre_Prelude
begin

text \<open>
  The data of \<^verbatim>\<open>crates/pyre-proto\<close>: identifier newtypes, blocks and block events, pane
  lifecycle states, agent kinds, daemon events and the request records. Identifiers are
  version-4 UUIDs; where the code draws a fresh one, the model takes it as an argument.
\<close>

section \<open>Identifiers (lib.rs)\<close>

datatype session_id = SessionId (session_uuid: uuid)
datatype pane_id = PaneId (pane_uuid: uuid)
datatype block_id = BlockId (block_uuid: uuid)
datatype window_id = WindowId (window_uuid: uuid)

record pane_size =
  ps_cols :: u16
  ps_rows :: u16

section \<open>Blocks (lib.rs, blocks.rs)\<close>

record block =
  blk_id :: block_id
  blk_pane :: pane_id
  blk_session :: session_id
  blk_command :: string
  blk_cwd :: "string option"
  blk_started_at :: int
  blk_ended_at :: "int option"
  blk_exit_code :: "int option"
  blk_stdout_len :: u64

text \<open>
  \<open>Block::duration_ms\<close>: \<open>to_std\<close> fails on a negative difference. Timestamps of a block are
  signed nanoseconds since the epoch.
\<close>

definition duration_ms :: "block \<Rightarrow> u64 option" where
  "duration_ms b =
     (case blk_ended_at b of
        None \<Rightarrow> None
      | Some ended \<Rightarrow>
          (let delta = ended - blk_started_at b
           in if delta < 0 then None else Some (word_of_int (delta div 1000000))))"

datatype block_event =
    PromptStart session_id
  | CommandStart session_id block_id string "string option"
  | OutputChunk block_id bytes
  | BlockEnd block_id "int option"

section \<open>Pane lifecycle (sessions.rs)\<close>

datatype agent_kind =
    Unknown | Shell | ClaudeCode | Codex | Pi | OpenCode | CursorAgent | Droid | Amp

fun agent_label :: "agent_kind \<Rightarrow> string" where
  "agent_label Unknown = ''unknown''"
| "agent_label Shell = ''shell''"
| "agent_label ClaudeCode = ''claude''"
| "agent_label Codex = ''codex''"
| "agent_label Pi = ''pi''"
| "agent_label OpenCode = ''opencode''"
| "agent_label CursorAgent = ''cursor''"
| "agent_label Droid = ''droid''"
| "agent_label Amp = ''amp''"

datatype pane_state_kind = Running | WaitingInput | Idle | Interactive | Crashed | Done

fun state_display :: "pane_state_kind \<Rightarrow> string" where
  "state_display Running = ''running''"
| "state_display WaitingInput = ''waiting''"
| "state_display Idle = ''idle''"
| "state_display Interactive = ''interactive''"
| "state_display Crashed = ''crashed''"
| "state_display Done = ''done''"

record session_info =
  si_id :: session_id
  si_name :: string
  si_pane_count :: u32
  si_created_at :: instant
  si_last_active_at :: instant

record window_info =
  wi_id :: window_id
  wi_session :: session_id
  wi_name :: string
  wi_position :: u32
  wi_pane_count :: u32
  wi_created_at :: instant

record pane_info =
  pi_id :: pane_id
  pi_session :: session_id
  pi_window :: window_id
  pi_cols :: u16
  pi_rows :: u16
  pi_shell :: string
  pi_created_at :: instant
  pi_closed_at :: "instant option"
  pi_state :: pane_state_kind
  pi_state_reason :: string
  pi_last_activity :: instant
  pi_foreground_cmd :: "string option"
  pi_root_pid :: u32
  pi_agent :: agent_kind
  pi_seen :: bool
  pi_name :: "string option"

record open_pane_req =
  or_session :: session_id
  or_window :: window_id
  or_shell :: "string option"
  or_cwd :: "string option"
  or_cols :: u16
  or_rows :: u16
  or_env :: "(string \<times> string) list"
  or_name :: "string option"

record git_info =
  gi_branch :: string
  gi_dirty :: u32
  gi_ahead :: u32
  gi_behind :: u32
  gi_upstream :: "string option"
  gi_cwd :: "string option"

section \<open>Daemon events and requests (service.rs)\<close>

datatype pane_event_kind = Spawned | StateChanged | Closed | LayoutChanged

record pane_event =
  pe_seq :: u64
  pe_pane_id :: pane_id
  pe_kind :: pane_event_kind
  pe_state :: "pane_state_kind option"
  pe_agent :: "agent_kind option"

record spawn_req =
  sr_shell :: "string option"
  sr_cwd :: "string option"
  sr_cols :: u16
  sr_rows :: u16
  sr_env :: "(string \<times> string) list"
  sr_name :: "string option"

record output_frame =
  of_session :: session_id
  of_seq :: u64
  of_data :: bytes

end
