(* ===== verification/Ring_Buffer.thy ===== *)
theory Ring_Buffer
  imports Pyre_Prelude
begin

text \<open>
  \<^verbatim>\<open>crates/pyred/src/ringbuf.rs\<close>: the fixed-capacity circular byte buffer that keeps a
  pane's recent output for replay. The model keeps the vector, the head and the length as
  the code does; the abstraction is the list of stored bytes, oldest first, and the buffer
  is a provider of the bounded log.
\<close>

section \<open>Model\<close>

record ring_buf =
  rb_buf :: bytes
  rb_head :: nat
  rb_len :: nat
  rb_cap :: nat

definition ring_new :: "nat \<Rightarrow> ring_buf" where
  "ring_new c = \<lparr>rb_buf = replicate c (CHR 0x00), rb_head = 0, rb_len = 0, rb_cap = c\<rparr>"

text \<open>The body of the loop of \<open>RingBuf::push\<close>, for one byte.\<close>

definition push_one :: "ring_buf \<Rightarrow> byte \<Rightarrow> ring_buf" where
  "push_one r b =
     (let write_pos = (rb_head r + rb_len r) mod rb_cap r;
          r' = r\<lparr>rb_buf := (rb_buf r)[write_pos := b]\<rparr>
      in if rb_len r < rb_cap r then r'\<lparr>rb_len := rb_len r + 1\<rparr>
         else r'\<lparr>rb_head := (rb_head r + 1) mod rb_cap r\<rparr>)"

definition push :: "bytes \<Rightarrow> ring_buf \<Rightarrow> ring_buf" where
  "push bs r =
     (if rb_cap r = 0 \<or> bs = [] then r
      else
        (let bs' = (if rb_cap r \<le> length bs then drop (length bs - rb_cap r) bs else bs)
         in foldl push_one r bs'))"

definition snapshot :: "ring_buf \<Rightarrow> bytes" where
  "snapshot r =
     (if rb_len r = 0 then []
      else if rb_head r + rb_len r \<le> rb_cap r
        then take (rb_len r) (drop (rb_head r) (rb_buf r))
      else drop (rb_head r) (rb_buf r) @ take (rb_len r - (rb_cap r - rb_head r)) (rb_buf r))"

definition ring_is_empty :: "ring_buf \<Rightarrow> bool" where
  "ring_is_empty r \<longleftrightarrow> rb_len r = 0"

section \<open>Invariant\<close>

definition ring_wf :: "ring_buf \<Rightarrow> bool" where
  "ring_wf r \<longleftrightarrow> length (rb_buf r) = rb_cap r \<and> rb_len r \<le> rb_cap r
     \<and> (0 < rb_cap r \<longrightarrow> rb_head r < rb_cap r)
     \<and> (rb_len r < rb_cap r \<longrightarrow> rb_head r = 0)"

lemma ring_wf_new: "ring_wf (ring_new c)"
  by (simp add: ring_wf_def ring_new_def)

lemma push_one_cap [simp]: "rb_cap (push_one r b) = rb_cap r"
  by (simp add: push_one_def Let_def)

lemma foldl_push_one_cap [simp]: "rb_cap (foldl push_one r bs) = rb_cap r"
  by (induction bs arbitrary: r) auto

lemma push_cap [simp]: "rb_cap (push bs r) = rb_cap r"
  by (simp add: push_def Let_def)

lemma ring_wf_push_one: "ring_wf r \<Longrightarrow> 0 < rb_cap r \<Longrightarrow> ring_wf (push_one r b)"
  by (auto simp: ring_wf_def push_one_def Let_def)

text \<open>While the buffer fills, the head stays at 0 and a byte is appended.\<close>

lemma snapshot_filling:
  assumes "ring_wf r" "rb_len r < rb_cap r"
  shows "snapshot (push_one r b) = snapshot r @ [b]"
proof -
  have "rb_head r = 0" and "length (rb_buf r) = rb_cap r"
    using assms by (auto simp: ring_wf_def)
  then show ?thesis using assms
    by (simp add: snapshot_def push_one_def Let_def take_Suc_conv_app_nth)
qed

text \<open>Once it is full, the oldest byte is overwritten and the head moves past it.\<close>

lemma snapshot_full:
  assumes "ring_wf r" "rb_len r = rb_cap r" "0 < rb_cap r"
  shows "snapshot r = drop (rb_head r) (rb_buf r) @ take (rb_head r) (rb_buf r)"
proof (cases "rb_head r = 0")
  case True
  then show ?thesis using assms by (auto simp: snapshot_def ring_wf_def)
next
  case False
  then show ?thesis using assms by (auto simp: snapshot_def ring_wf_def)
qed

lemma snapshot_overwrite:
  assumes wf: "ring_wf r" and full: "rb_len r = rb_cap r" and pos: "0 < rb_cap r"
  shows "snapshot (push_one r b) = tl (snapshot r) @ [b]"
proof -
  define h where "h = rb_head r"
  define xs where "xs = rb_buf r"
  have h: "h < length xs" and len: "length xs = rb_cap r"
    using wf pos by (auto simp: ring_wf_def h_def xs_def)
  have snap: "snapshot r = xs ! h # drop (Suc h) xs @ take h xs"
    using snapshot_full [OF wf full pos] h by (simp add: Cons_nth_drop_Suc h_def xs_def)
  have p: "push_one r b = r\<lparr>rb_buf := xs[h := b], rb_head := Suc h mod rb_cap r\<rparr>"
    using h len full by (simp add: push_one_def h_def xs_def)
  have "snapshot (push_one r b) = drop (Suc h) xs @ take h xs @ [b]"
  proof (cases "Suc h = length xs")
    case True
    have "snapshot (push_one r b) = xs[h := b]"
      using True len full pos h by (auto simp: p snapshot_def)
    also have "\<dots> = take h xs @ [b]"
      using True h by (simp add: upd_conv_take_nth_drop)
    finally show ?thesis using True by simp
  next
    case False
    then have "Suc h < length xs" using h by simp
    then have "snapshot (push_one r b) = drop (Suc h) (xs[h := b]) @ take (Suc h) (xs[h := b])"
      using len full pos by (auto simp: p snapshot_def)
    then show ?thesis using h by (simp add: take_Suc_conv_app_nth)
  qed
  then show ?thesis by (simp add: snap)
qed

lemma length_snapshot: "ring_wf r \<Longrightarrow> length (snapshot r) = rb_len r"
  by (auto simp: snapshot_def ring_wf_def)

lemma snapshot_push_one:
  assumes "ring_wf r" "0 < rb_cap r"
  shows "snapshot (push_one r b) = last_n (rb_cap r) (snapshot r @ [b])"
proof (cases "rb_len r < rb_cap r")
  case True
  then show ?thesis using assms by (simp add: snapshot_filling length_snapshot)
next
  case False
  then have full: "rb_len r = rb_cap r" using assms by (simp add: ring_wf_def)
  then have "snapshot r \<noteq> []"
    using assms length_snapshot [of r] by auto
  then show ?thesis using assms full
    by (simp add: snapshot_overwrite last_n_def length_snapshot drop_Suc)
qed

lemma ring_wf_foldl: "ring_wf r \<Longrightarrow> 0 < rb_cap r \<Longrightarrow> ring_wf (foldl push_one r bs)"
  by (induction bs arbitrary: r) (auto simp: ring_wf_push_one)

lemma snapshot_foldl:
  assumes "ring_wf r" "0 < rb_cap r"
  shows "snapshot (foldl push_one r bs) = last_n (rb_cap r) (snapshot r @ bs)"
  using assms
proof (induction bs arbitrary: r)
  case Nil
  then show ?case by (simp add: length_snapshot ring_wf_def)
next
  case (Cons b bs)
  have "snapshot (foldl push_one (push_one r b) bs)
      = last_n (rb_cap r) (last_n (rb_cap r) (snapshot r @ [b]) @ bs)"
    using Cons by (simp add: ring_wf_push_one snapshot_push_one)
  then show ?case by (simp add: last_n_last_n)
qed

lemma ring_wf_push: "ring_wf r \<Longrightarrow> ring_wf (push bs r)"
  by (auto simp: push_def Let_def intro: ring_wf_foldl)

lemma snapshot_push_any:
  assumes "ring_wf r"
  shows "snapshot (push bs r) = last_n (rb_cap r) (snapshot r @ bs)"
proof (cases "rb_cap r = 0 \<or> bs = []")
  case True
  then show ?thesis using assms length_snapshot [OF assms]
    by (auto simp: push_def ring_wf_def)
next
  case False
  then have pos: "0 < rb_cap r" by simp
  show ?thesis
  proof (cases "rb_cap r \<le> length bs")
    case True
    have "drop (length bs - rb_cap r) bs = last_n (rb_cap r) bs" by (simp add: last_n_def)
    then have "snapshot (push bs r) = last_n (rb_cap r) (snapshot r @ last_n (rb_cap r) bs)"
      using True False snapshot_foldl [OF assms pos] by (simp add: push_def)
    then show ?thesis using True by (simp add: last_n_append_long)
  next
    case short: False
    then show ?thesis using False snapshot_foldl [OF assms pos]
      by (simp add: push_def Let_def)
  qed
qed

section \<open>The buffer is a bounded log\<close>

interpretation ring: bounded_log push snapshot rb_cap ring_wf
  by unfold_locales (auto simp: snapshot_push_any ring_wf_push)

text \<open>
  Whatever sequence of chunks is pushed into a new ring buffer of capacity c, the
  snapshot replayed on reattach is exactly the newest c bytes of the concatenated output,
  oldest first, and the buffer never stores more than c bytes.
\<close>

theorem ring_snapshot_is_newest:
  "snapshot (foldl (\<lambda>r bs. push bs r) (ring_new c) chunks) = last_n c (concat chunks)
   \<and> rb_len (foldl (\<lambda>r bs. push bs r) (ring_new c) chunks) = min c (length (concat chunks))"
proof -
  have new: "snapshot (ring_new c) = []" "rb_cap (ring_new c) = c"
    by (auto simp: ring_new_def snapshot_def)
  have eq: "snapshot (foldl (\<lambda>r bs. push bs r) (ring_new c) chunks) = last_n c (concat chunks)"
    using ring.run_contents [OF ring_wf_new [of c], of chunks] new by simp
  have "ring_wf (foldl (\<lambda>r bs. push bs r) (ring_new c) chunks)"
    using ring.run_invar [OF ring_wf_new] .
  then show ?thesis using eq length_snapshot by (metis length_last_n)
qed

text \<open>
  C25. On any well-formed buffer, full or not and wrapped or not, one push keeps the
  structural invariant and turns the contents into the newest cap bytes of the old contents
  followed by the input; an input at least as long as the capacity replaces the contents by
  its own tail.
\<close>

theorem ring_push_keeps_newest:
  assumes "ring_wf r"
  shows "ring_wf (push bs r)
    \<and> snapshot (push bs r) = last_n (rb_cap r) (snapshot r @ bs)
    \<and> (rb_cap r \<le> length bs \<longrightarrow> snapshot (push bs r) = drop (length bs - rb_cap r) bs)"
  using assms ring_wf_push snapshot_push_any [OF assms, of bs]
  by (auto simp: last_n_append_long last_n_def)

theorem ring_push_keeps_newest_witness:
  "ring_wf (push ''ABCD'' (push ''12345678'' (ring_new 8)))
   \<and> snapshot (push ''ABCD'' (push ''12345678'' (ring_new 8))) = ''5678ABCD''"
proof -
  have "snapshot (push ''12345678'' (ring_new 8)) = ''12345678''"
    using snapshot_push_any [OF ring_wf_new, of "''12345678''" 8]
    by (simp add: ring_new_def snapshot_def)
  then show ?thesis
    using ring_push_keeps_newest [OF ring_wf_push [OF ring_wf_new], of "''ABCD''" "''12345678''" 8]
    by (simp add: ring_new_def last_n_def)
qed

end
