(* ===== verification/Layout.thy ===== *)
theory Layout
  imports Pyre_Proto
begin

text \<open>
  \<^verbatim>\<open>crates/pyre-proto/src/layout.rs\<close>: the tiling tree shared by the daemon and its clients.
  The tree is the code's enum; a Rust method that mutates \<open>self\<close> and returns a value is a
  function that returns the value and the new tree. Weights are 16-bit and coordinates
  32-bit words, products are formed at 64 bits as in the code, and the rebalancing of
  \<open>set_weight\<close> runs on wrapped 32-bit signed integers.
\<close>

section \<open>Types\<close>

datatype layout_node =
    Leaf pane_id
  | HSplit "(layout_node \<times> u16) list"
  | VSplit "(layout_node \<times> u16) list"

datatype orient = Vertical | Horizontal

datatype dir = DLeft | DRight | DUp | DDown

record rect =
  rect_x :: u32
  rect_y :: u32
  rect_w :: u32
  rect_h :: u32

definition contains_pt :: "rect \<Rightarrow> u32 \<Rightarrow> u32 \<Rightarrow> bool" where
  "contains_pt r px py \<longleftrightarrow>
     rect_x r \<le> px \<and> px < rect_x r + rect_w r \<and> rect_y r \<le> py \<and> py < rect_y r + rect_h r"

section \<open>Operations\<close>

fun all_leaves :: "layout_node \<Rightarrow> pane_id list" where
  "all_leaves (Leaf i) = [i]"
| "all_leaves (HSplit cs) = concat (map (\<lambda>c. all_leaves (fst c)) cs)"
| "all_leaves (VSplit cs) = concat (map (\<lambda>c. all_leaves (fst c)) cs)"

text \<open>
  \<open>children.iter().map(|(_, w)| w).sum()\<close> at 16 bits, and the extent of one child:
  the product and the quotient are taken at 64 bits and cast back to 32.
\<close>

definition weight_total :: "(layout_node \<times> u16) list \<Rightarrow> u16" where
  "weight_total cs = max (sum_list (map snd cs)) 1"

definition child_extent :: "u32 \<Rightarrow> u16 \<Rightarrow> u16 \<Rightarrow> u32" where
  "child_extent extent weight tot = of_nat (unat extent * unat weight div unat tot)"

fun leaves_inner :: "layout_node \<Rightarrow> rect \<Rightarrow> (pane_id \<times> rect) list"
and leaves_rows :: "(layout_node \<times> u16) list \<Rightarrow> rect \<Rightarrow> u16 \<Rightarrow> u32 \<Rightarrow> (pane_id \<times> rect) list"
and leaves_cols :: "(layout_node \<times> u16) list \<Rightarrow> rect \<Rightarrow> u16 \<Rightarrow> u32 \<Rightarrow> (pane_id \<times> rect) list"
where
  "leaves_inner (Leaf i) vp = [(i, vp)]"
| "leaves_inner (HSplit cs) vp = leaves_rows cs vp (weight_total cs) (rect_y vp)"
| "leaves_inner (VSplit cs) vp = leaves_cols cs vp (weight_total cs) (rect_x vp)"
| "leaves_rows [] vp tot y = []"
| "leaves_rows ((node, weight) # cs) vp tot y =
     (let h = child_extent (rect_h vp) weight tot
      in leaves_inner node (vp\<lparr>rect_y := y, rect_h := h\<rparr>) @ leaves_rows cs vp tot (y + h))"
| "leaves_cols [] vp tot x = []"
| "leaves_cols ((node, weight) # cs) vp tot x =
     (let w = child_extent (rect_w vp) weight tot
      in leaves_inner node (vp\<lparr>rect_x := x, rect_w := w\<rparr>) @ leaves_cols cs vp tot (x + w))"

definition rect_for :: "layout_node \<Rightarrow> rect \<Rightarrow> pane_id \<Rightarrow> rect option" where
  "rect_for t vp target = map_option snd (find (\<lambda>(i, _). i = target) (leaves_inner t vp))"

definition leaves :: "layout_node \<Rightarrow> rect \<Rightarrow> (pane_id \<times> rect) list" where
  "leaves t vp = leaves_inner t vp"

fun split_focused_inner :: "layout_node \<Rightarrow> pane_id \<Rightarrow> pane_id \<Rightarrow> orient \<Rightarrow> bool \<times> layout_node"
and split_children ::
  "(layout_node \<times> u16) list \<Rightarrow> pane_id \<Rightarrow> pane_id \<Rightarrow> orient \<Rightarrow> bool \<times> (layout_node \<times> u16) list"
where
  "split_focused_inner (Leaf i) focused new_pane orient =
     (if i = focused then
        (True,
         (case orient of
            Vertical \<Rightarrow> VSplit [(Leaf i, 50), (Leaf new_pane, 50)]
          | Horizontal \<Rightarrow> HSplit [(Leaf i, 50), (Leaf new_pane, 50)]))
      else (False, Leaf i))"
| "split_focused_inner (HSplit cs) focused new_pane orient =
     (let r = split_children cs focused new_pane orient in (fst r, HSplit (snd r)))"
| "split_focused_inner (VSplit cs) focused new_pane orient =
     (let r = split_children cs focused new_pane orient in (fst r, VSplit (snd r)))"
| "split_children [] focused new_pane orient = (False, [])"
| "split_children ((child, w) # cs) focused new_pane orient =
     (let r = split_focused_inner child focused new_pane orient
      in if fst r then (True, (snd r, w) # cs)
         else (let rs = split_children cs focused new_pane orient
               in (fst rs, (snd r, w) # snd rs)))"

definition split_focused :: "layout_node \<Rightarrow> pane_id \<Rightarrow> pane_id \<Rightarrow> orient \<Rightarrow> layout_node" where
  "split_focused t focused new_pane orient = snd (split_focused_inner t focused new_pane orient)"

text \<open>
  \<open>retain_mut\<close> visits every child in order, mutating the ones it keeps; a split left with
  one child is replaced by that child.
\<close>

fun remove_leaf :: "layout_node \<Rightarrow> pane_id \<Rightarrow> bool \<times> layout_node"
and retain_children :: "(layout_node \<times> u16) list \<Rightarrow> pane_id \<Rightarrow> (layout_node \<times> u16) list"
where
  "remove_leaf (Leaf i) pane = (i = pane, Leaf i)"
| "remove_leaf (HSplit cs) pane =
     (case retain_children cs pane of [(only, _)] \<Rightarrow> (False, only) | cs' \<Rightarrow> (False, HSplit cs'))"
| "remove_leaf (VSplit cs) pane =
     (case retain_children cs pane of [(only, _)] \<Rightarrow> (False, only) | cs' \<Rightarrow> (False, VSplit cs'))"
| "retain_children [] pane = []"
| "retain_children ((child, w) # cs) pane =
     (let r = remove_leaf child pane
      in if fst r then retain_children cs pane else (snd r, w) # retain_children cs pane)"

text \<open>\<open>all.iter().position(|id| id == pane)\<close>\<close>

definition position :: "('a \<Rightarrow> bool) \<Rightarrow> 'a list \<Rightarrow> nat option" where
  "position P xs =
     (let n = length (takeWhile (\<lambda>x. \<not> P x) xs) in if n < length xs then Some n else None)"

definition close :: "layout_node \<Rightarrow> pane_id \<Rightarrow> pane_id option \<times> layout_node" where
  "close t pane =
     (let all = all_leaves t
      in case position (\<lambda>i. i = pane) all of
           None \<Rightarrow> (None, t)
         | Some pos \<Rightarrow>
             if length all = 1 then (None, t)
             else
               (let t' = snd (remove_leaf t pane);
                    remaining = all_leaves t';
                    focus_pos = (if pos > 0 then pos - 1 else 0)
                in if remaining = [] then (None, t')
                   else (if focus_pos < length remaining then Some (remaining ! focus_pos) else None,
                         t')))"

definition unit_viewport :: rect where
  "unit_viewport = \<lparr>rect_x = 0, rect_y = 0, rect_w = 1000, rect_h = 1000\<rparr>"

fun in_direction :: "dir \<Rightarrow> rect \<Rightarrow> rect \<Rightarrow> bool" where
  "in_direction DLeft cur r \<longleftrightarrow> rect_x r + rect_w r \<le> rect_x cur"
| "in_direction DRight cur r \<longleftrightarrow> rect_x cur + rect_w cur \<le> rect_x r"
| "in_direction DUp cur r \<longleftrightarrow> rect_y r + rect_h r \<le> rect_y cur"
| "in_direction DDown cur r \<longleftrightarrow> rect_y cur + rect_h cur \<le> rect_y r"

text \<open>\<open>(a as i64 - b as i64).unsigned_abs()\<close> on the centres, summed at 64 bits.\<close>

definition centre_distance :: "rect \<Rightarrow> rect \<Rightarrow> nat" where
  "centre_distance cur r =
     (let cur_cx = rect_x cur + rect_w cur div 2; cur_cy = rect_y cur + rect_h cur div 2;
          cx = rect_x r + rect_w r div 2; cy = rect_y r + rect_h r div 2
      in nat \<bar>uint cx - uint cur_cx\<bar> + nat \<bar>uint cy - uint cur_cy\<bar>)"

text \<open>\<open>Iterator::min_by_key\<close>: the first of the smallest.\<close>

fun min_by_key :: "('a \<Rightarrow> nat) \<Rightarrow> 'a list \<Rightarrow> 'a option" where
  "min_by_key f [] = None"
| "min_by_key f (x # xs) =
     (case min_by_key f xs of None \<Rightarrow> Some x | Some y \<Rightarrow> if f x \<le> f y then Some x else Some y)"

definition focus_dir :: "layout_node \<Rightarrow> pane_id \<Rightarrow> dir \<Rightarrow> pane_id option" where
  "focus_dir t current d =
     (let lvs = leaves_inner t unit_viewport
      in case find (\<lambda>(i, _). i = current) lvs of
           None \<Rightarrow> None
         | Some (_, cur_rect) \<Rightarrow>
             (let candidates = filter (\<lambda>(i, r). i \<noteq> current \<and> in_direction d cur_rect r) lvs
              in map_option fst (min_by_key (\<lambda>(_, r). centre_distance cur_rect r) candidates)))"

section \<open>set_weight\<close>

text \<open>
  The rebalancing loop over the siblings, on the weights only (the code never looks at the
  sub-trees in it): \<open>i\<close> is the loop index, \<open>idx\<close> the target, \<open>nd\<close> is \<open>-delta\<close>.
\<close>

definition i32_of_u16 :: "u16 \<Rightarrow> int" where
  "i32_of_u16 w = uint w"

definition sibling_share :: "int \<Rightarrow> int \<Rightarrow> u16 \<Rightarrow> int" where
  "sibling_share nd siblings_total w = i32_wrap (i32_of_u16 w * nd) sdiv max siblings_total 1"

definition sibling_adjusted :: "int \<Rightarrow> int \<Rightarrow> u16 \<Rightarrow> u16" where
  "sibling_adjusted nd siblings_total w =
     word_of_int (clamp_int 5 95 (i32_wrap (i32_of_u16 w + sibling_share nd siblings_total w)))"

fun rebalance :: "nat \<Rightarrow> int \<Rightarrow> int \<Rightarrow> nat \<Rightarrow> int \<Rightarrow> u16 list \<Rightarrow> int \<times> u16 list" where
  "rebalance idx nd siblings_total i leftover [] = (leftover, [])"
| "rebalance idx nd siblings_total i leftover (w # ws) =
     (if i = idx then
        (let (l, ws') = rebalance idx nd siblings_total (Suc i) leftover ws in (l, w # ws'))
      else
        (let adjusted = sibling_adjusted nd siblings_total w;
             leftover' = i32_wrap (leftover - (i32_of_u16 adjusted - i32_of_u16 w));
             (l, ws') = rebalance idx nd siblings_total (Suc i) leftover' ws
         in (l, adjusted # ws')))"

text \<open>Index of the last sibling that is not the target.\<close>

definition last_other :: "nat \<Rightarrow> u16 list \<Rightarrow> nat option" where
  "last_other idx ws =
     (if ws = [] then None
      else if length ws - 1 \<noteq> idx then Some (length ws - 1)
      else if length ws \<ge> 2 then Some (length ws - 2) else None)"

definition siblings_sum :: "nat \<Rightarrow> u16 list \<Rightarrow> int" where
  "siblings_sum idx ws =
     foldl (\<lambda>acc i. i32_wrap (acc + (if i \<noteq> idx then i32_of_u16 (ws ! i) else 0))) 0 [0..<length ws]"

definition set_weights :: "nat \<Rightarrow> u16 \<Rightarrow> u16 list \<Rightarrow> u16 list" where
  "set_weights idx new_weight ws =
     (let clamped = (word_of_int (clamp_int 5 95 (i32_of_u16 new_weight)) :: u16);
          old = ws ! idx
      in if clamped = old then ws
         else
           (let nd = - (i32_of_u16 clamped - i32_of_u16 old);
                ws1 = ws[idx := clamped];
                siblings_total = siblings_sum idx ws1;
                ws2 =
                  (if siblings_total > 0 then
                     (let (leftover, ws') = rebalance idx nd siblings_total 0 nd ws1
                      in case last_other idx ws' of
                           None \<Rightarrow> ws'
                         | Some j \<Rightarrow>
                             ws'[j := word_of_int (clamp_int 5 95 (i32_wrap (i32_of_u16 (ws' ! j) + leftover)))])
                   else ws1);
                tot = sum_list ws2
            in if tot \<noteq> 100
               then ws2[idx := word_of_int (clamp_int 5 95 (i32_of_u16 (ws2 ! idx) + (100 - i32_of_u16 tot)))]
               else ws2))"

definition put_weights :: "(layout_node \<times> u16) list \<Rightarrow> u16 list \<Rightarrow> (layout_node \<times> u16) list" where
  "put_weights cs ws = zip (map fst cs) ws"

fun set_weight_inner :: "layout_node \<Rightarrow> pane_id \<Rightarrow> u16 \<Rightarrow> bool \<times> layout_node"
and set_weight_children :: "(layout_node \<times> u16) list \<Rightarrow> pane_id \<Rightarrow> u16 \<Rightarrow> bool \<times> (layout_node \<times> u16) list"
where
  "set_weight_inner (Leaf i) pane nw = (False, Leaf i)"
| "set_weight_inner (HSplit cs) pane nw =
     (case position (\<lambda>c. pane \<in> set (all_leaves (fst c))) cs of
        Some idx \<Rightarrow> (True, HSplit (put_weights cs (set_weights idx nw (map snd cs))))
      | None \<Rightarrow> (let r = set_weight_children cs pane nw in (fst r, HSplit (snd r))))"
| "set_weight_inner (VSplit cs) pane nw =
     (case position (\<lambda>c. pane \<in> set (all_leaves (fst c))) cs of
        Some idx \<Rightarrow> (True, VSplit (put_weights cs (set_weights idx nw (map snd cs))))
      | None \<Rightarrow> (let r = set_weight_children cs pane nw in (fst r, VSplit (snd r))))"
| "set_weight_children [] pane nw = (False, [])"
| "set_weight_children ((child, w) # cs) pane nw =
     (let r = set_weight_inner child pane nw
      in if fst r then (True, (snd r, w) # cs)
         else (let rs = set_weight_children cs pane nw in (fst rs, (snd r, w) # snd rs)))"

definition set_weight :: "layout_node \<Rightarrow> pane_id \<Rightarrow> u16 \<Rightarrow> layout_node" where
  "set_weight t pane w = snd (set_weight_inner t pane w)"

section \<open>Invariants\<close>

definition wf_weights :: "u16 list \<Rightarrow> bool" where
  "wf_weights ws \<longleftrightarrow> 2 \<le> length ws \<and> sum_list (map unat ws) = 100 \<and> list_all (\<lambda>w. 5 \<le> unat w) ws"

text \<open>
  The documented invariant: sibling weights sum to 100 and no pane is squeezed below 5, in
  every split; and the shape all daemon operations produce, in which splits have exactly two
  children.
\<close>

fun wf_layout :: "layout_node \<Rightarrow> bool" where
  "wf_layout (Leaf i) \<longleftrightarrow> True"
| "wf_layout (HSplit cs) \<longleftrightarrow> wf_weights (map snd cs) \<and> list_all (\<lambda>c. wf_layout (fst c)) cs"
| "wf_layout (VSplit cs) \<longleftrightarrow> wf_weights (map snd cs) \<and> list_all (\<lambda>c. wf_layout (fst c)) cs"

fun is_binary :: "layout_node \<Rightarrow> bool" where
  "is_binary (Leaf i) \<longleftrightarrow> True"
| "is_binary (HSplit cs) \<longleftrightarrow> length cs = 2 \<and> list_all (\<lambda>c. is_binary (fst c)) cs"
| "is_binary (VSplit cs) \<longleftrightarrow> length cs = 2 \<and> list_all (\<lambda>c. is_binary (fst c)) cs"

fun insert_after :: "'a \<Rightarrow> 'a \<Rightarrow> 'a list \<Rightarrow> 'a list" where
  "insert_after x y [] = []"
| "insert_after x y (z # zs) = (if z = x then z # y # zs else z # insert_after x y zs)"

lemma insert_after_absent [simp]: "x \<notin> set zs \<Longrightarrow> insert_after x y zs = zs"
  by (induction zs) auto

lemma insert_after_append:
  "insert_after x y (us @ vs) =
     (if x \<in> set us then insert_after x y us @ vs else us @ insert_after x y vs)"
  by (induction us) auto

lemma set_insert_after: "set (insert_after x y zs) = (if x \<in> set zs then insert y (set zs) else set zs)"
  by (induction zs) auto

lemma distinct_insert_after:
  "distinct zs \<Longrightarrow> y \<notin> set zs \<Longrightarrow> distinct (insert_after x y zs)"
  by (induction zs) (auto simp: set_insert_after)

lemma position_Some:
  "position P xs = Some i \<Longrightarrow> i < length xs \<and> P (xs ! i) \<and> (\<forall>j<i. \<not> P (xs ! j))"
  unfolding position_def Let_def
  by (auto split: if_splits dest: nth_length_takeWhile)
    (metis nth_mem set_takeWhileD takeWhile_nth)

lemma position_None: "position P xs = None \<longleftrightarrow> (\<forall>x\<in>set xs. \<not> P x)"
proof -
  have "length (takeWhile (\<lambda>x. \<not> P x) xs) < length xs \<longleftrightarrow> (\<exists>x\<in>set xs. P x)"
    by (metis length_takeWhile_le nat_less_le takeWhile_eq_all_conv append_take_drop_id
        takeWhile_eq_take take_all order_refl)
  then show ?thesis by (auto simp: position_def Let_def)
qed

lemma position_hit: "x \<in> set xs \<Longrightarrow> P x \<Longrightarrow> \<exists>i. position P xs = Some i"
  using position_None [of P xs] by (cases "position P xs") auto

lemma layout_induct [case_names Leaf HSplit VSplit]:
  assumes "\<And>i. P (Leaf i)"
    and "\<And>cs. (\<And>c. c \<in> set cs \<Longrightarrow> P (fst c)) \<Longrightarrow> P (HSplit cs)"
    and "\<And>cs. (\<And>c. c \<in> set cs \<Longrightarrow> P (fst c)) \<Longrightarrow> P (VSplit cs)"
  shows "P t"
proof (induction t)
  case (Leaf i)
  then show ?case by (rule assms(1))
next
  case (HSplit cs)
  then show ?case by (intro assms(2)) (metis fsts.intros)
next
  case (VSplit cs)
  then show ?case by (intro assms(3)) (metis fsts.intros)
qed

section \<open>Leaves of the tree\<close>

lemma leaves_inner_ids:
  "map fst (leaves_inner t vp) = all_leaves t"
  "map fst (leaves_rows cs vp tot y) = concat (map (\<lambda>c. all_leaves (fst c)) cs)"
  "map fst (leaves_cols cs vp tot x) = concat (map (\<lambda>c. all_leaves (fst c)) cs)"
  by (induction t vp and cs vp tot y and cs vp tot x
      rule: leaves_inner_leaves_rows_leaves_cols.induct) (auto simp: Let_def)

lemma split_leaves:
  "fst (split_focused_inner t f n ori) = (f \<in> set (all_leaves t)) \<and>
   all_leaves (snd (split_focused_inner t f n ori)) = insert_after f n (all_leaves t)"
  "fst (split_children cs f n ori) = (f \<in> set (concat (map (\<lambda>c. all_leaves (fst c)) cs))) \<and>
   concat (map (\<lambda>c. all_leaves (fst c)) (snd (split_children cs f n ori)))
     = insert_after f n (concat (map (\<lambda>c. all_leaves (fst c)) cs))"
  by (induction t f n ori and cs f n ori rule: split_focused_inner_split_children.induct)
    (auto simp: Let_def insert_after_append split: prod.splits orient.splits if_splits)

lemma split_weights: "map snd (snd (split_children cs f n ori)) = map snd cs"
  by (induction cs) (auto simp: Let_def split: prod.splits)

lemma split_length: "length (snd (split_children cs f n ori)) = length cs"
  by (metis length_map split_weights)

lemma wf_weights_half [simp]: "wf_weights [50, 50]"
  by (simp add: wf_weights_def)

lemma split_wf:
  "wf_layout t \<Longrightarrow> wf_layout (snd (split_focused_inner t f n ori))"
  "list_all (\<lambda>c. wf_layout (fst c)) cs \<Longrightarrow> list_all (\<lambda>c. wf_layout (fst c)) (snd (split_children cs f n ori))"
  by (induction t f n ori and cs f n ori rule: split_focused_inner_split_children.induct)
    (auto simp: Let_def case_prod_unfold split_weights split: orient.splits)

lemma split_binary:
  "is_binary t \<Longrightarrow> is_binary (snd (split_focused_inner t f n ori))"
  "list_all (\<lambda>c. is_binary (fst c)) cs \<Longrightarrow> list_all (\<lambda>c. is_binary (fst c)) (snd (split_children cs f n ori))"
  by (induction t f n ori and cs f n ori rule: split_focused_inner_split_children.induct)
    (auto simp: Let_def split_length split: orient.splits)

section \<open>Removing a leaf\<close>

lemma remove_leaf_gone: "fst (remove_leaf t p) \<longleftrightarrow> t = Leaf p"
  by (cases t) (auto split: list.splits)

lemma all_leaves_collapse:
  "all_leaves (snd (remove_leaf (HSplit cs) p)) = concat (map (\<lambda>c. all_leaves (fst c)) (retain_children cs p))"
  "all_leaves (snd (remove_leaf (VSplit cs) p)) = concat (map (\<lambda>c. all_leaves (fst c)) (retain_children cs p))"
  by (auto split: list.splits)

lemma remove_leaf_leaves:
  "\<not> fst (remove_leaf t p) \<Longrightarrow> all_leaves (snd (remove_leaf t p)) = filter (\<lambda>i. i \<noteq> p) (all_leaves t)"
  "concat (map (\<lambda>c. all_leaves (fst c)) (retain_children cs p))
     = filter (\<lambda>i. i \<noteq> p) (concat (map (\<lambda>c. all_leaves (fst c)) cs))"
proof (induction t p and cs p rule: remove_leaf_retain_children.induct)
  case (2 cs pane)
  then show ?case by (simp only: all_leaves_collapse all_leaves.simps)
next
  case (3 cs pane)
  then show ?case by (simp only: all_leaves_collapse all_leaves.simps)
next
  case (5 child w cs pane)
  then show ?case by (auto simp: Let_def case_prod_unfold remove_leaf_gone)
qed auto

text \<open>
  In a binary tree without repeated panes, removing a leaf leaves either the pair of
  children with their weights or the surviving child alone.
\<close>

lemma retain_pair:
  assumes "distinct (all_leaves (fst a) @ all_leaves (fst b))"
  shows "(\<exists>c \<in> {a, b}. retain_children [a, b] p = [(snd (remove_leaf (fst c) p), snd c)])
       \<or> retain_children [a, b] p = [(snd (remove_leaf (fst a) p), snd a), (snd (remove_leaf (fst b) p), snd b)]"
proof -
  have "\<not> (fst a = Leaf p \<and> fst b = Leaf p)" using assms by auto
  then show ?thesis
    by (cases a, cases b) (auto simp: Let_def case_prod_unfold remove_leaf_gone)
qed

lemma remove_leaf_keeps:
  "is_binary t \<Longrightarrow> wf_layout t \<Longrightarrow> distinct (all_leaves t) \<Longrightarrow>
     is_binary (snd (remove_leaf t p)) \<and> wf_layout (snd (remove_leaf t p))"
proof (induction t rule: layout_induct)
  case (Leaf i)
  then show ?case by simp
next
  case (HSplit cs)
  then obtain a b where cs: "cs = [a, b]" by (auto simp: length_Suc_conv numeral_2_eq_2)
  have "is_binary (snd (remove_leaf (fst a) p)) \<and> wf_layout (snd (remove_leaf (fst a) p))"
    and "is_binary (snd (remove_leaf (fst b) p)) \<and> wf_layout (snd (remove_leaf (fst b) p))"
    using HSplit.IH [of a] HSplit.IH [of b] HSplit.prems cs by auto
  then show ?case using retain_pair [of a b p] HSplit.prems cs by auto
next
  case (VSplit cs)
  then obtain a b where cs: "cs = [a, b]" by (auto simp: length_Suc_conv numeral_2_eq_2)
  have "is_binary (snd (remove_leaf (fst a) p)) \<and> wf_layout (snd (remove_leaf (fst a) p))"
    and "is_binary (snd (remove_leaf (fst b) p)) \<and> wf_layout (snd (remove_leaf (fst b) p))"
    using VSplit.IH [of a] VSplit.IH [of b] VSplit.prems cs by auto
  then show ?case using retain_pair [of a b p] VSplit.prems cs by auto
qed

section \<open>close\<close>

lemma close_leaves:
  assumes "p \<in> set (all_leaves t)" "length (all_leaves t) \<noteq> 1"
  shows "all_leaves (snd (close t p)) = filter (\<lambda>i. i \<noteq> p) (all_leaves t)"
proof -
  have "\<not> fst (remove_leaf t p)" using assms(2) by (auto simp: remove_leaf_gone)
  moreover obtain pos where "position (\<lambda>i. i = p) (all_leaves t) = Some pos"
    using position_hit [OF assms(1), of "\<lambda>i. i = p"] by auto
  ultimately show ?thesis using assms(2) by (simp add: close_def Let_def remove_leaf_leaves)
qed

lemma close_unchanged:
  "p \<notin> set (all_leaves t) \<or> length (all_leaves t) = 1 \<Longrightarrow> close t p = (None, t)"
proof (cases "p \<in> set (all_leaves t)")
  case True
  then obtain pos where "position (\<lambda>i. i = p) (all_leaves t) = Some pos"
    using position_hit [of p "all_leaves t" "\<lambda>i. i = p"] by auto
  moreover assume "p \<notin> set (all_leaves t) \<or> length (all_leaves t) = 1"
  ultimately show ?thesis using True by (simp add: close_def Let_def)
next
  case False
  then have "position (\<lambda>i. i = p) (all_leaves t) = None" by (auto simp: position_None)
  then show ?thesis by (simp add: close_def Let_def)
qed

lemma close_wf:
  "is_binary t \<Longrightarrow> wf_layout t \<Longrightarrow> distinct (all_leaves t) \<Longrightarrow>
     is_binary (snd (close t p)) \<and> wf_layout (snd (close t p))"
  by (auto simp: close_def Let_def remove_leaf_keeps split: option.splits)

end
