(* ===== verification/Layout_Weights.thy ===== *)
theory Layout_Weights
  imports Layout
begin

text \<open>
  The rebalancing of \<open>set_weight\<close>: with sibling weights that sum to 100 and are at least 5
  each, no 16- or 32-bit operation wraps, and the result satisfies the same invariant for a
  split of any arity. The argument follows the sign of the change: when the target shrinks
  the shares fit exactly, when it grows the siblings only lose weight and the final pass
  gives the rest to the target.
\<close>

section \<open>Words and clamps\<close>

lemma uint_u16: "0 \<le> x \<Longrightarrow> x < 65536 \<Longrightarrow> uint (word_of_int x :: u16) = x"
  by (simp add: uint_word_of_int)

lemma uint_clamp [simp]: "uint (word_of_int (clamp_int 5 95 x) :: u16) = clamp_int 5 95 x"
  by (rule uint_u16) (auto simp: clamp_int_def)

lemma uint_adjusted_bounds: "5 \<le> uint (sibling_adjusted nd st w) \<and> uint (sibling_adjusted nd st w) \<le> 95"
  using clamp_int_bounds [of 5 95] by (simp add: sibling_adjusted_def)

lemma sum_list_u16:
  "sum_list (map uint ws) < 65536 \<Longrightarrow> uint (sum_list ws :: u16) = sum_list (map uint ws)"
proof (induction ws)
  case Nil
  then show ?case by simp
next
  case (Cons w ws)
  have w: "0 \<le> uint w" and ws: "0 \<le> sum_list (map uint ws)" by (auto intro: sum_list_nonneg)
  have lt: "uint w + sum_list (map uint ws) < 65536" using Cons.prems by simp
  then have "uint (sum_list ws) = sum_list (map uint ws)" using Cons.IH w by linarith
  then have "uint (sum_list (w # ws)) = (uint w + sum_list (map uint ws)) mod 65536"
    by (simp add: uint_word_ariths)
  also have "\<dots> = uint w + sum_list (map uint ws)"
    using w ws lt by (intro mod_pos_pos_trivial) linarith+
  finally show ?case by simp
qed

lemma sum_list_index: "sum_list (map f xs) = (\<Sum>k<length xs. f (xs ! k))"
  by (simp add: sum_list_sum_nth atLeast0LessThan)

section \<open>The loop\<close>

lemma rebalance_list:
  "snd (rebalance idx nd st i l ws)
     = map (\<lambda>(k, w). if k = idx then w else sibling_adjusted nd st w) (enumerate i ws)"
  by (induction ws arbitrary: i l) (auto simp: Let_def case_prod_unfold)

lemma rebalance_left:
  assumes "list_all (\<lambda>w. uint w \<le> 100) ws" "\<bar>l\<bar> + 100 * int (length ws) < 2147483648"
  shows "fst (rebalance idx nd st i l ws)
     = l - sum_list (map (\<lambda>(k, w). if k = idx then 0 else uint (sibling_adjusted nd st w) - uint w)
         (enumerate i ws))"
  using assms
proof (induction ws arbitrary: i l)
  case Nil
  then show ?case by simp
next
  case (Cons w ws)
  have IH: "\<And>i l. \<bar>l\<bar> + 100 * int (length ws) < 2147483648 \<Longrightarrow> fst (rebalance idx nd st i l ws)
     = l - sum_list (map (\<lambda>(k, w). if k = idx then 0 else uint (sibling_adjusted nd st w) - uint w)
         (enumerate i ws))"
    using Cons.IH Cons.prems by simp
  let ?d = "uint (sibling_adjusted nd st w) - uint w"
  have "uint w \<le> 100" using Cons.prems(1) by simp
  then have d: "\<bar>?d\<bar> \<le> 100"
    using uint_adjusted_bounds [of nd st w] uint_ge_0 [of w] by linarith
  have wrap: "i32_wrap (l - ?d) = l - ?d"
    using d Cons.prems(2) by (intro i32_wrap_id) auto
  have "\<bar>l - ?d\<bar> + 100 * int (length ws) < 2147483648"
    using d Cons.prems(2) by auto
  then show ?case
    using IH [of l "Suc i"] IH [of "l - ?d" "Suc i"] Cons.prems(2) wrap
    by (auto simp: Let_def case_prod_unfold i32_of_u16_def)
qed

lemma siblings_sum_eq:
  assumes "list_all (\<lambda>w. uint w \<le> 100) ws" "length ws \<le> 1000"
  shows "siblings_sum idx ws = (\<Sum>k\<in>{..<length ws} - {idx}. uint (ws ! k))"
proof -
  let ?f = "\<lambda>acc i. i32_wrap (acc + (if i \<noteq> idx then i32_of_u16 (ws ! i) else 0))"
  have "n \<le> length ws \<Longrightarrow> foldl ?f 0 [0..<n] = (\<Sum>k\<in>{..<n} - {idx}. uint (ws ! k))
      \<and> foldl ?f 0 [0..<n] \<le> 100 * int n" for n
  proof (induction n)
    case 0
    then show ?case by simp
  next
    case (Suc n)
    let ?s = "\<Sum>k\<in>{..<n} - {idx}. uint (ws ! k)"
    have IH: "foldl ?f 0 [0..<n] = ?s" "?s \<le> 100 * int n" using Suc by auto
    have w: "0 \<le> uint (ws ! n)" "uint (ws ! n) \<le> 100"
      using assms(1) Suc.prems by (auto simp: list_all_length)
    have s0: "0 \<le> ?s" by (rule sum_nonneg) simp
    define v where "v = (if n \<noteq> idx then uint (ws ! n) else 0)"
    have "0 \<le> v" "v \<le> 100" using w by (auto simp: v_def)
    then have "i32_wrap (?s + v) = ?s + v"
      using s0 IH(2) Suc.prems assms(2) by (intro i32_wrap_id) auto
    then have fv: "?f ?s n = ?s + v" unfolding v_def i32_of_u16_def .
    have "{..<Suc n} - {idx} = (if n = idx then {..<n} - {idx} else insert n ({..<n} - {idx}))"
      by auto
    then have "(\<Sum>k\<in>{..<Suc n} - {idx}. uint (ws ! k)) = ?s + v"
      by (cases "n = idx") (simp_all add: v_def)
    with fv have step: "?f ?s n = (\<Sum>k\<in>{..<Suc n} - {idx}. uint (ws ! k))" by simp
    have "?f ?s n \<le> 100 * int (Suc n)" using fv \<open>v \<le> 100\<close> IH(2) by simp
    with step IH(1) show ?case by simp
  qed
  from this [of "length ws"] show ?thesis by (simp add: siblings_sum_def)
qed

lemma last_other_Some:
  assumes "2 \<le> length ws" "idx < length ws"
  shows "\<exists>j. last_other idx ws = Some j \<and> j < length ws \<and> j \<noteq> idx"
  using assms by (auto simp: last_other_def)

section \<open>Truncated shares\<close>

lemma mult_div_le: "0 < t \<Longrightarrow> t * (x div t) \<le> (x::int)"
  by (metis div_mult_mod_eq le_add_same_cancel1 mult.commute pos_mod_sign)

lemma sdiv_pos_bounds:
  fixes t x :: int
  assumes "0 < t" "0 \<le> x"
  shows "0 \<le> x sdiv t" "t * (x sdiv t) \<le> x"
proof -
  have eq: "x sdiv t = x div t"
    using assms by (cases "x = 0") (auto simp: signed_divide_int_def)
  show "0 \<le> x sdiv t" using assms eq by (simp add: pos_imp_zdiv_nonneg_iff)
  show "t * (x sdiv t) \<le> x" using assms eq mult_div_le by simp
qed

lemma sdiv_neg_bounds:
  fixes t x :: int
  assumes "0 < t" "x \<le> 0"
  shows "x sdiv t \<le> 0" "x \<le> t * (x sdiv t)"
proof -
  have eq: "x sdiv t = - ((- x) div t)"
    using assms by (cases "x = 0") (auto simp: signed_divide_int_def sgn_if)
  have "0 \<le> (- x) div t" using assms by (simp add: pos_imp_zdiv_nonneg_iff)
  then show "x sdiv t \<le> 0" using eq by simp
  have "t * ((- x) div t) \<le> - x" using assms mult_div_le by blast
  then show "x \<le> t * (x sdiv t)" using eq by simp
qed

section \<open>One sibling\<close>

text \<open>
  \<open>nd\<close> is minus the change of the target and \<open>t\<close> the total of the siblings; in range,
  the adjusted weight is the clamped sum of the weight and its truncated share.
\<close>

lemma uint_adjusted:
  assumes "uint w \<le> t" "5 \<le> t" "t \<le> 95" "\<bar>nd\<bar> \<le> 90"
  shows "uint (sibling_adjusted nd t w) = clamp_int 5 95 (uint w + (uint w * nd) sdiv t)"
proof -
  have w: "0 \<le> uint w" "uint w \<le> 95" using assms by auto
  have "\<bar>uint w * nd\<bar> \<le> 95 * 90"
    unfolding abs_mult using w assms by (intro mult_mono) auto
  then have p: "- 8550 \<le> uint w * nd" "uint w * nd \<le> 8550" by auto
  have mul: "i32_wrap (uint w * nd) = uint w * nd" using p by (intro i32_wrap_id) auto
  have q: "\<bar>(uint w * nd) sdiv t\<bar> \<le> 8550"
  proof (cases "0 \<le> uint w * nd")
    case True
    then have "0 \<le> (uint w * nd) sdiv t" "t * ((uint w * nd) sdiv t) \<le> uint w * nd"
      using sdiv_pos_bounds assms by auto
    moreover have "1 * ((uint w * nd) sdiv t) \<le> t * ((uint w * nd) sdiv t)"
      using calculation assms by (intro mult_right_mono) auto
    ultimately show ?thesis using p by linarith
  next
    case False
    then have "(uint w * nd) sdiv t \<le> 0" "uint w * nd \<le> t * ((uint w * nd) sdiv t)"
      using sdiv_neg_bounds assms by auto
    moreover have "t * ((uint w * nd) sdiv t) \<le> 1 * ((uint w * nd) sdiv t)"
      using calculation assms by (intro mult_right_mono_neg) auto
    ultimately show ?thesis using p by linarith
  qed
  have "i32_wrap (uint w + (uint w * nd) sdiv t) = uint w + (uint w * nd) sdiv t"
    using q w by (intro i32_wrap_id) linarith+
  then show ?thesis
    using mul assms by (simp add: sibling_adjusted_def sibling_share_def i32_of_u16_def)
qed

lemma adjusted_grow:
  assumes "5 \<le> uint w" "uint w \<le> t" "5 \<le> t" "t \<le> 95" "- 90 \<le> nd" "nd \<le> 0"
  shows "uint (sibling_adjusted nd t w) \<le> uint w"
    and "uint w * nd \<le> t * (uint (sibling_adjusted nd t w) - uint w)"
proof -
  let ?s = "(uint w * nd) sdiv t"
  have adj: "uint (sibling_adjusted nd t w) = clamp_int 5 95 (uint w + ?s)"
    using uint_adjusted assms by auto
  have "uint w * nd \<le> 0" using assms by (simp add: mult_nonneg_nonpos)
  then have s: "?s \<le> 0" "uint w * nd \<le> t * ?s" using sdiv_neg_bounds assms by auto
  show "uint (sibling_adjusted nd t w) \<le> uint w"
    using adj s assms by (auto simp: clamp_int_def)
  have "?s \<le> uint (sibling_adjusted nd t w) - uint w"
    using adj s assms by (auto simp: clamp_int_def)
  then have "t * ?s \<le> t * (uint (sibling_adjusted nd t w) - uint w)"
    using assms by (intro mult_left_mono) auto
  then show "uint w * nd \<le> t * (uint (sibling_adjusted nd t w) - uint w)" using s by linarith
qed

lemma adjusted_shrink:
  assumes "5 \<le> uint w" "uint w \<le> t" "5 \<le> t" "0 \<le> nd" "t + nd \<le> 95"
  shows "uint w \<le> uint (sibling_adjusted nd t w)"
    and "t * (uint (sibling_adjusted nd t w) - uint w) \<le> uint w * nd"
proof -
  let ?s = "(uint w * nd) sdiv t"
  have s: "0 \<le> ?s" "t * ?s \<le> uint w * nd" using sdiv_pos_bounds assms by auto
  have "t * ?s \<le> t * nd" using s mult_right_mono [of "uint w" t nd] assms by linarith
  then have "?s \<le> nd" using assms by simp
  then have adj: "uint (sibling_adjusted nd t w) = uint w + ?s"
    using uint_adjusted [of w t nd] assms s by simp
  show "uint w \<le> uint (sibling_adjusted nd t w)"
    and "t * (uint (sibling_adjusted nd t w) - uint w) \<le> uint w * nd"
    using adj s by auto
qed

text \<open>With a single sibling its share is the whole change.\<close>

lemma adjusted_single:
  assumes "5 \<le> uint w" "uint w \<le> 95" "5 \<le> uint w + nd" "uint w + nd \<le> 95"
  shows "uint (sibling_adjusted nd (uint w) w) = uint w + nd"
proof -
  have "(uint w * nd) sdiv uint w = nd"
    using assms by (auto simp: signed_divide_int_def sgn_mult abs_mult mult_sgn_abs)
  then show ?thesis using uint_adjusted [of w "uint w" nd] assms by simp
qed

section \<open>The whole vector\<close>

lemma wf_weights_uint:
  "wf_weights ws \<longleftrightarrow> 2 \<le> length ws \<and> (\<Sum>k<length ws. uint (ws ! k)) = 100
     \<and> (\<forall>k<length ws. 5 \<le> uint (ws ! k))"
proof -
  have "int (sum_list (map unat ws)) = sum_list (map uint ws)"
    by (induction ws) auto
  then have "sum_list (map unat ws) = 100 \<longleftrightarrow> (\<Sum>k<length ws. uint (ws ! k)) = 100"
    unfolding sum_list_index [symmetric] by linarith
  moreover have "5 \<le> unat w \<longleftrightarrow> 5 \<le> uint w" for w :: u16
  proof -
    have "int (unat w) = uint w" by simp
    then show ?thesis by linarith
  qed
  ultimately show ?thesis by (simp add: wf_weights_def list_all_length)
qed

lemma sum_split_idx:
  fixes f :: "nat \<Rightarrow> int"
  shows "idx < n \<Longrightarrow> (\<Sum>k<n. f k) = f idx + (\<Sum>k\<in>{..<n} - {idx}. f k)"
  by (simp add: sum.remove)

lemma wf_weights_total:
  assumes "wf_weights ws" "idx < length ws"
  defines "t \<equiv> \<Sum>k\<in>{..<length ws} - {idx}. uint (ws ! k)"
  shows "t = 100 - uint (ws ! idx)" "5 \<le> t" "t \<le> 95" "length ws \<le> 20"
    "\<And>k. k < length ws \<Longrightarrow> k \<noteq> idx \<Longrightarrow> uint (ws ! k) \<le> t"
proof -
  have wf: "2 \<le> length ws" "(\<Sum>k<length ws. uint (ws ! k)) = 100" "\<And>k. k < length ws \<Longrightarrow> 5 \<le> uint (ws ! k)"
    using assms(1) by (auto simp: wf_weights_uint)
  show t: "t = 100 - uint (ws ! idx)"
    using wf(2) sum_split_idx [OF assms(2), of "\<lambda>k. uint (ws ! k)"] by (simp add: t_def)
  show le: "uint (ws ! k) \<le> t" if "k < length ws" "k \<noteq> idx" for k
    unfolding t_def using that by (intro member_le_sum) auto
  define j where "j = (if idx = 0 then 1 else 0 :: nat)"
  have "j < length ws" "j \<noteq> idx" using wf(1) by (auto simp: j_def)
  then show "5 \<le> t" using le wf(3) by force
  show "t \<le> 95" using t wf(3) assms(2) by simp
  have "(\<Sum>k<length ws. 5) \<le> (\<Sum>k<length ws. uint (ws ! k))"
    by (rule sum_mono) (simp add: wf(3))
  then show "length ws \<le> 20" using wf(2) by simp
qed

text \<open>The final pass: siblings that sum to between 5 and 95 leave the target a legal weight.\<close>

lemma final_pass_wf:
  fixes ws :: "u16 list"
  assumes idx: "idx < length ws" and n: "2 \<le> length ws" and c: "5 \<le> uint (ws ! idx)" "uint (ws ! idx) \<le> 95"
    and s: "(\<Sum>k\<in>{..<length ws} - {idx}. uint (ws ! k)) = s" "5 \<le> s" "s \<le> 95"
    and others: "\<And>k. k < length ws \<Longrightarrow> k \<noteq> idx \<Longrightarrow> 5 \<le> uint (ws ! k)"
  defines "ws' \<equiv> (if sum_list ws \<noteq> 100
     then ws[idx := word_of_int (clamp_int 5 95 (i32_of_u16 (ws ! idx) + (100 - i32_of_u16 (sum_list ws))))]
     else ws)"
  shows "wf_weights ws' \<and> length ws' = length ws \<and> uint (ws' ! idx) = 100 - s"
proof -
  have tot: "(\<Sum>k<length ws. uint (ws ! k)) = uint (ws ! idx) + s"
    using sum_split_idx [OF idx, of "\<lambda>k. uint (ws ! k)"] s by simp
  then have u: "uint (sum_list ws) = uint (ws ! idx) + s"
    using sum_list_u16 [of ws] c s by (simp add: sum_list_index)
  have rest: "(\<Sum>k\<in>{..<length ws} - {idx}. uint (ws' ! k)) = s"
    unfolding s(1) [symmetric] by (rule sum.cong) (auto simp: ws'_def)
  have target: "uint (ws' ! idx) = 100 - s"
  proof (cases "sum_list ws = 100")
    case True
    then have "uint (ws ! idx) + s = 100" using u by simp
    then show ?thesis using True by (simp add: ws'_def)
  next
    case False
    then have "ws' = ws[idx := word_of_int (clamp_int 5 95 (100 - s))]"
      using u by (simp add: ws'_def i32_of_u16_def)
    then have "uint (ws' ! idx) = clamp_int 5 95 (100 - s)" using idx by (simp del: clamp_int_id)
    then show ?thesis using s by simp
  qed
  have len: "length ws' = length ws" by (simp add: ws'_def)
  have ge: "5 \<le> uint (ws' ! k)" if "k < length ws" for k
  proof (cases "k = idx")
    case True
    then show ?thesis using target s by simp
  next
    case False
    then show ?thesis using others that by (simp add: ws'_def)
  qed
  have "(\<Sum>k<length ws'. uint (ws' ! k)) = 100"
    using sum_split_idx [of idx "length ws'" "\<lambda>k. uint (ws' ! k)"] idx len rest target by simp
  then show ?thesis using len ge n target by (auto simp: wf_weights_uint)
qed

text \<open>The leftover of the loop, over abstract weights before (\<open>a\<close>) and after (\<open>b\<close>) it.\<close>

lemma leftover_shrink:
  fixes a b :: "nat \<Rightarrow> int"
  assumes fin: "finite I" and j: "j \<in> I" and t: "t = sum a I" "5 \<le> t" "t + nd \<le> 95"
    and sh: "\<And>k. k \<in> I \<Longrightarrow> 5 \<le> b k \<and> t * (b k - a k) \<le> a k * nd"
  defines "D \<equiv> \<Sum>k\<in>I. b k - a k"
  shows "D \<le> nd \<and> 5 \<le> b j + (nd - D) \<and> b j + (nd - D) \<le> 95
    \<and> b j + (nd - D) + sum b (I - {j}) = t + nd"
proof -
  have "t * D \<le> (\<Sum>k\<in>I. a k * nd)"
    unfolding D_def sum_distrib_left by (rule sum_mono) (use sh in auto)
  also have "\<dots> = t * nd" by (simp add: t(1) sum_distrib_right)
  finally have D: "D \<le> nd" using t(2) by simp
  have "sum b I = t + D" by (simp add: D_def t(1) sum_subtractf)
  then have others: "sum b (I - {j}) = t + D - b j" using fin j by (simp add: sum.remove)
  have "0 \<le> sum b (I - {j})" using sh by (intro sum_nonneg) force
  then show ?thesis using D others sh [OF j] t(3) by auto
qed

lemma leftover_grow:
  fixes a b :: "nat \<Rightarrow> int"
  assumes t: "t = sum a I" "5 \<le> t" and gr: "\<And>k. k \<in> I \<Longrightarrow> b k \<le> a k \<and> a k * nd \<le> t * (b k - a k)"
  defines "D \<equiv> \<Sum>k\<in>I. b k - a k"
  shows "nd \<le> D \<and> D \<le> 0"
proof -
  have "t * nd = (\<Sum>k\<in>I. a k * nd)" by (simp add: t(1) sum_distrib_right)
  also have "\<dots> \<le> t * D" unfolding D_def sum_distrib_left by (rule sum_mono) (use gr in auto)
  finally have "nd \<le> D" using t(2) by simp
  moreover have "D \<le> 0" unfolding D_def by (rule sum_nonpos) (use gr in auto)
  ultimately show ?thesis by simp
qed

text \<open>The sum after the leftover pass, when the siblings grow to make room and when they shrink.\<close>

lemma siblings_sum_shrink:
  fixes a b v :: "nat \<Rightarrow> int"
  assumes I: "finite I" "j \<in> I" and t: "t = sum a I" "5 \<le> t" and fit: "t + nd \<le> 95"
    and ab: "\<And>k. k \<in> I \<Longrightarrow> 5 \<le> b k \<and> t * (b k - a k) \<le> a k * nd"
    and left: "left = nd - (\<Sum>k\<in>I. b k - a k)"
    and v: "\<And>k. k \<in> I \<Longrightarrow> v k = (if k = j then clamp_int 5 95 (i32_wrap (b j + left)) else b k)"
  shows "sum v I = t + nd"
proof -
  have bj: "5 \<le> b j + left" "b j + left \<le> 95" "b j + left + sum b (I - {j}) = t + nd"
    using leftover_shrink [of I j t a nd b, OF I t fit ab] by (auto simp: left)
  then have "v j = b j + left" using v [OF I(2)] by (simp add: i32_wrap_id)
  moreover have "sum v (I - {j}) = sum b (I - {j})" by (rule sum.cong) (use v in auto)
  ultimately show ?thesis using I bj by (simp add: sum.remove)
qed

lemma siblings_sum_grow:
  fixes a b v :: "nat \<Rightarrow> int"
  assumes I: "j \<in> I" and t: "t = sum a I" "5 \<le> t" and nd: "\<bar>nd\<bar> \<le> 90"
    and ab: "\<And>k. k \<in> I \<Longrightarrow> b k \<le> a k \<and> a k * nd \<le> t * (b k - a k)" and b: "\<And>k. 5 \<le> b k \<and> b k \<le> 95"
    and left: "left = nd - (\<Sum>k\<in>I. b k - a k)"
    and v: "\<And>k. k \<in> I \<Longrightarrow> v k = (if k = j then clamp_int 5 95 (i32_wrap (b j + left)) else b k)"
  shows "sum v I \<le> t"
proof -
  have D: "nd \<le> (\<Sum>k\<in>I. b k - a k)" "(\<Sum>k\<in>I. b k - a k) \<le> 0"
    using leftover_grow [of t a I b nd, OF t ab] by auto
  have "i32_wrap (b j + left) = b j + left"
    using left D b [of j] nd by (intro i32_wrap_id) linarith+
  then have "v j \<le> b j" using v [OF I] left D b [of j] by (auto simp: clamp_int_def)
  then have "v k \<le> a k" if "k \<in> I" for k using that v ab by (cases "k = j") force+
  then show ?thesis unfolding t(1) by (rule sum_mono)
qed

text \<open>What the loop and the leftover pass give the siblings, in both directions.\<close>

lemma siblings_after:
  assumes wf: "wf_weights ws" and idx: "idx < length ws" and c: "5 \<le> uint c" "uint c \<le> 95"
  defines "nd \<equiv> - (i32_of_u16 c - i32_of_u16 (ws ! idx))"
  defines "ws1 \<equiv> ws[idx := c]"
  defines "st \<equiv> siblings_sum idx ws1"
  defines "r \<equiv> rebalance idx nd st 0 nd ws1"
  assumes j: "j < length ws" "j \<noteq> idx"
  defines "ws2 \<equiv> (snd r)[j := word_of_int (clamp_int 5 95 (i32_wrap (i32_of_u16 (snd r ! j) + fst r)))]"
  defines "s \<equiv> \<Sum>k\<in>{..<length ws} - {idx}. uint (ws2 ! k)"
  shows "length ws2 = length ws \<and> ws2 ! idx = c \<and> 5 \<le> s \<and> s \<le> 95 \<and> 0 < st
    \<and> (0 \<le> nd \<or> length ws = 2 \<longrightarrow> s = 100 - uint c)
    \<and> (\<forall>k<length ws. k \<noteq> idx \<longrightarrow> 5 \<le> uint (ws2 ! k))"
proof -
  let ?I = "{..<length ws} - {idx}"
  let ?a = "\<lambda>k. uint (ws ! k)"
  define t where "t = (\<Sum>k\<in>?I. ?a k)"
  note T = wf_weights_total [OF wf idx, folded t_def]
  have a5: "\<And>k. k < length ws \<Longrightarrow> 5 \<le> ?a k" using wf by (auto simp: wf_weights_uint)
  have "uint (ws1 ! k) \<le> 100" if "k < length ws" for k
    using that c T(3) T(5) [OF that] by (cases "k = idx") (auto simp: ws1_def)
  then have small: "list_all (\<lambda>w. uint w \<le> 100) ws1" by (simp add: list_all_length ws1_def)
  have "st = (\<Sum>k\<in>{..<length ws1} - {idx}. uint (ws1 ! k))"
    unfolding st_def using small T(4) by (intro siblings_sum_eq) (auto simp: ws1_def)
  also have "\<dots> = t" unfolding t_def by (rule sum.cong) (auto simp: ws1_def)
  finally have st: "st = t" .
  have nd: "nd = ?a idx - uint c" by (simp add: nd_def i32_of_u16_def)
  then have nd90: "\<bar>nd\<bar> \<le> 90" using c T a5 [OF idx] by auto
  define b where "b = (\<lambda>k. uint (sibling_adjusted nd st (ws ! k)))"
  have r_nth: "snd r ! k = (if k = idx then c else sibling_adjusted nd st (ws ! k))" if "k < length ws" for k
    using that idx by (auto simp: r_def rebalance_list ws1_def nth_enumerate_eq)
  have r_len: "length (snd r) = length ws" by (simp add: r_def rebalance_list ws1_def)
  define D where "D = (\<Sum>k\<in>?I. b k - ?a k)"
  have "fst r = nd - (\<Sum>k<length ws. if k = idx then 0 else b k - ?a k)"
    unfolding r_def using small nd90 T(4)
    by (subst rebalance_left)
      (auto simp: sum_list_index ws1_def b_def nth_enumerate_eq intro!: sum.cong)
  also have "(\<Sum>k<length ws. if k = idx then 0 else b k - ?a k) = D"
    using sum_split_idx [OF idx, of "\<lambda>k. if k = idx then 0 else b k - ?a k"]
    by (auto simp: D_def intro!: sum.cong)
  finally have left: "fst r = nd - D" .
  have b_bounds: "5 \<le> b k" "b k \<le> 95" for k using uint_adjusted_bounds by (auto simp: b_def)
  have ws2_nth: "uint (ws2 ! k) = (if k = j then clamp_int 5 95 (i32_wrap (b j + fst r)) else b k)"
    if "k \<in> ?I" for k
    using that j r_nth r_len by (auto simp: ws2_def b_def i32_of_u16_def)
  have jI: "j \<in> ?I" using j by simp
  have base: "length ws2 = length ws" "ws2 ! idx = c" using idx j r_len r_nth by (auto simp: ws2_def)
  have ge5: "5 \<le> uint (ws2 ! k)" if "k \<in> ?I" for k
    using ws2_nth [OF that] b_bounds clamp_int_bounds [of 5 95] by auto
  have s_ge: "5 \<le> s"
  proof -
    have "uint (ws2 ! j) \<le> s" unfolding s_def using jI by (intro member_le_sum) auto
    then show ?thesis using ge5 [OF jI] by simp
  qed
  show ?thesis
  proof (cases "0 \<le> nd")
    case True
    have fit: "t + nd \<le> 95" using nd T(1) c by simp
    have "5 \<le> b k \<and> t * (b k - ?a k) \<le> ?a k * nd" if "k \<in> ?I" for k
      using adjusted_shrink [of "ws ! k" t nd] a5 T that True fit b_bounds by (auto simp: b_def st)
    from siblings_sum_shrink [OF _ jI t_def T(2) fit this left [unfolded D_def] ws2_nth] have "s = t + nd" by (simp add: s_def)
    then have "s = 100 - uint c" using nd T(1) by simp
    then show ?thesis using base s_ge ge5 c st T by auto
  next
    case False
    have gr: "b k \<le> ?a k \<and> ?a k * nd \<le> t * (b k - ?a k)" if "k \<in> ?I" for k
      using adjusted_grow [of "ws ! k" t nd] a5 T that False nd90 by (auto simp: b_def st)
    from siblings_sum_grow [OF jI t_def T(2) nd90 this _ left [unfolded D_def] ws2_nth] b_bounds have "s \<le> t" by (simp add: s_def)
    moreover have "s = 100 - uint c" if two: "length ws = 2"
    proof -
      have I: "?I = {j}" using two j idx by auto
      then have tj: "t = ?a j" by (simp add: t_def)
      have "5 \<le> ?a j + nd" "?a j + nd \<le> 95" "?a j \<le> 95"
        using nd T tj c by auto
      then have bj: "b j = ?a j + nd" using adjusted_single [of "ws ! j" nd] a5 j tj by (simp add: b_def st)
      then have "fst r = 0" using left I by (simp add: D_def)
      then have "s = b j" unfolding s_def using I ws2_nth [OF jI] b_bounds [of j] by (simp add: i32_wrap_id)
      then show ?thesis using bj nd T tj by simp
    qed
    ultimately show ?thesis using base s_ge ge5 st T False by auto
  qed
qed

lemma set_weights_wf:
  assumes wf: "wf_weights ws" and idx: "idx < length ws"
  shows "wf_weights (set_weights idx nw ws) \<and> length (set_weights idx nw ws) = length ws
    \<and> (uint nw \<le> uint (ws ! idx) \<or> length ws = 2 \<longrightarrow>
         uint (set_weights idx nw ws ! idx) = clamp_int 5 95 (uint nw))"
proof -
  define c :: u16 where "c = word_of_int (clamp_int 5 95 (i32_of_u16 nw))"
  have uc: "uint c = clamp_int 5 95 (uint nw)" by (simp add: c_def i32_of_u16_def)
  then have c: "5 \<le> uint c" "uint c \<le> 95" using clamp_int_bounds [of 5 95] by auto
  show ?thesis
  proof (cases "c = ws ! idx")
    case True
    then have "set_weights idx nw ws = ws" by (simp add: set_weights_def c_def)
    then show ?thesis using wf True uc by simp
  next
    case False
    define nd where "nd = - (i32_of_u16 c - i32_of_u16 (ws ! idx))"
    define ws1 where "ws1 = ws[idx := c]"
    define st where "st = siblings_sum idx ws1"
    define r where "r = rebalance idx nd st 0 nd ws1"
    have len: "2 \<le> length (snd r)" "idx < length (snd r)" "length (snd r) = length ws"
      using wf idx by (auto simp: r_def rebalance_list ws1_def wf_weights_def)
    then obtain j where j: "last_other idx (snd r) = Some j" "j < length ws" "j \<noteq> idx"
      using last_other_Some by metis
    define ws2 where "ws2 = (snd r)[j := word_of_int (clamp_int 5 95 (i32_wrap (i32_of_u16 (snd r ! j) + fst r)))]"
    define s where "s = (\<Sum>k\<in>{..<length ws} - {idx}. uint (ws2 ! k))"
    note S = siblings_after [OF wf idx c j(2,3), folded nd_def ws1_def, folded st_def, folded r_def,
        folded ws2_def, folded s_def]
    have eq: "set_weights idx nw ws = (if sum_list ws2 \<noteq> 100
       then ws2[idx := word_of_int (clamp_int 5 95 (i32_of_u16 (ws2 ! idx) + (100 - i32_of_u16 (sum_list ws2))))]
       else ws2)"
      using False S j(1)
      by (simp add: set_weights_def Let_def case_prod_unfold del: minus_diff_eq flip: c_def nd_def ws1_def st_def r_def ws2_def)
    note fin = final_pass_wf [of idx ws2 s, folded eq]
    have F: "wf_weights (set_weights idx nw ws)" "length (set_weights idx nw ws) = length ws"
      "uint (set_weights idx nw ws ! idx) = 100 - s"
      using fin S idx c wf by (auto simp: s_def wf_weights_def)
    have "0 \<le> nd" if "uint nw \<le> uint (ws ! idx)"
    proof -
      have "5 \<le> uint (ws ! idx)" using wf idx by (auto simp: wf_weights_uint)
      then have "uint c \<le> uint (ws ! idx)" using that uc by (auto simp: clamp_int_def)
      then show ?thesis by (simp add: nd_def i32_of_u16_def)
    qed
    then have "s = 100 - uint c" if "uint nw \<le> uint (ws ! idx) \<or> length ws = 2"
      using S that by blast
    then show ?thesis using F uc by auto
  qed
qed

section \<open>The tree\<close>

lemma set_weight_absent:
  "p \<notin> set (all_leaves t) \<Longrightarrow> set_weight_inner t p w = (False, t)"
  "p \<notin> set (concat (map (\<lambda>c. all_leaves (fst c)) cs)) \<Longrightarrow> set_weight_children cs p w = (False, cs)"
  by (induction t p w and cs p w rule: set_weight_inner_set_weight_children.induct)
    (auto simp: Let_def position_None split: option.splits dest!: position_Some)

lemma put_weights_fst: "length ws = length cs \<Longrightarrow> map fst (put_weights cs ws) = map fst cs"
  by (simp add: put_weights_def)

lemma put_weights_snd: "length ws = length cs \<Longrightarrow> map snd (put_weights cs ws) = ws"
  by (simp add: put_weights_def)

lemma children_by_fst:
  "concat (map (\<lambda>c. all_leaves (fst c)) cs) = concat (map all_leaves (map fst cs))"
  "list_all (\<lambda>c. P (fst c)) cs = list_all P (map fst cs)"
  by (auto simp: comp_def list_all_iff)

lemma set_weight_split:
  assumes "wf_weights (map snd cs)" "K = HSplit \<or> K = VSplit"
  shows "\<exists>ws. set_weight (K cs) p w = K (put_weights cs ws) \<and> wf_weights ws \<and> length ws = length cs"
proof (cases "position (\<lambda>c. p \<in> set (all_leaves (fst c))) cs")
  case None
  then have "p \<notin> set (all_leaves (K cs))" using assms(2) by (auto simp: position_None)
  then have "set_weight (K cs) p w = K (put_weights cs (map snd cs))"
    by (simp add: set_weight_def set_weight_absent put_weights_def zip_map_fst_snd)
  then show ?thesis using assms by auto
next
  case (Some idx)
  then have "idx < length (map snd cs)" using position_Some by fastforce
  then have "wf_weights (set_weights idx w (map snd cs))" "length (set_weights idx w (map snd cs)) = length cs"
    using set_weights_wf [OF assms(1)] by auto
  moreover have "set_weight (K cs) p w = K (put_weights cs (set_weights idx w (map snd cs)))"
    using assms(2) Some by (auto simp: set_weight_def)
  ultimately show ?thesis by blast
qed

lemma set_weight_keeps:
  assumes "wf_layout t"
  shows "wf_layout (set_weight t p w) \<and> all_leaves (set_weight t p w) = all_leaves t
    \<and> (is_binary t \<longrightarrow> is_binary (set_weight t p w))"
proof (cases t)
  case (Leaf i)
  then show ?thesis by (simp add: set_weight_def)
next
  case (HSplit cs)
  then obtain ws where "set_weight t p w = HSplit (put_weights cs ws)" "wf_weights ws" "length ws = length cs"
    using set_weight_split [of cs HSplit] assms by auto
  then show ?thesis using assms HSplit
    by (simp add: children_by_fst put_weights_fst put_weights_snd del: map_map)
      (simp add: put_weights_def)
next
  case (VSplit cs)
  then obtain ws where "set_weight t p w = VSplit (put_weights cs ws)" "wf_weights ws" "length ws = length cs"
    using set_weight_split [of cs VSplit] assms by auto
  then show ?thesis using assms VSplit
    by (simp add: children_by_fst put_weights_fst put_weights_snd del: map_map)
      (simp add: put_weights_def)
qed

section \<open>The contract of a tiling and its refinement\<close>

text \<open>
  What the session registry relies on: seen as the list of its panes in display order, a
  layout inserts a new pane right after the one it splits, drops the closed pane (but keeps
  a last one), and ignores weights.
\<close>

datatype layout_op = OpSplit pane_id pane_id orient | OpClose pane_id | OpWeight pane_id u16

definition close_list :: "'p \<Rightarrow> 'p list \<Rightarrow> 'p list" where
  "close_list p ps = (if length ps = 1 then ps else filter (\<lambda>i. i \<noteq> p) ps)"

fun list_op :: "pane_id list \<Rightarrow> layout_op \<Rightarrow> pane_id list" where
  "list_op ps (OpSplit f n ori) = insert_after f n ps"
| "list_op ps (OpClose p) = close_list p ps"
| "list_op ps (OpWeight p w) = ps"

fun list_ops_ok :: "pane_id list \<Rightarrow> layout_op list \<Rightarrow> bool" where
  "list_ops_ok ps [] \<longleftrightarrow> True"
| "list_ops_ok ps (op # ops) \<longleftrightarrow>
     (case op of OpSplit f n ori \<Rightarrow> n \<notin> set ps | _ \<Rightarrow> True) \<and> list_ops_ok (list_op ps op) ops"

locale tiling =
  fixes panes :: "'t \<Rightarrow> pane_id list"
    and do_split :: "'t \<Rightarrow> pane_id \<Rightarrow> pane_id \<Rightarrow> orient \<Rightarrow> 't"
    and do_close :: "'t \<Rightarrow> pane_id \<Rightarrow> 't"
    and do_weight :: "'t \<Rightarrow> pane_id \<Rightarrow> u16 \<Rightarrow> 't"
    and good :: "'t \<Rightarrow> bool"
  assumes panes_split: "panes (do_split t f n ori) = insert_after f n (panes t)"
    and panes_close: "panes (do_close t p) = close_list p (panes t)"
    and panes_weight: "good t \<Longrightarrow> panes (do_weight t p w) = panes t"
    and good_split: "good t \<Longrightarrow> n \<notin> set (panes t) \<Longrightarrow> good (do_split t f n ori)"
    and good_close: "good t \<Longrightarrow> good (do_close t p)"
    and good_weight: "good t \<Longrightarrow> good (do_weight t p w)"
begin

definition do_op :: "'t \<Rightarrow> layout_op \<Rightarrow> 't" where
  "do_op t op =
     (case op of
        OpSplit f n ori \<Rightarrow> do_split t f n ori
      | OpClose p \<Rightarrow> do_close t p
      | OpWeight p w \<Rightarrow> do_weight t p w)"

lemma panes_op: "good t \<Longrightarrow> panes (do_op t op) = list_op (panes t) op"
  by (cases op) (auto simp: do_op_def panes_split panes_close panes_weight)

lemma good_op:
  "good t \<Longrightarrow> list_ops_ok (panes t) [op] \<Longrightarrow> good (do_op t op)"
  by (cases op) (auto simp: do_op_def good_split good_close good_weight)

lemma run_refines:
  assumes "good t" "list_ops_ok (panes t) ops"
  shows "good (foldl do_op t ops) \<and> panes (foldl do_op t ops) = foldl list_op (panes t) ops"
  using assms
proof (induction ops arbitrary: t)
  case Nil
  then show ?case by simp
next
  case (Cons op ops)
  have "good (do_op t op)" using Cons.prems good_op [of t op] by simp
  then show ?case using Cons.IH [of "do_op t op"] Cons.prems panes_op [of t op] by simp
qed

end

definition good_layout :: "layout_node \<Rightarrow> bool" where
  "good_layout t \<longleftrightarrow> wf_layout t \<and> is_binary t \<and> distinct (all_leaves t)"

lemma close_panes: "all_leaves (snd (close t p)) = close_list p (all_leaves t)"
proof (cases "p \<in> set (all_leaves t) \<and> length (all_leaves t) \<noteq> 1")
  case True
  then show ?thesis using close_leaves by (simp add: close_list_def)
next
  case False
  then have "snd (close t p) = t" using close_unchanged by force
  moreover have "filter (\<lambda>i. i \<noteq> p) (all_leaves t) = all_leaves t" if "p \<notin> set (all_leaves t)"
    using that by (auto simp: filter_id_conv)
  ultimately show ?thesis using False by (auto simp: close_list_def)
qed

interpretation tree: tiling all_leaves split_focused "\<lambda>t p. snd (close t p)" set_weight good_layout
proof unfold_locales
  fix t f n ori p w
  show "all_leaves (split_focused t f n ori) = insert_after f n (all_leaves t)"
    using split_leaves by (simp add: split_focused_def)
  show "all_leaves (snd (close t p)) = close_list p (all_leaves t)" by (rule close_panes)
  show "good_layout t \<Longrightarrow> all_leaves (set_weight t p w) = all_leaves t"
    using set_weight_keeps by (simp add: good_layout_def)
  show "good_layout t \<Longrightarrow> n \<notin> set (all_leaves t) \<Longrightarrow> good_layout (split_focused t f n ori)"
    by (auto simp: good_layout_def split_focused_def split_wf split_binary split_leaves distinct_insert_after)
  show "good_layout t \<Longrightarrow> good_layout (snd (close t p))"
    using close_wf [of t p] close_panes [of t p] by (auto simp: good_layout_def close_list_def)
  show "good_layout t \<Longrightarrow> good_layout (set_weight t p w)"
    using set_weight_keeps by (simp add: good_layout_def)
qed

section \<open>Reachable layouts\<close>

fun apply_layout_op :: "layout_node \<Rightarrow> layout_op \<Rightarrow> layout_node" where
  "apply_layout_op t (OpSplit f n ori) = split_focused t f n ori"
| "apply_layout_op t (OpClose p) = snd (close t p)"
| "apply_layout_op t (OpWeight p w) = set_weight t p w"

lemma apply_layout_op_tree: "apply_layout_op = tree.do_op"
proof (intro ext)
  fix t op
  show "apply_layout_op t op = tree.do_op t op"
    by (cases op) (auto simp: tree.do_op_def)
qed

text \<open>
  The trees a window can hold: it starts as the leaf of its first pane, a split introduces a
  pane identifier that is new to the tree, and any pane may be closed or resized.
\<close>

inductive reachable_layout :: "layout_node \<Rightarrow> bool" where
  first_pane: "reachable_layout (Leaf p)"
| split_pane: "reachable_layout t \<Longrightarrow> n \<notin> set (all_leaves t) \<Longrightarrow> reachable_layout (split_focused t f n ori)"
| close_pane: "reachable_layout t \<Longrightarrow> reachable_layout (snd (close t p))"
| resize_pane: "reachable_layout t \<Longrightarrow> reachable_layout (set_weight t p w)"

lemma good_leaf: "good_layout (Leaf p)"
  by (simp add: good_layout_def)

lemma reachable_good: "reachable_layout t \<Longrightarrow> good_layout t"
  by (induction rule: reachable_layout.induct)
    (auto intro: good_leaf tree.good_split tree.good_close tree.good_weight)

text \<open>
  C2. In every layout that splits, closes and resizes can produce from a window's first
  pane, in every order, the sibling weights of every split sum to 100, every weight is at
  least 5, every split has exactly two children and no pane occurs twice.
\<close>

theorem reachable_layout_invariant:
  assumes "reachable_layout t"
  shows "wf_layout t \<and> is_binary t \<and> distinct (all_leaves t)"
  using reachable_good [OF assms] by (simp add: good_layout_def)

definition demo_layout :: layout_node where
  "demo_layout = split_focused (split_focused (Leaf (PaneId 1)) (PaneId 1) (PaneId 2) Vertical)
     (PaneId 2) (PaneId 3) Horizontal"

lemma demo_reachable: "reachable_layout demo_layout"
  unfolding demo_layout_def
  by (intro reachable_layout.split_pane reachable_layout.first_pane) (auto simp: split_focused_def)

theorem reachable_layout_invariant_witness:
  "reachable_layout (set_weight demo_layout (PaneId 3) 80)
   \<and> wf_layout (set_weight demo_layout (PaneId 3) 80)
   \<and> distinct (all_leaves (set_weight demo_layout (PaneId 3) 80))"
  using reachable_layout_invariant [OF reachable_layout.resize_pane [OF demo_reachable, of "PaneId 3" 80]]
    reachable_layout.resize_pane [OF demo_reachable, of "PaneId 3" 80]
  by blast

text \<open>
  C8. The layout tree refines a list of panes: along any sequence of splits (with new pane
  identifiers), closes and resizes, the depth-first leaves of the tree are what the list
  operations compute (a split inserts right after the focused pane, a close drops the pane
  unless it is the last one, a resize changes nothing), and the invariant is kept.
\<close>

theorem layout_refines_list:
  assumes "good_layout t" "list_ops_ok (all_leaves t) ops"
  shows "good_layout (foldl apply_layout_op t ops)
    \<and> all_leaves (foldl apply_layout_op t ops) = foldl list_op (all_leaves t) ops"
  using tree.run_refines [OF assms] by (simp add: apply_layout_op_tree)

theorem layout_refines_list_witness:
  "all_leaves (foldl apply_layout_op (Leaf (PaneId 1))
     [OpSplit (PaneId 1) (PaneId 2) Vertical, OpSplit (PaneId 1) (PaneId 3) Horizontal,
      OpWeight (PaneId 2) 70, OpClose (PaneId 1)]) = [PaneId 3, PaneId 2]"
  using layout_refines_list [OF good_leaf, of "PaneId 1"
    "[OpSplit (PaneId 1) (PaneId 2) Vertical, OpSplit (PaneId 1) (PaneId 3) Horizontal,
      OpWeight (PaneId 2) 70, OpClose (PaneId 1)]"]
  by (simp add: close_list_def)

section \<open>Focus after a close\<close>

lemma position_append:
  "x \<notin> set us \<Longrightarrow> position (\<lambda>i. i = x) (us @ x # vs) = Some (length us)"
  by (induction us) (auto simp: position_def Let_def split: if_splits)

text \<open>
  C34. Closing a pane of a multi-pane layout (no pane repeated) always yields a pane to
  focus, and it is a pane of the remaining tree: the one that preceded the closed pane in
  display order, or the new first pane when the first one was closed. Closing the only
  pane, or an unknown one, yields no focus and leaves the tree as it was.
\<close>

theorem close_picks_predecessor:
  assumes "all_leaves t = us @ p # vs" "distinct (all_leaves t)" "us @ vs \<noteq> []"
  shows "all_leaves (snd (close t p)) = us @ vs
    \<and> fst (close t p) = Some (if us = [] then hd vs else last us)
    \<and> (q \<notin> set (all_leaves t) \<longrightarrow> close t q = (None, t))
    \<and> close (Leaf p) p = (None, Leaf p)"
proof -
  have p: "p \<notin> set us" "p \<notin> set vs" using assms by auto
  have len: "length (all_leaves t) \<noteq> 1" using assms by auto
  have rem: "all_leaves (snd (remove_leaf t p)) = us @ vs"
  proof -
    have "filter (\<lambda>i. i \<noteq> p) us = us" "filter (\<lambda>i. i \<noteq> p) vs = vs"
      using p by (auto simp: filter_id_conv)
    moreover have "\<not> fst (remove_leaf t p)" using len by (auto simp: remove_leaf_gone)
    ultimately show ?thesis using remove_leaf_leaves(1) [of t p] assms(1) by simp
  qed
  have pos: "position (\<lambda>i. i = p) (all_leaves t) = Some (length us)"
    using assms(1) p position_append by simp
  have "close t p = (Some (if us = [] then hd vs else last us), snd (remove_leaf t p))"
    using pos len rem assms
    by (cases us rule: rev_cases) (auto simp: close_def Let_def nth_append hd_conv_nth)
  then show ?thesis using rem close_unchanged [of q t] close_unchanged [of p "Leaf p"] by simp
qed

theorem close_picks_predecessor_witness:
  "close demo_layout (PaneId 3) = (Some (PaneId 2), VSplit [(Leaf (PaneId 1), 50), (Leaf (PaneId 2), 50)])
   \<and> fst (close demo_layout (PaneId 1)) = Some (PaneId 2)"
proof -
  have l: "all_leaves demo_layout = [PaneId 1, PaneId 2, PaneId 3]"
    by (simp add: demo_layout_def split_focused_def)
  have "fst (close demo_layout (PaneId 1)) = Some (PaneId 2)"
    using close_picks_predecessor [of demo_layout "[]" "PaneId 1" "[PaneId 2, PaneId 3]"] l by simp
  moreover have "close demo_layout (PaneId 3) = (Some (PaneId 2), VSplit [(Leaf (PaneId 1), 50), (Leaf (PaneId 2), 50)])"
    by (simp add: demo_layout_def split_focused_def close_def position_def)
  ultimately show ?thesis by simp
qed

section \<open>What set_weight changes\<close>

text \<open>
  C24. Resizing in a split of any arity whose weights sum to 100 and are at least 5: the
  resized split satisfies the same invariant again, in spite of truncating divisions and
  clamps, and the target child receives exactly the requested weight clamped to 5..95
  whenever it shrinks or has a single sibling.
\<close>

theorem set_weights_sum_100:
  assumes "wf_weights ws" "idx < length ws"
  shows "wf_weights (set_weights idx nw ws)
    \<and> length (set_weights idx nw ws) = length ws
    \<and> (uint nw \<le> uint (ws ! idx) \<or> length ws = 2 \<longrightarrow>
         uint (set_weights idx nw ws ! idx) = clamp_int 5 95 (uint nw))"
  using set_weights_wf [OF assms] .

theorem set_weights_sum_100_witness:
  "wf_weights (set_weights 0 95 [34, 33, 33]) \<and> uint (set_weights 1 2 [34, 33, 33] ! 1) = 5"
proof -
  have wf: "wf_weights [34, 33, 33 :: u16]" by (simp add: wf_weights_def)
  show ?thesis
    using set_weights_sum_100 [OF wf, of 0 95] set_weights_sum_100 [OF wf, of 1 2]
    by (simp add: clamp_int_def)
qed

fun children :: "layout_node \<Rightarrow> (layout_node \<times> u16) list" where
  "children (Leaf i) = []"
| "children (HSplit cs) = cs"
| "children (VSplit cs) = cs"

lemma length_set_weights: "length (set_weights idx nw ws) = length ws"
  by (auto simp: set_weights_def Let_def case_prod_unfold rebalance_list split: option.splits)

lemma set_weight_root:
  assumes "K = HSplit \<or> K = VSplit"
  shows "map fst (children (set_weight (K cs) p w)) = map fst cs"
proof (cases "position (\<lambda>c. p \<in> set (all_leaves (fst c))) cs")
  case None
  then have "p \<notin> set (all_leaves (K cs))" using assms by (auto simp: position_None)
  then have "set_weight (K cs) p w = K cs" by (simp add: set_weight_def set_weight_absent)
  then show ?thesis using assms by auto
next
  case (Some idx)
  then have "set_weight (K cs) p w = K (put_weights cs (set_weights idx w (map snd cs)))"
    using assms by (auto simp: set_weight_def)
  then show ?thesis using assms put_weights_fst [OF trans [OF length_set_weights length_map]] by auto
qed

text \<open>
  \<open>set_weight\<close> only ever changes the weights of the outermost split: whatever pane is
  named, every sub-tree of the root is returned unchanged, and the branch of the code that
  recurses into a child never changes anything. So a pane inside a nested split cannot be
  resized against its own siblings.
\<close>

theorem set_weight_changes_root_only:
  "map fst (children (set_weight t p w)) = map fst (children t)
   \<and> (position (\<lambda>c. p \<in> set (all_leaves (fst c))) cs = None \<longrightarrow> set_weight_children cs p w = (False, cs))"
proof
  show "map fst (children (set_weight t p w)) = map fst (children t)"
    using set_weight_root [of HSplit] set_weight_root [of VSplit]
    by (cases t) (auto simp: set_weight_def [of "Leaf _"])
  show "position (\<lambda>c. p \<in> set (all_leaves (fst c))) cs = None \<longrightarrow> set_weight_children cs p w = (False, cs)"
    using set_weight_absent(2) by (auto simp: position_None)
qed

theorem set_weight_changes_root_only_witness:
  "map fst (children (set_weight demo_layout (PaneId 3) 80)) = map fst (children demo_layout)
   \<and> set_weight_children [(Leaf (PaneId 1), 50)] (PaneId 2) 30 = (False, [(Leaf (PaneId 1), 50)])"
  using set_weight_changes_root_only [of demo_layout "PaneId 3" 80 "[]"]
    set_weight_changes_root_only [of demo_layout "PaneId 2" 30 "[(Leaf (PaneId 1), 50)]"]
  by (auto simp: position_None)

text \<open>
  Closing a pane of a three-way split does not renormalise the weights of the remaining
  siblings: a tree that satisfies the documented invariant (weights sum to 100) is turned
  into one that does not. Only the two-way splits the daemon builds are safe.
\<close>

theorem close_three_way_loses_weight:
  "wf_layout (HSplit [(Leaf (PaneId 1), 34), (Leaf (PaneId 2), 33), (Leaf (PaneId 3), 33)])
   \<and> snd (close (HSplit [(Leaf (PaneId 1), 34), (Leaf (PaneId 2), 33), (Leaf (PaneId 3), 33)]) (PaneId 2))
       = HSplit [(Leaf (PaneId 1), 34), (Leaf (PaneId 3), 33)]
   \<and> \<not> wf_layout (HSplit [(Leaf (PaneId 1), 34), (Leaf (PaneId 3), 33)])"
  by (simp add: wf_weights_def close_def position_def)

end
