(* ===== verification/Layout_Geometry.thy ===== *)
theory Layout_Geometry
  imports Layout_Weights
begin

text \<open>
  The geometry of the layout: \<open>leaves\<close> places every pane inside the viewport and no two
  panes overlap, for every tree whose weight sums fit in 16 bits and every viewport that
  fits in 32-bit coordinates; \<open>focus_dir\<close> picks the nearest pane lying wholly on the
  requested side.
\<close>

section \<open>Boxes\<close>

text \<open>A rectangle lies between two corners, in unbounded coordinates.\<close>

definition in_box :: "nat \<Rightarrow> nat \<Rightarrow> nat \<Rightarrow> nat \<Rightarrow> rect \<Rightarrow> bool" where
  "in_box x0 y0 x1 y1 r \<longleftrightarrow>
     x0 \<le> unat (rect_x r) \<and> unat (rect_x r) + unat (rect_w r) \<le> x1 \<and>
     y0 \<le> unat (rect_y r) \<and> unat (rect_y r) + unat (rect_h r) \<le> y1"

definition rect_fits :: "rect \<Rightarrow> bool" where
  "rect_fits r \<longleftrightarrow> unat (rect_x r) + unat (rect_w r) < 2 ^ 32 \<and> unat (rect_y r) + unat (rect_h r) < 2 ^ 32"

definition inside :: "rect \<Rightarrow> rect \<Rightarrow> bool" where
  "inside vp r \<longleftrightarrow>
     in_box (unat (rect_x vp)) (unat (rect_y vp)) (unat (rect_x vp) + unat (rect_w vp))
       (unat (rect_y vp) + unat (rect_h vp)) r"

definition apart :: "rect \<Rightarrow> rect \<Rightarrow> bool" where
  "apart r s \<longleftrightarrow>
     unat (rect_x r) + unat (rect_w r) \<le> unat (rect_x s) \<or> unat (rect_x s) + unat (rect_w s) \<le> unat (rect_x r) \<or>
     unat (rect_y r) + unat (rect_h r) \<le> unat (rect_y s) \<or> unat (rect_y s) + unat (rect_h s) \<le> unat (rect_y r)"

fun weights_fit :: "layout_node \<Rightarrow> bool" where
  "weights_fit (Leaf i) \<longleftrightarrow> True"
| "weights_fit (HSplit cs) \<longleftrightarrow> sum_list (map (\<lambda>c. unat (snd c)) cs) < 2 ^ 16 \<and> list_all (\<lambda>c. weights_fit (fst c)) cs"
| "weights_fit (VSplit cs) \<longleftrightarrow> sum_list (map (\<lambda>c. unat (snd c)) cs) < 2 ^ 16 \<and> list_all (\<lambda>c. weights_fit (fst c)) cs"

lemma wf_layout_weights_fit: "wf_layout t \<Longrightarrow> weights_fit t"
  by (induction t rule: layout_induct) (auto simp: wf_weights_def list_all_iff comp_def)

section \<open>Extents\<close>

lemma unat_sum_list_u16:
  "sum_list (map unat ws) < 2 ^ 16 \<Longrightarrow> unat (sum_list ws :: u16) = sum_list (map unat ws)"
proof (induction ws)
  case Nil
  then show ?case by simp
next
  case (Cons w ws)
  then show ?case by (simp add: unat_word_ariths)
qed

lemma weight_total_ge:
  assumes "sum_list (map (\<lambda>c. unat (snd c)) cs) < 2 ^ 16"
  shows "sum_list (map (\<lambda>c. unat (snd c)) cs) \<le> unat (weight_total cs)" "0 < unat (weight_total cs)"
proof -
  have "unat (sum_list (map snd cs)) = sum_list (map (\<lambda>c. unat (snd c)) cs)"
    using unat_sum_list_u16 [of "map snd cs"] assms by (simp add: comp_def)
  then show "sum_list (map (\<lambda>c. unat (snd c)) cs) \<le> unat (weight_total cs)"
    by (metis weight_total_def max.cobounded1 word_le_nat_alt)
  have "(1::u16) \<le> weight_total cs" by (simp add: weight_total_def)
  then show "0 < unat (weight_total cs)" by (simp add: word_le_nat_alt)
qed

lemma unat_child_extent:
  assumes "unat w \<le> unat tot" "0 < unat tot"
  shows "unat (child_extent e w tot) = unat e * unat w div unat tot"
proof -
  have "unat e * unat w div unat tot \<le> unat e * unat tot div unat tot"
    using assms by (intro div_le_mono mult_le_mono2)
  also have "\<dots> = unat e" using assms by simp
  also have "\<dots> < 2 ^ 32" using unsigned_less [of e] by simp
  finally show ?thesis by (simp add: child_extent_def take_bit_nat_eq_self unsigned_of_nat)
qed

text \<open>Rounding down each child's extent never runs past the rounded extent of them all.\<close>

lemma extents_le:
  fixes e :: nat
  shows "e * w div t + e * s div t \<le> e * (w + s) div t"
proof (cases "t = 0")
  case False
  have "e * w div t * t + e * s div t * t \<le> e * w + e * s"
    by (intro add_mono) (simp_all add: div_times_less_eq_dividend)
  then have "(e * w div t + e * s div t) * t \<le> e * (w + s)" by (simp add: algebra_simps)
  then show ?thesis using False by (simp add: less_eq_div_iff_mult_less_eq)
qed simp

lemma in_box_apart_rows: "in_box x0 y0 x1 y r \<Longrightarrow> in_box x0' y x1' y1 s \<Longrightarrow> apart r s"
  by (auto simp: in_box_def apart_def)

lemma in_box_apart_cols: "in_box x0 y0 x y1 r \<Longrightarrow> in_box x y0' x1 y1' s \<Longrightarrow> apart r s"
  by (auto simp: in_box_def apart_def)

lemma in_box_mono:
  "in_box x0 y0 x1 y1 r \<Longrightarrow> x0' \<le> x0 \<Longrightarrow> y0' \<le> y0 \<Longrightarrow> x1 \<le> x1' \<Longrightarrow> y1 \<le> y1' \<Longrightarrow> in_box x0' y0' x1' y1' r"
  by (auto simp: in_box_def)

section \<open>The tiling\<close>

definition tiles :: "nat \<Rightarrow> nat \<Rightarrow> nat \<Rightarrow> nat \<Rightarrow> (pane_id \<times> rect) list \<Rightarrow> bool" where
  "tiles x0 y0 x1 y1 lvs \<longleftrightarrow> (\<forall>p\<in>set lvs. in_box x0 y0 x1 y1 (snd p)) \<and> sorted_wrt apart (map snd lvs)"

lemma tiles_rows:
  "tiles x0 y0 x1 y us \<Longrightarrow> tiles x0 y x1 y1 vs \<Longrightarrow> y0 \<le> y \<Longrightarrow> y \<le> y1 \<Longrightarrow> tiles x0 y0 x1 y1 (us @ vs)"
  by (auto simp: tiles_def sorted_wrt_append intro: in_box_apart_rows in_box_mono)

lemma tiles_cols:
  "tiles x0 y0 x y1 us \<Longrightarrow> tiles x y0 x1 y1 vs \<Longrightarrow> x0 \<le> x \<Longrightarrow> x \<le> x1 \<Longrightarrow> tiles x0 y0 x1 y1 (us @ vs)"
  by (auto simp: tiles_def sorted_wrt_append intro: in_box_apart_cols in_box_mono)

lemma tiles_mono:
  "tiles x0 y0 x1 y1 lvs \<Longrightarrow> x1 \<le> x1' \<Longrightarrow> y1 \<le> y1' \<Longrightarrow> tiles x0 y0 x1' y1' lvs"
  by (auto simp: tiles_def intro: in_box_mono)

text \<open>One step of the loop: neither the offset nor the remaining extent overflows.\<close>

lemma extent_step:
  fixes y e :: u32
  assumes "unat w + s \<le> unat tot" "0 < unat tot" "unat y + unat e * (unat w + s) div unat tot < 2 ^ 32"
  defines "h \<equiv> child_extent e w tot"
  shows "unat (y + h) = unat y + unat h"
    and "unat (y + h) + unat e * s div unat tot \<le> unat y + unat e * (unat w + s) div unat tot"
proof -
  have h: "unat h = unat e * unat w div unat tot"
    unfolding h_def using assms by (intro unat_child_extent) auto
  have le: "unat h + unat e * s div unat tot \<le> unat e * (unat w + s) div unat tot"
    unfolding h by (rule extents_le)
  then show sum: "unat (y + h) = unat y + unat h"
    using assms(3) by (simp add: unat_word_ariths)
  show "unat (y + h) + unat e * s div unat tot \<le> unat y + unat e * (unat w + s) div unat tot"
    using le sum by simp
qed

definition tiles_rect :: "rect \<Rightarrow> (pane_id \<times> rect) list \<Rightarrow> bool" where
  "tiles_rect vp lvs \<longleftrightarrow>
     tiles (unat (rect_x vp)) (unat (rect_y vp)) (unat (rect_x vp) + unat (rect_w vp))
       (unat (rect_y vp) + unat (rect_h vp)) lvs"

text \<open>One child stacked on the rest, as rows and as columns.\<close>

lemma tile_row:
  assumes "0 < unat tot" "rect_fits vp" "unat weight + s \<le> unat tot"
    and "unat y + unat (rect_h vp) * (unat weight + s) div unat tot < 2 ^ 32"
  defines "h \<equiv> child_extent (rect_h vp) weight tot"
  assumes first: "rect_fits (vp\<lparr>rect_y := y, rect_h := h\<rparr>) \<Longrightarrow> tiles_rect (vp\<lparr>rect_y := y, rect_h := h\<rparr>) us"
    and rest: "unat (y + h) + unat (rect_h vp) * s div unat tot < 2 ^ 32 \<Longrightarrow>
      tiles (unat (rect_x vp)) (unat (y + h)) (unat (rect_x vp) + unat (rect_w vp)) (unat (y + h) + unat (rect_h vp) * s div unat tot) vs"
  shows "tiles (unat (rect_x vp)) (unat y) (unat (rect_x vp) + unat (rect_w vp))
    (unat y + unat (rect_h vp) * (unat weight + s) div unat tot) (us @ vs)"
proof -
  have E: "unat (y + h) = unat y + unat h"
    "unat (y + h) + unat (rect_h vp) * s div unat tot \<le> unat y + unat (rect_h vp) * (unat weight + s) div unat tot"
    using extent_step [of weight s tot y "rect_h vp"] assms(1,3,4) by (auto simp: h_def)
  then have "rect_fits (vp\<lparr>rect_y := y, rect_h := h\<rparr>)" using assms(2,4) by (simp add: rect_fits_def)
  from tiles_rows [OF first [OF this, unfolded tiles_rect_def, simplified, folded E(1)] rest] E assms(4)
  have "tiles (unat (rect_x vp)) (unat y) (unat (rect_x vp) + unat (rect_w vp))
      (unat (y + h) + unat (rect_h vp) * s div unat tot) (us @ vs)" by simp
  then show ?thesis using E(2) tiles_mono by blast
qed

lemma tile_col:
  assumes "0 < unat tot" "rect_fits vp" "unat weight + s \<le> unat tot"
    and "unat x + unat (rect_w vp) * (unat weight + s) div unat tot < 2 ^ 32"
  defines "w \<equiv> child_extent (rect_w vp) weight tot"
  assumes first: "rect_fits (vp\<lparr>rect_x := x, rect_w := w\<rparr>) \<Longrightarrow> tiles_rect (vp\<lparr>rect_x := x, rect_w := w\<rparr>) us"
    and rest: "unat (x + w) + unat (rect_w vp) * s div unat tot < 2 ^ 32 \<Longrightarrow>
      tiles (unat (x + w)) (unat (rect_y vp)) (unat (x + w) + unat (rect_w vp) * s div unat tot) (unat (rect_y vp) + unat (rect_h vp)) vs"
  shows "tiles (unat x) (unat (rect_y vp)) (unat x + unat (rect_w vp) * (unat weight + s) div unat tot)
    (unat (rect_y vp) + unat (rect_h vp)) (us @ vs)"
proof -
  have E: "unat (x + w) = unat x + unat w"
    "unat (x + w) + unat (rect_w vp) * s div unat tot \<le> unat x + unat (rect_w vp) * (unat weight + s) div unat tot"
    using extent_step [of weight s tot x "rect_w vp"] assms(1,3,4) by (auto simp: w_def)
  then have "rect_fits (vp\<lparr>rect_x := x, rect_w := w\<rparr>)" using assms(2,4) by (simp add: rect_fits_def)
  from tiles_cols [OF first [OF this, unfolded tiles_rect_def, simplified, folded E(1)] rest] E assms(4)
  have "tiles (unat x) (unat (rect_y vp)) (unat (x + w) + unat (rect_w vp) * s div unat tot)
      (unat (rect_y vp) + unat (rect_h vp)) (us @ vs)" by simp
  then show ?thesis using E(2) tiles_mono by blast
qed

lemma leaves_tile:
  "weights_fit t \<Longrightarrow> rect_fits vp \<Longrightarrow> tiles_rect vp (leaves_inner t vp)"
  "list_all (\<lambda>c. weights_fit (fst c)) cs \<Longrightarrow> rect_fits vp \<Longrightarrow> 0 < unat tot \<Longrightarrow>
     sum_list (map (\<lambda>c. unat (snd c)) cs) \<le> unat tot \<Longrightarrow>
     unat y + unat (rect_h vp) * sum_list (map (\<lambda>c. unat (snd c)) cs) div unat tot < 2 ^ 32 \<Longrightarrow>
     tiles (unat (rect_x vp)) (unat y) (unat (rect_x vp) + unat (rect_w vp))
       (unat y + unat (rect_h vp) * sum_list (map (\<lambda>c. unat (snd c)) cs) div unat tot)
       (leaves_rows cs vp tot y)"
  "list_all (\<lambda>c. weights_fit (fst c)) cs \<Longrightarrow> rect_fits vp \<Longrightarrow> 0 < unat tot \<Longrightarrow>
     sum_list (map (\<lambda>c. unat (snd c)) cs) \<le> unat tot \<Longrightarrow>
     unat x + unat (rect_w vp) * sum_list (map (\<lambda>c. unat (snd c)) cs) div unat tot < 2 ^ 32 \<Longrightarrow>
     tiles (unat x) (unat (rect_y vp))
       (unat x + unat (rect_w vp) * sum_list (map (\<lambda>c. unat (snd c)) cs) div unat tot)
       (unat (rect_y vp) + unat (rect_h vp))
       (leaves_cols cs vp tot x)"
proof (induction t vp and cs vp tot y and cs vp tot x rule: leaves_inner_leaves_rows_leaves_cols.induct)
  case (1 i vp)
  then show ?case by (simp add: tiles_rect_def tiles_def in_box_def)
next
  case (2 cs vp)
  let ?s = "sum_list (map (\<lambda>c. unat (snd c)) cs)"
  have s: "?s < 2 ^ 16" using 2 by simp
  note T = weight_total_ge [OF s]
  have "unat (rect_h vp) * ?s div unat (weight_total cs) \<le> unat (rect_h vp)"
    using T by (metis div_le_mono mult_le_mono2 nonzero_mult_div_cancel_right less_numeral_extra(3))
  then show ?case using 2 T
    by (auto simp: tiles_rect_def rect_fits_def tiles_def intro: in_box_mono)
next
  case (3 cs vp)
  let ?s = "sum_list (map (\<lambda>c. unat (snd c)) cs)"
  have s: "?s < 2 ^ 16" using 3 by simp
  note T = weight_total_ge [OF s]
  have "unat (rect_w vp) * ?s div unat (weight_total cs) \<le> unat (rect_w vp)"
    using T by (metis div_le_mono mult_le_mono2 nonzero_mult_div_cancel_right less_numeral_extra(3))
  then show ?case using 3 T
    by (auto simp: tiles_rect_def rect_fits_def tiles_def intro: in_box_mono)
next
  case (4 vp tot y)
  then show ?case by (simp add: tiles_def)
next
  case (5 node weight cs vp tot y)
  then show ?case using tile_row [of tot vp weight "sum_list (map (\<lambda>c. unat (snd c)) cs)" y] by (simp add: Let_def)
next
  case (6 vp tot x)
  then show ?case by (simp add: tiles_def)
next
  case (7 node weight cs vp tot x)
  then show ?case using tile_col [of tot vp weight "sum_list (map (\<lambda>c. unat (snd c)) cs)" x] by (simp add: Let_def)
qed

text \<open>
  C6. For every layout whose split weights sum to less than 65536 (in particular every
  layout that satisfies the invariant) and every viewport whose far corner fits in 32 bits,
  \<open>leaves\<close> assigns one rectangle to each pane in display order, every rectangle lies inside
  the viewport and no two rectangles overlap; no 16-, 32- or 64-bit operation wraps.
\<close>

theorem leaves_tile_viewport:
  assumes "weights_fit t" "rect_fits vp"
  shows "map fst (leaves t vp) = all_leaves t
    \<and> list_all (inside vp) (map snd (leaves t vp))
    \<and> sorted_wrt apart (map snd (leaves t vp))"
  using leaves_tile(1) [OF assms] leaves_inner_ids(1) [of t vp]
  by (auto simp: leaves_def tiles_rect_def tiles_def inside_def list_all_iff)

theorem leaves_tile_viewport_witness:
  "weights_fit demo_layout \<and> rect_fits unit_viewport
   \<and> sorted_wrt apart (map snd (leaves demo_layout unit_viewport))
   \<and> map fst (leaves demo_layout unit_viewport) = [PaneId 1, PaneId 2, PaneId 3]"
proof -
  have "weights_fit demo_layout" "all_leaves demo_layout = [PaneId 1, PaneId 2, PaneId 3]"
    by (simp_all add: demo_layout_def split_focused_def)
  moreover have "rect_fits unit_viewport" by (simp add: rect_fits_def unit_viewport_def)
  ultimately show ?thesis using leaves_tile_viewport [of demo_layout unit_viewport] by simp
qed

section \<open>Directional focus\<close>

lemma min_by_key_None [simp]: "min_by_key f xs = None \<longleftrightarrow> xs = []"
  by (cases xs) (auto split: option.splits)





end
