(* ===== verification/Utf8.thy ===== *)
theory Utf8
  imports Pyre_Prelude
begin

text \<open>
  What the daemon uses of Rust's strings: UTF-8 encoding of a scalar value
  (\<open>char::encode_utf8\<close>), validation and lossy decoding (\<open>String::from_utf8\<close>,
  \<open>String::from_utf8_lossy\<close>, which replaces each maximal invalid prefix by U+FFFD),
  trimming of Unicode white space and the parsing of 32-bit integers. A Rust string is the
  list of its UTF-8 bytes.
\<close>

section \<open>Encoding\<close>

type_synonym scalar = nat

definition is_scalar :: "scalar \<Rightarrow> bool" where
  "is_scalar c \<longleftrightarrow> c < 0xD800 \<or> (0xE000 \<le> c \<and> c < 0x110000)"

definition utf8_codes :: "scalar \<Rightarrow> nat list" where
  "utf8_codes c =
     (if c < 0x80 then [c]
      else if c < 0x800 then [0xC0 + c div 64, 0x80 + c mod 64]
      else if c < 0x10000 then [0xE0 + c div 4096, 0x80 + c div 64 mod 64, 0x80 + c mod 64]
      else [0xF0 + c div 262144, 0x80 + c div 4096 mod 64, 0x80 + c div 64 mod 64, 0x80 + c mod 64])"

definition encode_utf8 :: "scalar \<Rightarrow> bytes" where
  "encode_utf8 c = map char_of (utf8_codes c)"

section \<open>Decoding\<close>

text \<open>
  One step of the decoder: the lead byte and the rest give the decoded scalar (or nothing)
  and the number of further bytes consumed. A byte past the end reads as 0.
\<close>

definition byte_at :: "nat list \<Rightarrow> nat \<Rightarrow> nat" where
  "byte_at bs i = (if i < length bs then bs ! i else 0)"

definition cont :: "nat \<Rightarrow> bool" where
  "cont b \<longleftrightarrow> 0x80 \<le> b \<and> b < 0xC0"

definition second3 :: "nat \<Rightarrow> nat \<Rightarrow> bool" where
  "second3 b0 b1 \<longleftrightarrow> cont b1 \<and> (b0 = 0xE0 \<longrightarrow> 0xA0 \<le> b1) \<and> (b0 = 0xED \<longrightarrow> b1 \<le> 0x9F)"

definition second4 :: "nat \<Rightarrow> nat \<Rightarrow> bool" where
  "second4 b0 b1 \<longleftrightarrow> cont b1 \<and> (b0 = 0xF0 \<longrightarrow> 0x90 \<le> b1) \<and> (b0 = 0xF4 \<longrightarrow> b1 \<le> 0x8F)"

definition utf8_step :: "nat \<Rightarrow> nat list \<Rightarrow> scalar option \<times> nat" where
  "utf8_step b0 rest =
     (let b1 = byte_at rest 0; b2 = byte_at rest 1; b3 = byte_at rest 2
      in if b0 < 0x80 then (Some b0, 0)
         else if 0xC2 \<le> b0 \<and> b0 \<le> 0xDF then
           (if cont b1 then (Some ((b0 - 0xC0) * 64 + (b1 - 0x80)), 1) else (None, 0))
         else if 0xE0 \<le> b0 \<and> b0 \<le> 0xEF then
           (if second3 b0 b1 then
              (if cont b2 then (Some ((b0 - 0xE0) * 4096 + (b1 - 0x80) * 64 + (b2 - 0x80)), 2)
               else (None, 1))
            else (None, 0))
         else if 0xF0 \<le> b0 \<and> b0 \<le> 0xF4 then
           (if second4 b0 b1 then
              (if cont b2 then
                 (if cont b3
                  then (Some ((b0 - 0xF0) * 262144 + (b1 - 0x80) * 4096 + (b2 - 0x80) * 64 + (b3 - 0x80)), 3)
                  else (None, 2))
               else (None, 1))
            else (None, 0))
         else (None, 0))"

fun decode_codes :: "nat list \<Rightarrow> scalar option list" where
  "decode_codes [] = []"
| "decode_codes (b0 # rest) =
     (let r = utf8_step b0 rest in fst r # decode_codes (drop (snd r) rest))"

definition decode_utf8 :: "bytes \<Rightarrow> scalar option list" where
  "decode_utf8 bs = decode_codes (map of_char bs)"

definition from_utf8 :: "bytes \<Rightarrow> bytes option" where
  "from_utf8 bs = (if None \<in> set (decode_utf8 bs) then None else Some bs)"

definition replacement :: scalar where
  "replacement = 0xFFFD"

definition lossy_scalars :: "bytes \<Rightarrow> scalar list" where
  "lossy_scalars bs = map (\<lambda>c. case c of None \<Rightarrow> replacement | Some c \<Rightarrow> c) (decode_utf8 bs)"

definition encode_string :: "scalar list \<Rightarrow> bytes" where
  "encode_string cs = concat (map encode_utf8 cs)"

definition from_utf8_lossy :: "bytes \<Rightarrow> bytes" where
  "from_utf8_lossy bs = encode_string (lossy_scalars bs)"

section \<open>Trimming and integers\<close>

definition is_whitespace :: "scalar \<Rightarrow> bool" where
  "is_whitespace c \<longleftrightarrow>
     (9 \<le> c \<and> c \<le> 13) \<or> c = 32 \<or> c = 0x85 \<or> c = 0xA0 \<or> c = 0x1680 \<or> (0x2000 \<le> c \<and> c \<le> 0x200A)
     \<or> c = 0x2028 \<or> c = 0x2029 \<or> c = 0x202F \<or> c = 0x205F \<or> c = 0x3000"

definition trim_end_scalars :: "scalar list \<Rightarrow> scalar list" where
  "trim_end_scalars cs = rev (dropWhile is_whitespace (rev cs))"

definition str_trim_end :: "bytes \<Rightarrow> bytes" where
  "str_trim_end s = encode_string (trim_end_scalars (lossy_scalars s))"

definition str_trim :: "bytes \<Rightarrow> bytes" where
  "str_trim s = encode_string (trim_end_scalars (dropWhile is_whitespace (lossy_scalars s)))"

definition digit_val :: "byte \<Rightarrow> nat option" where
  "digit_val b = (let n = of_char b in if 48 \<le> n \<and> n \<le> (57::nat) then Some (n - 48) else None)"

fun parse_digits :: "nat \<Rightarrow> bytes \<Rightarrow> nat option" where
  "parse_digits acc [] = Some acc"
| "parse_digits acc (b # bs) =
     (case digit_val b of None \<Rightarrow> None | Some d \<Rightarrow> parse_digits (10 * acc + d) bs)"

text \<open>
  \<open>str::parse::<i32>\<close>: an optional sign, then at least one digit and nothing else, and a
  value in range.
\<close>

definition parse_i32 :: "bytes \<Rightarrow> int option" where
  "parse_i32 s =
     (let neg = (s \<noteq> [] \<and> hd s = CHR ''-'');
          ds = (if s \<noteq> [] \<and> (hd s = CHR ''-'' \<or> hd s = CHR ''+'') then tl s else s)
      in if ds = [] then None
         else
           (case parse_digits 0 ds of
              None \<Rightarrow> None
            | Some n \<Rightarrow>
                (let v = (if neg then - int n else int n)
                 in if - 2147483648 \<le> v \<and> v < 2147483648 then Some v else None)))"

section \<open>Round trip\<close>

lemma utf8_codes_byte: "is_scalar c \<Longrightarrow> list_all (\<lambda>b. b < 256) (utf8_codes c)"
  by (auto simp: utf8_codes_def is_scalar_def)

lemma codes_of_encode: "is_scalar c \<Longrightarrow> map of_char (encode_utf8 c) = utf8_codes c"
  using utf8_codes_byte [of c] by (auto simp: encode_utf8_def list_all_iff intro!: map_idI)

lemma step_two:
  assumes "0x80 \<le> c" "c < (0x800::nat)"
  shows "utf8_step (0xC0 + c div 64) ([0x80 + c mod 64] @ tail) = (Some c, 1)"
proof -
  have "2 \<le> c div 64" "c div 64 \<le> 31" using assms by auto
  then show ?thesis by (simp add: utf8_step_def byte_at_def cont_def)
qed

lemma three_digits: "(c::nat) div 4096 * 4096 + c div 64 mod 64 * 64 + c mod 64 = c"
proof -
  have "c div 64 = c div 4096 * 64 + c div 64 mod 64"
    using div_mult_mod_eq [of "c div 64" 64] by (simp add: div_mult2_eq [symmetric])
  moreover have "c = c div 64 * 64 + c mod 64" by simp
  ultimately show ?thesis by linarith
qed

lemma four_digits: "(c::nat) div 262144 * 262144 + c div 4096 mod 64 * 4096 + c div 64 mod 64 * 64 + c mod 64 = c"
proof -
  have "c div 4096 = c div 262144 * 64 + c div 4096 mod 64"
    using div_mult_mod_eq [of "c div 4096" 64] by (simp add: div_mult2_eq [symmetric])
  then show ?thesis using three_digits [of c] by linarith
qed

lemma step_three:
  assumes "0x800 \<le> c" "c < (0x10000::nat)" "is_scalar c"
  shows "utf8_step (0xE0 + c div 4096) ([0x80 + c div 64 mod 64, 0x80 + c mod 64] @ tail) = (Some c, 2)"
proof -
  have "c div 4096 \<le> 15" using assms by auto
  moreover have d: "c mod 64 < 64" "c div 64 mod 64 < 64" by auto
  moreover have "c div 4096 = 0 \<longrightarrow> 32 \<le> c div 64 mod 64"
    using assms(1) three_digits [of c] d by linarith
  moreover have "c div 4096 = 13 \<longrightarrow> c div 64 mod 64 \<le> 31"
    using assms(3) three_digits [of c] d unfolding is_scalar_def by linarith
  ultimately show ?thesis using three_digits [of c]
    by (simp add: utf8_step_def byte_at_def cont_def second3_def)
qed

lemma step_four:
  assumes "0x10000 \<le> c" "is_scalar c"
  shows "utf8_step (0xF0 + c div 262144) ([0x80 + c div 4096 mod 64, 0x80 + c div 64 mod 64, 0x80 + c mod 64] @ tail)
    = (Some c, 3)"
proof -
  have "c div 262144 \<le> 4" using assms by (auto simp: is_scalar_def)
  moreover have d: "c mod 64 < 64" "c div 64 mod 64 < 64" "c div 4096 mod 64 < 64" by auto
  moreover have "c div 262144 = 0 \<longrightarrow> 16 \<le> c div 4096 mod 64"
    using assms(1) four_digits [of c] d by linarith
  moreover have "c div 262144 = 4 \<longrightarrow> c div 4096 mod 64 \<le> 15"
    using assms(2) four_digits [of c] d unfolding is_scalar_def by linarith
  ultimately show ?thesis using four_digits [of c]
    by (simp add: utf8_step_def byte_at_def cont_def second4_def)
qed

lemma decode_one: "is_scalar c \<Longrightarrow> decode_codes (utf8_codes c @ tail) = Some c # decode_codes tail"
  using step_two [of c tail] step_three [of c tail] step_four [of c tail]
  by (auto simp: utf8_codes_def utf8_step_def [of c])

lemma decode_encode:
  "list_all is_scalar cs \<Longrightarrow> decode_codes (concat (map utf8_codes cs) @ tail) = map Some cs @ decode_codes tail"
  by (induction cs) (auto simp: decode_one)

lemma codes_of_string: "list_all is_scalar cs \<Longrightarrow> map of_char (encode_string cs) = concat (map utf8_codes cs)"
  by (induction cs) (auto simp: encode_string_def codes_of_encode)

lemma decode_string: "list_all is_scalar cs \<Longrightarrow> decode_utf8 (encode_string cs) = map Some cs"
  using decode_encode [of cs "[]"] by (simp add: decode_utf8_def codes_of_string)

lemma lossy_string [simp]: "list_all is_scalar cs \<Longrightarrow> lossy_scalars (encode_string cs) = cs"
  by (simp add: lossy_scalars_def decode_string comp_def)

text \<open>
  For every list of Unicode scalar values the encoded bytes pass validation, decode to the
  same list, and lossy decoding leaves them unchanged.
\<close>

lemma utf8_round_trip:
  assumes "list_all is_scalar cs"
  shows "decode_utf8 (encode_string cs) = map Some cs
    \<and> from_utf8 (encode_string cs) = Some (encode_string cs)
    \<and> from_utf8_lossy (encode_string cs) = encode_string cs"
  using decode_string [OF assms] assms by (simp add: from_utf8_def from_utf8_lossy_def)

lemma encode_string_append [simp]: "encode_string (cs @ ds) = encode_string cs @ encode_string ds"
  by (simp add: encode_string_def)

lemma encode_string_simps [simp]:
  "encode_string [] = []" "encode_string (c # cs) = encode_utf8 c @ encode_string cs"
  by (simp_all add: encode_string_def)

end
