(* ===== verification/Block_Parser.thy ===== *)
theory Block_Parser
  imports Pyre_Proto Utf8
begin

text \<open>
  \<^verbatim>\<open>crates/pyred/src/parser.rs\<close>: the machine that turns OSC 133 shell-integration markers
  into block events. The escape-sequence parser it is driven by (the \<open>vte\<close> crate) is not
  part of the repository: the model takes it as the parameter \<open>advance\<close>, which maps its own
  state and a chunk of bytes to its new state and the callbacks it makes. Fresh block
  identifiers come from the parameter \<open>fresh\<close>; the field \<open>m_drawn\<close> counts how many have
  been drawn.
\<close>

section \<open>Model\<close>

datatype vte_action =
    Print scalar
  | Execute byte
  | OscDispatch "bytes list"
  | OtherAction

record block_machine =
  m_session :: session_id
  m_current :: "block_id option"
  m_cmd_buf :: bytes
  m_capturing :: bool
  m_out_buf :: bytes
  m_pending :: "block_event list"
  m_drawn :: nat

definition output_flush_bytes :: nat where
  "output_flush_bytes = 4096"

definition machine_new :: "session_id \<Rightarrow> block_machine" where
  "machine_new s =
     \<lparr>m_session = s, m_current = None, m_cmd_buf = [], m_capturing = False, m_out_buf = [],
      m_pending = [], m_drawn = 0\<rparr>"

definition flush_output :: "block_machine \<Rightarrow> block_machine" where
  "flush_output m =
     (case m_current m of
        None \<Rightarrow> m
      | Some block \<Rightarrow>
          if m_out_buf m \<noteq> []
          then m\<lparr>m_out_buf := [], m_pending := m_pending m @ [OutputChunk block (m_out_buf m)]\<rparr>
          else m)"

definition push_byte :: "block_machine \<Rightarrow> byte \<Rightarrow> block_machine" where
  "push_byte m b =
     (case m_current m of
        Some _ \<Rightarrow>
          (let m' = m\<lparr>m_out_buf := m_out_buf m @ [b]\<rparr>
           in if output_flush_bytes \<le> length (m_out_buf m') \<or> b = CHR 0x0A then flush_output m' else m')
      | None \<Rightarrow>
          if m_capturing m \<and> b \<noteq> CHR 0x00 then m\<lparr>m_cmd_buf := m_cmd_buf m @ [b]\<rparr> else m)"

definition vte_print :: "block_machine \<Rightarrow> scalar \<Rightarrow> block_machine" where
  "vte_print m c = foldl push_byte m (encode_utf8 c)"

definition vte_execute :: "block_machine \<Rightarrow> byte \<Rightarrow> block_machine" where
  "vte_execute m b = push_byte m b"

fun starts_with :: "bytes \<Rightarrow> bytes \<Rightarrow> bool" where
  "starts_with s [] \<longleftrightarrow> True"
| "starts_with [] (p # ps) \<longleftrightarrow> False"
| "starts_with (x # xs) (p # ps) \<longleftrightarrow> x = p \<and> starts_with xs ps"

definition param :: "bytes list \<Rightarrow> nat \<Rightarrow> bytes option" where
  "param ps i = (if i < length ps then Some (ps ! i) else None)"

definition exit_code_of :: "bytes list \<Rightarrow> int option" where
  "exit_code_of params =
     Option.bind (Option.bind (param params 2) from_utf8) (\<lambda>s. parse_i32 (str_trim s))"

definition osc_dispatch :: "(nat \<Rightarrow> block_id) \<Rightarrow> block_machine \<Rightarrow> bytes list \<Rightarrow> block_machine" where
  "osc_dispatch fresh m params =
     (if params = [] \<or> params ! 0 \<noteq> ''133'' then m
      else
        (let sub = (case param params 1 of None \<Rightarrow> [] | Some p \<Rightarrow> p)
         in if starts_with sub ''A'' then
              (let m1 = flush_output m
               in m1\<lparr>m_cmd_buf := [], m_capturing := True, m_current := None,
                     m_pending := m_pending m1 @ [PromptStart (m_session m1)]\<rparr>)
            else if starts_with sub ''B'' then m
            else if starts_with sub ''C'' then
              (let command = str_trim_end (from_utf8_lossy (m_cmd_buf m));
                   block = fresh (m_drawn m)
               in m\<lparr>m_cmd_buf := [], m_capturing := False, m_current := Some block,
                    m_pending := m_pending m @ [CommandStart (m_session m) block command None],
                    m_drawn := Suc (m_drawn m)\<rparr>)
            else if starts_with sub ''D'' then
              (let m1 = flush_output m; exit_code = exit_code_of params
               in case m_current m1 of
                    None \<Rightarrow> m1
                  | Some block \<Rightarrow>
                      m1\<lparr>m_current := None, m_pending := m_pending m1 @ [BlockEnd block exit_code]\<rparr>)
            else m))"

fun perform :: "(nat \<Rightarrow> block_id) \<Rightarrow> block_machine \<Rightarrow> vte_action \<Rightarrow> block_machine" where
  "perform fresh m (Print c) = vte_print m c"
| "perform fresh m (Execute b) = vte_execute m b"
| "perform fresh m (OscDispatch ps) = osc_dispatch fresh m ps"
| "perform fresh m OtherAction = m"

record 'v block_parser =
  bp_vte :: 'v
  bp_machine :: block_machine

definition parser_new :: "'v \<Rightarrow> session_id \<Rightarrow> 'v block_parser" where
  "parser_new v s = \<lparr>bp_vte = v, bp_machine = machine_new s\<rparr>"

definition feed ::
  "('v \<Rightarrow> bytes \<Rightarrow> 'v \<times> vte_action list) \<Rightarrow> (nat \<Rightarrow> block_id) \<Rightarrow> 'v block_parser \<Rightarrow> bytes
     \<Rightarrow> 'v block_parser \<times> block_event list"
where
  "feed advance fresh p bs =
     (let (v', acts) = advance (bp_vte p) bs;
          m = flush_output (foldl (perform fresh) (bp_machine p) acts)
      in (\<lparr>bp_vte = v', bp_machine = m\<lparr>m_pending := []\<rparr>\<rparr>, m_pending m))"

text \<open>The events of a sequence of feeds, in the order the daemon receives them.\<close>

fun feed_all ::
  "('v \<Rightarrow> bytes \<Rightarrow> 'v \<times> vte_action list) \<Rightarrow> (nat \<Rightarrow> block_id) \<Rightarrow> 'v block_parser \<Rightarrow> bytes list
     \<Rightarrow> 'v block_parser \<times> block_event list"
where
  "feed_all advance fresh p [] = (p, [])"
| "feed_all advance fresh p (c # cs) =
     (let (p', evs) = feed advance fresh p c; (p'', evs') = feed_all advance fresh p' cs
      in (p'', evs @ evs'))"

section \<open>Well-formed event streams\<close>

text \<open>
  The protocol consumers of block events rely on: output and end events name the block of
  the latest command start, and nothing is open after a prompt or an end.
\<close>

fun monitor :: "block_id option \<Rightarrow> block_event list \<Rightarrow> block_id option option" where
  "monitor cur [] = Some cur"
| "monitor cur (PromptStart s # evs) = monitor None evs"
| "monitor cur (CommandStart s b cmd cwd # evs) = monitor (Some b) evs"
| "monitor cur (OutputChunk b d # evs) = (if cur = Some b then monitor cur evs else None)"
| "monitor cur (BlockEnd b e # evs) = (if cur = Some b then monitor None evs else None)"

lemma monitor_append: "monitor c (xs @ ys) = Option.bind (monitor c xs) (\<lambda>c'. monitor c' ys)"
  by (induction c xs rule: monitor.induct) auto

lemma monitor_snoc:
  assumes "monitor c xs = Some cur"
  shows "monitor c (xs @ [PromptStart s]) = Some None"
    and "monitor c (xs @ [CommandStart s b cmd cwd]) = Some (Some b)"
    and "cur = Some b \<Longrightarrow> monitor c (xs @ [OutputChunk b d]) = Some (Some b)"
    and "cur = Some b \<Longrightarrow> monitor c (xs @ [BlockEnd b e]) = Some None"
  using assms by (auto simp: monitor_append)

text \<open>Bytes per output chunk: at least one, at most the flush threshold.\<close>

fun chunk_ok :: "block_event \<Rightarrow> bool" where
  "chunk_ok (OutputChunk b d) \<longleftrightarrow> d \<noteq> [] \<and> length d \<le> output_flush_bytes"
| "chunk_ok ev \<longleftrightarrow> True"

definition machine_ok :: "block_id option \<Rightarrow> block_machine \<Rightarrow> bool" where
  "machine_ok c m \<longleftrightarrow>
     monitor c (m_pending m) = Some (m_current m) \<and> length (m_out_buf m) < output_flush_bytes
     \<and> list_all chunk_ok (m_pending m)"

lemma flush_output_ok: "machine_ok c m \<Longrightarrow> machine_ok c (flush_output m)"
  by (auto simp: machine_ok_def flush_output_def monitor_snoc output_flush_bytes_def split: option.splits)

lemma flush_output_current [simp]: "m_current (flush_output m) = m_current m"
  by (simp add: flush_output_def split: option.splits)

lemma flush_output_session [simp]: "m_session (flush_output m) = m_session m"
  by (simp add: flush_output_def split: option.splits)

lemma flush_output_drawn [simp]: "m_drawn (flush_output m) = m_drawn m"
  by (simp add: flush_output_def split: option.splits)

lemma flush_output_buf: "m_current m \<noteq> None \<Longrightarrow> m_out_buf (flush_output m) = []"
  by (auto simp: flush_output_def)

lemma push_byte_ok: "machine_ok c m \<Longrightarrow> machine_ok c (push_byte m b)"
  by (auto simp: machine_ok_def push_byte_def flush_output_def Let_def monitor_snoc
      output_flush_bytes_def split: option.splits)

lemma foldl_push_ok: "machine_ok c m \<Longrightarrow> machine_ok c (foldl push_byte m bs)"
  by (induction bs arbitrary: m) (auto simp: push_byte_ok)

lemma osc_dispatch_ok: "machine_ok c m \<Longrightarrow> machine_ok c (osc_dispatch fresh m ps)"
  using flush_output_ok [of c m]
  by (auto simp: osc_dispatch_def Let_def machine_ok_def monitor_snoc split: option.splits)

lemma perform_ok: "machine_ok c m \<Longrightarrow> machine_ok c (perform fresh m a)"
  by (cases a) (auto simp: vte_print_def vte_execute_def foldl_push_ok push_byte_ok osc_dispatch_ok)

lemma performs_ok: "machine_ok c m \<Longrightarrow> machine_ok c (foldl (perform fresh) m acts)"
  by (induction acts arbitrary: m) (auto simp: perform_ok)

lemma feed_ok:
  assumes "machine_ok (m_current (bp_machine p)) (bp_machine p)" "feed advance fresh p bs = (p', evs)"
    and "m_pending (bp_machine p) = []"
  shows "monitor (m_current (bp_machine p)) evs = Some (m_current (bp_machine p'))"
    "list_all chunk_ok evs" "m_pending (bp_machine p') = []"
    "machine_ok (m_current (bp_machine p')) (bp_machine p')"
proof -
  obtain v acts where a: "advance (bp_vte p) bs = (v, acts)" by (cases "advance (bp_vte p) bs")
  let ?m = "flush_output (foldl (perform fresh) (bp_machine p) acts)"
  have "machine_ok (m_current (bp_machine p)) ?m"
    using assms(1) by (intro flush_output_ok performs_ok)
  then show "monitor (m_current (bp_machine p)) evs = Some (m_current (bp_machine p'))"
    "list_all chunk_ok evs" "m_pending (bp_machine p') = []"
    "machine_ok (m_current (bp_machine p')) (bp_machine p')"
    using assms(2) a by (auto simp: feed_def Let_def machine_ok_def)
qed

lemma feed_all_ok:
  assumes "machine_ok (m_current (bp_machine p)) (bp_machine p)" "m_pending (bp_machine p) = []"
  shows "monitor (m_current (bp_machine p)) (snd (feed_all advance fresh p cs))
      = Some (m_current (bp_machine (fst (feed_all advance fresh p cs))))
    \<and> list_all chunk_ok (snd (feed_all advance fresh p cs))"
  using assms
proof (induction cs arbitrary: p)
  case Nil
  then show ?case by simp
next
  case (Cons c cs)
  obtain p' evs where f: "feed advance fresh p c = (p', evs)" by (cases "feed advance fresh p c")
  note F = feed_ok [OF Cons.prems(1) f Cons.prems(2)]
  show ?case using Cons.IH [OF F(4,3)] F(1,2) f
    by (auto simp: case_prod_unfold monitor_append Let_def)
qed

text \<open>
  C30. Whatever bytes a pane produces, however they are cut into chunks, and whatever the
  escape-sequence parser makes of them, the block events form a well-formed stream: every
  output chunk and every block end names the block of the latest command start, no output
  or end follows a prompt or an end without a new command start, the open block after the
  last event is the machine's current block, and every output chunk carries between 1 and
  4096 bytes.
\<close>

theorem parser_events_well_formed:
  "monitor None (snd (feed_all advance fresh (parser_new v s) chunks))
     = Some (m_current (bp_machine (fst (feed_all advance fresh (parser_new v s) chunks))))
   \<and> list_all chunk_ok (snd (feed_all advance fresh (parser_new v s) chunks))"
proof -
  have "machine_ok (m_current (bp_machine (parser_new v s))) (bp_machine (parser_new v s))"
    "m_pending (bp_machine (parser_new v s)) = []" "m_current (bp_machine (parser_new v s)) = None"
    by (auto simp: parser_new_def machine_new_def machine_ok_def output_flush_bytes_def)
  then show ?thesis using feed_all_ok [of "parser_new v s" advance fresh chunks] by simp
qed

section \<open>Output is neither lost nor reordered\<close>

fun plain :: "vte_action \<Rightarrow> bool" where
  "plain (OscDispatch ps) \<longleftrightarrow> False"
| "plain a \<longleftrightarrow> True"

fun act_bytes :: "vte_action \<Rightarrow> bytes" where
  "act_bytes (Print c) = encode_utf8 c"
| "act_bytes (Execute b) = [b]"
| "act_bytes a = []"

fun chunk_of :: "block_id \<Rightarrow> block_event \<Rightarrow> bytes option" where
  "chunk_of b (OutputChunk b' d) = (if b' = b then Some d else None)"
| "chunk_of b ev = None"

definition output_of :: "block_id \<Rightarrow> block_event list \<Rightarrow> bytes option" where
  "output_of b evs =
     (if list_all (\<lambda>ev. chunk_of b ev \<noteq> None) evs then Some (concat (map (\<lambda>ev. the (chunk_of b ev)) evs)) else None)"

lemma output_of_append:
  "output_of b xs = Some u \<Longrightarrow> output_of b ys = Some v \<Longrightarrow> output_of b (xs @ ys) = Some (u @ v)"
  by (auto simp: output_of_def split: if_splits)

lemma output_of_snoc:
  "output_of b xs = Some u \<Longrightarrow> output_of b (xs @ [OutputChunk b d]) = Some (u @ d)"
  by (auto simp: output_of_def split: if_splits)

lemma output_of_Nil [simp]: "output_of b [] = Some []"
  by (simp add: output_of_def)

text \<open>The bytes of the open block so far: those already in chunks and those still buffered.\<close>

definition carries :: "block_id \<Rightarrow> bytes \<Rightarrow> block_machine \<Rightarrow> bool" where
  "carries b u m \<longleftrightarrow> m_current m = Some b \<and> (\<exists>d. output_of b (m_pending m) = Some d \<and> u = d @ m_out_buf m)"

lemma carries_flush: "carries b u m \<Longrightarrow> carries b u (flush_output m) \<and> m_out_buf (flush_output m) = []"
  by (auto simp: carries_def flush_output_def output_of_snoc)

lemma carries_push: "carries b u m \<Longrightarrow> carries b (u @ [x]) (push_byte m x)"
proof -
  assume c: "carries b u m"
  then have "carries b (u @ [x]) (m\<lparr>m_out_buf := m_out_buf m @ [x]\<rparr>)" by (auto simp: carries_def)
  then show ?thesis using c carries_flush by (auto simp: push_byte_def Let_def carries_def)
qed

lemma carries_pushes: "carries b u m \<Longrightarrow> carries b (u @ xs) (foldl push_byte m xs)"
proof (induction xs arbitrary: u m)
  case Nil
  then show ?case by simp
next
  case (Cons x xs)
  then show ?case using Cons.IH [OF carries_push [OF Cons.prems, of x]] by simp
qed

lemma carries_perform: "carries b u m \<Longrightarrow> plain a \<Longrightarrow> carries b (u @ act_bytes a) (perform fresh m a)"
  by (cases a) (auto simp: vte_print_def vte_execute_def carries_pushes carries_push)

lemma carries_performs:
  "carries b u m \<Longrightarrow> list_all plain acts \<Longrightarrow>
     carries b (u @ concat (map act_bytes acts)) (foldl (perform fresh) m acts)"
proof (induction acts arbitrary: u m)
  case Nil
  then show ?case by simp
next
  case (Cons a acts)
  then show ?case using Cons.IH [OF carries_perform [of b u m a fresh]] by simp
qed

text \<open>The callbacks the escape-sequence parser makes over a sequence of chunks.\<close>

fun vte_acts :: "('v \<Rightarrow> bytes \<Rightarrow> 'v \<times> vte_action list) \<Rightarrow> 'v \<Rightarrow> bytes list \<Rightarrow> vte_action list" where
  "vte_acts advance v [] = []"
| "vte_acts advance v (c # cs) = snd (advance v c) @ vte_acts advance (fst (advance v c)) cs"

lemma feed_output:
  assumes "m_current (bp_machine p) = Some b" "m_out_buf (bp_machine p) = []" "m_pending (bp_machine p) = []"
    and "list_all plain (snd (advance (bp_vte p) c))" "feed advance fresh p c = (p', evs)"
  shows "output_of b evs = Some (concat (map act_bytes (snd (advance (bp_vte p) c))))
    \<and> m_current (bp_machine p') = Some b \<and> m_out_buf (bp_machine p') = [] \<and> m_pending (bp_machine p') = []
    \<and> bp_vte p' = fst (advance (bp_vte p) c)"
proof -
  let ?acts = "snd (advance (bp_vte p) c)"
  have "carries b [] (bp_machine p)" using assms by (simp add: carries_def)
  then have "carries b (concat (map act_bytes ?acts)) (foldl (perform fresh) (bp_machine p) ?acts)"
    using carries_performs assms(4) by fastforce
  note F = carries_flush [OF this]
  then show ?thesis using assms(5)
    by (auto simp: feed_def case_prod_unfold Let_def carries_def)
qed

text \<open>
  C3. Output conservation: while a block is open and no marker arrives, the output chunks
  the parser emits all name that block and their concatenation is exactly the printed
  characters (UTF-8) and control bytes, in order and without loss or duplication, however
  the stream is cut into chunks and wherever the 4096-byte and newline flushes fall.
\<close>

theorem parser_conserves_output:
  assumes "m_current (bp_machine p) = Some b" "m_out_buf (bp_machine p) = []"
    and "m_pending (bp_machine p) = []" "list_all plain (vte_acts advance (bp_vte p) chunks)"
  shows "output_of b (snd (feed_all advance fresh p chunks))
      = Some (concat (map act_bytes (vte_acts advance (bp_vte p) chunks)))"
  using assms
proof (induction chunks arbitrary: p)
  case Nil
  then show ?case by simp
next
  case (Cons c cs)
  obtain p' evs where f: "feed advance fresh p c = (p', evs)" by (cases "feed advance fresh p c")
  have F: "output_of b evs = Some (concat (map act_bytes (snd (advance (bp_vte p) c))))"
    "m_current (bp_machine p') = Some b" "m_out_buf (bp_machine p') = []" "m_pending (bp_machine p') = []"
    "bp_vte p' = fst (advance (bp_vte p) c)"
    using feed_output [OF Cons.prems(1-3) _ f] Cons.prems(4) by auto
  have "output_of b (snd (feed_all advance fresh p' cs))
      = Some (concat (map act_bytes (vte_acts advance (bp_vte p') cs)))"
    using Cons.IH [OF F(2-4)] Cons.prems(4) F(5) by simp
  then show ?case using F(1,5) f output_of_append by (simp add: case_prod_unfold Let_def)
qed

definition demo_machine :: block_machine where
  "demo_machine = (machine_new (SessionId 1))\<lparr>m_current := Some (BlockId 7)\<rparr>"

theorem parser_conserves_output_witness:
  "output_of (BlockId 7)
     (snd (feed_all (\<lambda>v bs. (v, map Execute bs)) (\<lambda>n. BlockId 0)
        \<lparr>bp_vte = (), bp_machine = demo_machine\<rparr> [''/t'', ''mp'' @ [CHR 0x0A], ''x'']))
   = Some (''/tmp'' @ [CHR 0x0A] @ ''x'')"
  by (subst parser_conserves_output) (auto simp: demo_machine_def machine_new_def)

section \<open>Command text\<close>

lemma encode_nonzero: "is_scalar c \<Longrightarrow> c \<noteq> 0 \<Longrightarrow> CHR 0x00 \<notin> set (encode_utf8 c)"
proof -
  assume c: "is_scalar c" "c \<noteq> 0"
  have "0 \<notin> set (map of_char (encode_utf8 c) :: nat list)"
    using c by (auto simp: codes_of_encode utf8_codes_def)
  moreover have "of_char (CHR 0x00) = (0::nat)" by simp
  ultimately show ?thesis by (metis image_eqI list.set_map)
qed

lemma capture_pushes:
  "m_current m = None \<Longrightarrow> m_capturing m \<Longrightarrow> CHR 0x00 \<notin> set bs \<Longrightarrow>
     foldl push_byte m bs = m\<lparr>m_cmd_buf := m_cmd_buf m @ bs\<rparr>"
  by (induction bs arbitrary: m) (auto simp: push_byte_def)

lemma capture_prints:
  "m_current m = None \<Longrightarrow> m_capturing m \<Longrightarrow> list_all (\<lambda>c. is_scalar c \<and> c \<noteq> 0) cs \<Longrightarrow>
     foldl (perform fresh) m (map Print cs) = m\<lparr>m_cmd_buf := m_cmd_buf m @ encode_string cs\<rparr>"
  by (induction cs arbitrary: m) (auto simp: vte_print_def capture_pushes encode_nonzero)

definition prompt_cycle :: "scalar list \<Rightarrow> scalar list \<Rightarrow> vte_action list" where
  "prompt_cycle prompt typed =
     [OscDispatch [''133'', ''A'']] @ map Print prompt @ [OscDispatch [''133'', ''B'']]
     @ map Print typed @ [OscDispatch [''133'', ''C'']]"

text \<open>
  Command text: after a prompt marker A, the text printed before an optional marker B
  and after it (non-NUL scalar values, whatever the alphabet), up to marker C, opens a new
  block whose command is exactly that text without trailing white space. Marker B does not
  discard what was printed before it, so a prompt string shown between A and B is part of
  the recorded command.
\<close>

theorem command_text_is_everything_since_prompt:
  assumes "list_all (\<lambda>c. is_scalar c \<and> c \<noteq> 0) prompt" "list_all (\<lambda>c. is_scalar c \<and> c \<noteq> 0) typed"
  shows "m_current (foldl (perform fresh) m (prompt_cycle prompt typed)) = Some (fresh (m_drawn m))
    \<and> m_pending (foldl (perform fresh) m (prompt_cycle prompt typed)) = m_pending (flush_output m) @
        [PromptStart (m_session m),
         CommandStart (m_session m) (fresh (m_drawn m)) (encode_string (trim_end_scalars (prompt @ typed))) None]"
proof -
  have sc: "list_all is_scalar (prompt @ typed)" using assms(1,2) by (auto simp: list_all_iff)
  have cmd: "str_trim_end (from_utf8_lossy (encode_string prompt @ encode_string typed))
      = encode_string (trim_end_scalars (prompt @ typed))"
    using utf8_round_trip [OF sc] lossy_string [OF sc] by (simp add: str_trim_end_def)
  show ?thesis using assms
    by (simp add: prompt_cycle_def osc_dispatch_def param_def Let_def capture_prints cmd)
qed

theorem command_text_is_everything_since_prompt_witness:
  "m_pending (foldl (perform (\<lambda>n. BlockId (of_nat n))) (machine_new (SessionId 1))
     (prompt_cycle [36, 32] [112, 119, 100, 32]))
   = [PromptStart (SessionId 1), CommandStart (SessionId 1) (BlockId 0) ''$ pwd'' None]"
proof -
  have "encode_string (trim_end_scalars ([36, 32] @ [112, 119, 100, 32])) = ''$ pwd''"
    by code_simp
  then show ?thesis
    using command_text_is_everything_since_prompt [of "[36, 32]" "[112, 119, 100, 32]"
        "\<lambda>n. BlockId (of_nat n)" "machine_new (SessionId 1)"]
    by (simp add: is_scalar_def machine_new_def flush_output_def)
qed

text \<open>
  A second command start with no prompt or end marker in between takes over bytes the
  first command printed: the partial line still buffered for the old block is emitted as
  output of the new one.
\<close>

theorem command_start_takes_buffered_output:
  assumes "m_current m = Some old" "m_out_buf m = d" "d \<noteq> []" "m_pending m = []"
  shows "snd (feed (\<lambda>v bs. (v, [OscDispatch [''133'', ''C'']])) fresh \<lparr>bp_vte = (), bp_machine = m\<rparr> bs)
    = [CommandStart (m_session m) (fresh (m_drawn m)) (str_trim_end (from_utf8_lossy (m_cmd_buf m))) None,
       OutputChunk (fresh (m_drawn m)) d]"
  using assms by (simp add: feed_def osc_dispatch_def param_def Let_def flush_output_def)

theorem command_start_takes_buffered_output_witness:
  "snd (feed (\<lambda>v bs. (v, [OscDispatch [''133'', ''C'']])) (\<lambda>n. BlockId 9)
     \<lparr>bp_vte = (), bp_machine = demo_machine\<lparr>m_out_buf := ''abc''\<rparr>\<rparr> [])
   = [CommandStart (SessionId 1) (BlockId 9) [] None, OutputChunk (BlockId 9) ''abc'']"
proof -
  have "str_trim_end (from_utf8_lossy []) = []"
    by (simp add: str_trim_end_def from_utf8_lossy_def lossy_scalars_def decode_utf8_def trim_end_scalars_def)
  then show ?thesis
    using command_start_takes_buffered_output [of "demo_machine\<lparr>m_out_buf := ''abc''\<rparr>" "BlockId 7" "''abc''"
        "\<lambda>n. BlockId 9" "[]"]
    by (simp add: demo_machine_def machine_new_def)
qed

end
