(* ===== verification/State_Tracker.thy ===== *)
theory State_Tracker
  imports Pyre_Proto Utf8
begin

text \<open>
  The pane state tracker of \<^verbatim>\<open>crates/pyred/src/state.rs\<close>, the classifier of
  \<^verbatim>\<open>agent_detect.rs\<close> and the hooks of \<^verbatim>\<open>hooks.rs\<close>. Every reading of the monotonic clock is
  an argument: \<open>clk i\<close> is the i-th reading of one evaluation. The process table
  (\<open>pid_alive\<close>, the contents of \<^verbatim>\<open>/proc\<close>) and Unicode lower-casing are arguments too.
\<close>

section \<open>Markers and sets of programs\<close>

datatype osc133_marker = MA | MB | MC | MD "int option"

definition agent_idle_secs :: nat where
  "agent_idle_secs = 15"

definition interactive_set :: "string list" where
  "interactive_set =
     [''vim'', ''nvim'', ''vi'', ''less'', ''more'', ''top'', ''htop'', ''btop'', ''man'', ''nano'',
      ''emacs'', ''emacs-nox'', ''helix'', ''hx'', ''lazygit'', ''fzf'', ''ranger'', ''nnn'', ''mc'']"

definition shell_set :: "string list" where
  "shell_set = [''bash'', ''zsh'', ''fish'', ''sh'', ''dash'', ''ksh'', ''tcsh'', ''csh'']"

definition is_shell :: "string \<Rightarrow> bool" where
  "is_shell name \<longleftrightarrow> name \<in> set shell_set"

section \<open>Agent classification\<close>

text \<open>\<open>str::contains\<close> and \<open>str::strip_suffix\<close> on bytes.\<close>

fun str_contains :: "bytes \<Rightarrow> bytes \<Rightarrow> bool" where
  "str_contains pat [] \<longleftrightarrow> pat = []"
| "str_contains pat (b # bs) \<longleftrightarrow> take (length pat) (b # bs) = pat \<or> str_contains pat bs"

definition strip_suffix :: "bytes \<Rightarrow> bytes \<Rightarrow> bytes option" where
  "strip_suffix suf s =
     (if length suf \<le> length s \<and> drop (length s - length suf) s = suf
      then Some (take (length s - length suf) s) else None)"

definition agent_base :: "(bytes \<Rightarrow> bytes) \<Rightarrow> bytes \<Rightarrow> bytes" where
  "agent_base lower comm =
     (let base = lower (str_trim comm)
      in case strip_suffix ''.exe'' base of None \<Rightarrow> base | Some b \<Rightarrow> b)"

definition classify_foreground :: "(bytes \<Rightarrow> bytes) \<Rightarrow> bytes \<Rightarrow> agent_kind" where
  "classify_foreground lower comm =
     (let base = agent_base lower comm
      in if base \<in> {''claude'', ''claude-code''} then ClaudeCode
         else if base = ''codex'' then Codex
         else if base = ''pi'' then Pi
         else if base = ''opencode'' then OpenCode
         else if base \<in> {''cursor'', ''cursor-agent'', ''cursor-agent-cli''} then CursorAgent
         else if base \<in> {''droid'', ''factory''} then Droid
         else if base = ''amp'' then Amp
         else if base \<in> {''bash'', ''zsh'', ''fish'', ''sh'', ''dash'', ''ksh'', ''tcsh'', ''csh'', ''nu''} then Shell
         else if str_contains ''claude'' base then ClaudeCode
         else if str_contains ''codex'' base then Codex
         else Unknown)"

section \<open>The tracker\<close>

text \<open>
  The watch channel is its current value and the number of values sent; \<open>send_replace\<close>
  stores the value and wakes every receiver.
\<close>

record watch_chan =
  wc_value :: pane_state_kind
  wc_version :: nat

record tracker =
  t_state :: pane_state_kind
  t_reason :: string
  t_last_output_at :: instant
  t_last_marker :: "osc133_marker option"
  t_last_d_at :: "instant option"
  t_foreground_cmd :: "string option"
  t_agent :: agent_kind
  t_seen :: bool
  t_root_pid :: u32
  t_override_until :: "instant option"
  t_overridden_state :: "pane_state_kind option"
  t_overridden_reason :: "string option"
  t_watch :: watch_chan

definition tracker_new :: "instant \<Rightarrow> u32 \<Rightarrow> tracker" where
  "tracker_new now root_pid =
     \<lparr>t_state = Running, t_reason = ''init'', t_last_output_at = now, t_last_marker = None,
      t_last_d_at = None, t_foreground_cmd = None, t_agent = Unknown, t_seen = True,
      t_root_pid = root_pid, t_override_until = None, t_overridden_state = None,
      t_overridden_reason = None, t_watch = \<lparr>wc_value = Running, wc_version = 0\<rparr>\<rparr>"

definition touch_output :: "instant \<Rightarrow> tracker \<Rightarrow> tracker" where
  "touch_output now t = t\<lparr>t_last_output_at := now\<rparr>"

definition push_marker :: "instant \<Rightarrow> osc133_marker \<Rightarrow> tracker \<Rightarrow> tracker" where
  "push_marker now marker t =
     (let t' = (case marker of MD _ \<Rightarrow> t\<lparr>t_last_d_at := Some now\<rparr> | _ \<Rightarrow> t)
      in t'\<lparr>t_last_marker := Some marker\<rparr>)"

definition set_override :: "instant \<Rightarrow> pane_state_kind \<Rightarrow> string \<Rightarrow> u64 \<Rightarrow> tracker \<Rightarrow> tracker" where
  "set_override now state reason secs t =
     t\<lparr>t_overridden_state := Some state, t_overridden_reason := Some reason,
       t_override_until := Some (now + from_secs (unat secs))\<rparr>"

definition mark_seen :: "tracker \<Rightarrow> tracker" where
  "mark_seen t = t\<lparr>t_seen := True\<rparr>"

definition apply_state :: "pane_state_kind \<Rightarrow> string \<Rightarrow> tracker \<Rightarrow> bool \<times> tracker" where
  "apply_state new_state new_reason t =
     (if t_state t = new_state then (False, t)
      else
        (let t1 = (if new_state = Done then t\<lparr>t_seen := False\<rparr> else t)
         in (True, t1\<lparr>t_state := new_state, t_reason := new_reason,
                      t_watch := \<lparr>wc_value = new_state, wc_version = wc_version (t_watch t1) + 1\<rparr>\<rparr>)))"

text \<open>\<open>fg.rsplit('/').next()\<close>: everything after the last slash.\<close>

definition base_name :: "string \<Rightarrow> string" where
  "base_name s = rev (takeWhile (\<lambda>c. c \<noteq> CHR ''/'') (rev s))"

definition fg_base :: "tracker \<Rightarrow> string" where
  "fg_base t = base_name (case t_foreground_cmd t of None \<Rightarrow> [] | Some c \<Rightarrow> c)"

definition last_exit :: "tracker \<Rightarrow> int option" where
  "last_exit t = (case t_last_marker t of Some (MD code) \<Rightarrow> code | _ \<Rightarrow> None)"

definition at_prompt :: "tracker \<Rightarrow> bool" where
  "at_prompt t \<longleftrightarrow> t_last_marker t = Some MB \<or> t_last_marker t = Some MA"

text \<open>
  The heuristic part of \<open>evaluate\<close> (rules 1 to 5). \<open>Instant::elapsed\<close> is zero for an
  instant in the future, as the truncated subtraction is.
\<close>

definition evaluate_rules :: "(nat \<Rightarrow> instant) \<Rightarrow> (u32 \<Rightarrow> bool) \<Rightarrow> tracker \<Rightarrow> bool \<times> tracker" where
  "evaluate_rules clk pid_alive t =
     (if t_root_pid t > 0 \<and> \<not> pid_alive (t_root_pid t) then
        (if (case last_exit t of None \<Rightarrow> False | Some c \<Rightarrow> c \<noteq> 0)
         then apply_state Crashed ''process exited non-zero'' t
         else apply_state Done ''process exited'' t)
      else if fg_base t \<in> set interactive_set then apply_state Interactive (fg_base t) t
      else if at_prompt t \<and> clk 1 - t_last_output_at t > from_secs 2 \<and> is_shell (fg_base t)
        then apply_state WaitingInput ''shell prompt, idle > 2s'' t
      else if t_agent t \<noteq> Unknown \<and> t_agent t \<noteq> Shell
              \<and> clk 2 - t_last_output_at t > from_secs agent_idle_secs
        then apply_state WaitingInput ''agent idle >15s'' t
      else if (case t_last_d_at t of
                 None \<Rightarrow> False
               | Some d_at \<Rightarrow> clk 3 - d_at > from_secs 5 \<and> t_last_output_at t < d_at + from_secs 1)
        then apply_state Idle ''quiet after block end'' t
      else apply_state Running ''active'' t)"

definition evaluate :: "(nat \<Rightarrow> instant) \<Rightarrow> (u32 \<Rightarrow> bool) \<Rightarrow> tracker \<Rightarrow> bool \<times> tracker" where
  "evaluate clk pid_alive t =
     (case t_override_until t of
        None \<Rightarrow> evaluate_rules clk pid_alive t
      | Some until \<Rightarrow>
          if clk 0 < until then
            apply_state (case t_overridden_state t of None \<Rightarrow> Running | Some s \<Rightarrow> s)
                        (case t_overridden_reason t of None \<Rightarrow> ''override'' | Some r \<Rightarrow> r) t
          else
            evaluate_rules clk pid_alive
              (t\<lparr>t_override_until := None, t_overridden_state := None, t_overridden_reason := None\<rparr>))"

section \<open>Foreground process\<close>

text \<open>
  \<open>children pid\<close> is the content of the kernel's list of direct children of \<open>pid\<close> and
  \<open>comm pid\<close> that of its command name; both files may be unreadable.
\<close>

text \<open>\<open>str::split_whitespace\<close>, on scalar values.\<close>

fun split_ws :: "scalar list \<Rightarrow> scalar list \<Rightarrow> bytes list" where
  "split_ws acc [] = (if acc = [] then [] else [encode_string acc])"
| "split_ws acc (c # cs) =
     (if is_whitespace c then (if acc = [] then split_ws [] cs else encode_string acc # split_ws [] cs)
      else split_ws (acc @ [c]) cs)"

definition parse_u32 :: "bytes \<Rightarrow> u32 option" where
  "parse_u32 s =
     (let ds = (if s \<noteq> [] \<and> hd s = CHR ''+'' then tl s else s)
      in if ds = [] then None
         else case parse_digits 0 ds of
                None \<Rightarrow> None
              | Some n \<Rightarrow> if n < 4294967296 then Some (of_nat n) else None)"

definition direct_child :: "(u32 \<Rightarrow> bytes option) \<Rightarrow> u32 \<Rightarrow> u32" where
  "direct_child children pid =
     (case children pid of
        None \<Rightarrow> pid
      | Some content \<Rightarrow>
          (let pids = List.map_filter parse_u32 (split_ws [] (lossy_scalars content))
           in if pids = [] then pid else last pids))"

definition read_comm :: "(u32 \<Rightarrow> bytes option) \<Rightarrow> u32 \<Rightarrow> bytes option" where
  "read_comm comm pid = map_option str_trim (comm pid)"

definition foreground_of :: "(u32 \<Rightarrow> bytes option) \<Rightarrow> (u32 \<Rightarrow> bytes option) \<Rightarrow> u32 \<Rightarrow> bytes option" where
  "foreground_of children comm root_pid = read_comm comm (direct_child children root_pid)"

text \<open>The locked part of one step of the state engine on one tracker.\<close>

definition tick_tracker ::
  "(bytes \<Rightarrow> bytes) \<Rightarrow> (u32 \<Rightarrow> bytes option) \<Rightarrow> (nat \<Rightarrow> instant) \<Rightarrow> (u32 \<Rightarrow> bool) \<Rightarrow> tracker \<Rightarrow> bool \<times> tracker" where
  "tick_tracker lower foreground clk pid_alive t =
     (let t1 = t\<lparr>t_foreground_cmd := foreground (t_root_pid t)\<rparr>;
          t2 = (case t_foreground_cmd t1 of
                  None \<Rightarrow> t1
                | Some cmd \<Rightarrow> t1\<lparr>t_agent := classify_foreground lower cmd\<rparr>)
      in evaluate clk pid_alive t2)"

section \<open>Hooks\<close>

record hooks_config =
  hk_webhook :: "string option"
  hk_notify_send :: bool

definition hooks_default :: hooks_config where
  "hooks_default = \<lparr>hk_webhook = None, hk_notify_send = False\<rparr>"

text \<open>Reading the file gives its content, or an error; parsing is a third-party library.\<close>

definition hooks_load :: "(string \<Rightarrow> hooks_config option) \<Rightarrow> string option \<Rightarrow> hooks_config" where
  "hooks_load parse_toml file =
     (case file of
        None \<Rightarrow> hooks_default
      | Some content \<Rightarrow> (case parse_toml content of None \<Rightarrow> hooks_default | Some cfg \<Rightarrow> cfg))"

datatype hook_effect =
    WebhookPost (hook_url: string) (hook_session: string) (hook_pane: string) (hook_state: string) (hook_reason: string)
  | NotifySend string

definition fire_state_change ::
  "(uuid \<Rightarrow> string) \<Rightarrow> hooks_config \<Rightarrow> session_id \<Rightarrow> pane_id \<Rightarrow> pane_state_kind \<Rightarrow> string \<Rightarrow> hook_effect list" where
  "fire_state_change show_uuid cfg session pane state reason =
     (case hk_webhook cfg of
        None \<Rightarrow> []
      | Some url \<Rightarrow> [WebhookPost url (show_uuid (session_uuid session)) (show_uuid (pane_uuid pane)) (state_display state) reason])
     @ (if hk_notify_send cfg \<and> state = WaitingInput
        then [NotifySend (''pane '' @ take 8 (show_uuid (pane_uuid pane)) @ '' waiting for input'')] else [])"

section \<open>Runs of a tracker\<close>

text \<open>
  What happens to a tracker between its creation and the end of its pane, in any order: the
  reader thread touches it, the parser task pushes markers, clients override the state or
  mark it seen, and the engine ticks. A run collects the state changes that the engine
  reports (hooks and events).
\<close>

datatype tracker_op =
    OpTouch instant
  | OpMarker instant osc133_marker
  | OpOverride instant pane_state_kind string u64
  | OpSeen
  | OpTick "bytes option" "nat \<Rightarrow> instant" "u32 \<Rightarrow> bool"

fun tracker_step :: "(bytes \<Rightarrow> bytes) \<Rightarrow> tracker_op \<Rightarrow> tracker \<Rightarrow> pane_state_kind list \<times> tracker" where
  "tracker_step lower (OpTouch now) t = ([], touch_output now t)"
| "tracker_step lower (OpMarker now mk) t = ([], push_marker now mk t)"
| "tracker_step lower (OpOverride now s r secs) t = ([], set_override now s r secs t)"
| "tracker_step lower OpSeen t = ([], mark_seen t)"
| "tracker_step lower (OpTick fg clk alive) t =
     (let (changed, t') = tick_tracker lower (\<lambda>_. fg) clk alive t
      in (if changed then [t_state t'] else [], t'))"

fun tracker_run :: "(bytes \<Rightarrow> bytes) \<Rightarrow> tracker_op list \<Rightarrow> tracker \<Rightarrow> pane_state_kind list \<times> tracker" where
  "tracker_run lower [] t = ([], t)"
| "tracker_run lower (x # ops) t =
     (let (evs, t') = tracker_step lower x t; (evs', t'') = tracker_run lower ops t'
      in (evs @ evs', t''))"

section \<open>Lemmas\<close>

text \<open>Everything an evaluation does is one \<open>apply_state\<close> on a tracker with the same past.\<close>

lemma apply_state_state [simp]: "t_state (snd (apply_state s r t)) = s"
  by (simp add: apply_state_def Let_def)

lemma apply_state_changed [simp]: "fst (apply_state s r t) \<longleftrightarrow> t_state t \<noteq> s"
  by (simp add: apply_state_def Let_def)

lemma apply_state_override [simp]:
  "t_override_until (snd (apply_state s r t)) = t_override_until t"
  "t_overridden_state (snd (apply_state s r t)) = t_overridden_state t"
  "t_overridden_reason (snd (apply_state s r t)) = t_overridden_reason t"
  by (simp_all add: apply_state_def Let_def)

lemma apply_state_inputs [simp]:
  "t_root_pid (snd (apply_state s r t)) = t_root_pid t"
  "t_last_marker (snd (apply_state s r t)) = t_last_marker t"
  by (simp_all add: apply_state_def Let_def)

lemma ex_if:
  "(c \<Longrightarrow> \<exists>s r. x = f s r) \<Longrightarrow> (\<not> c \<Longrightarrow> \<exists>s r. y = f s r) \<Longrightarrow> \<exists>s r. (if c then x else y) = f s r"
  by simp

lemma evaluate_rules_apply: "\<exists>s r. evaluate_rules clk alive t = apply_state s r t"
  unfolding evaluate_rules_def by (intro ex_if) (rule exI, rule exI, rule refl)+

lemma evaluate_apply:
  "\<exists>s r t'. evaluate clk alive t = apply_state s r t' \<and> t_state t' = t_state t \<and> t_watch t' = t_watch t
     \<and> t_seen t' = t_seen t"
proof (cases "t_override_until t")
  case None
  then show ?thesis using evaluate_rules_apply [of clk alive t] by (auto simp: evaluate_def)
next
  case (Some until)
  let ?t = "t\<lparr>t_override_until := None, t_overridden_state := None, t_overridden_reason := None\<rparr>"
  obtain s r where "evaluate_rules clk alive ?t = apply_state s r ?t"
    using evaluate_rules_apply by blast
  then have "\<not> clk 0 < until \<Longrightarrow> evaluate clk alive t = apply_state s r ?t"
    using Some by (simp add: evaluate_def)
  moreover have "clk 0 < until \<Longrightarrow> \<exists>s r. evaluate clk alive t = apply_state s r t"
    using Some by (simp add: evaluate_def) blast
  moreover have "t_state ?t = t_state t" "t_watch ?t = t_watch t" "t_seen ?t = t_seen t" by simp_all
  ultimately show ?thesis by metis
qed

text \<open>The invariant of a run, as a property of one step.\<close>

definition watch_agrees :: "tracker \<Rightarrow> bool" where
  "watch_agrees t \<longleftrightarrow> wc_value (t_watch t) = t_state t"

lemma tick_step:
  assumes "tick_tracker lower fgf clk alive t = (changed, t')" "watch_agrees t"
  shows "watch_agrees t' \<and> (changed \<longleftrightarrow> t_state t' \<noteq> t_state t)
    \<and> wc_version (t_watch t') = wc_version (t_watch t) + (if changed then 1 else 0)
    \<and> (\<not> t_seen t' \<longrightarrow> \<not> t_seen t \<or> (changed \<and> t_state t' = Done))
    \<and> (changed \<and> t_state t' = Done \<longrightarrow> \<not> t_seen t')"
proof -
  obtain u where u: "tick_tracker lower fgf clk alive t = evaluate clk alive u"
    and eq: "t_state u = t_state t" "t_watch u = t_watch t" "t_seen u = t_seen t"
    by (auto simp: tick_tracker_def Let_def split: option.split)
  obtain s r u' where "evaluate clk alive u = apply_state s r u'"
    and "t_state u' = t_state u" "t_watch u' = t_watch u" "t_seen u' = t_seen u"
    using evaluate_apply by blast
  then show ?thesis using assms u eq
    by (auto simp: watch_agrees_def apply_state_def Let_def split: if_splits)
qed

lemma tracker_step_inv:
  assumes "tracker_step lower x t = (evs, t')" "watch_agrees t"
  shows "watch_agrees t'" "distinct_adj (t_state t # evs)" "last (t_state t # evs) = t_state t'"
    "wc_version (t_watch t') = wc_version (t_watch t) + length evs"
    "\<not> t_seen t' \<Longrightarrow> \<not> t_seen t \<or> Done \<in> set evs"
proof -
  have "watch_agrees t' \<and> distinct_adj (t_state t # evs) \<and> last (t_state t # evs) = t_state t'
    \<and> wc_version (t_watch t') = wc_version (t_watch t) + length evs
    \<and> (\<not> t_seen t' \<longrightarrow> \<not> t_seen t \<or> Done \<in> set evs)"
  proof (cases x)
    case (OpTick fg clk alive)
    obtain changed u where tt: "tick_tracker lower (\<lambda>_. fg) clk alive t = (changed, u)" by fastforce
    then have eq: "t' = u" "evs = (if changed then [t_state u] else [])" using assms(1) OpTick by simp_all
    show ?thesis using tick_step [OF tt assms(2)] eq by (cases changed) auto
  qed (use assms in \<open>auto simp: watch_agrees_def touch_output_def push_marker_def set_override_def
         mark_seen_def Let_def split: osc133_marker.splits\<close>)
  then show "watch_agrees t'" "distinct_adj (t_state t # evs)" "last (t_state t # evs) = t_state t'"
    "wc_version (t_watch t') = wc_version (t_watch t) + length evs"
    "\<not> t_seen t' \<Longrightarrow> \<not> t_seen t \<or> Done \<in> set evs" by blast+
qed

lemma distinct_adj_glue:
  "distinct_adj (a # xs) \<Longrightarrow> distinct_adj (last (a # xs) # ys) \<Longrightarrow> distinct_adj (a # xs @ ys)"
  by (induction xs arbitrary: a) auto

lemma tracker_run_inv:
  assumes "tracker_run lower ops t = (evs, t')" "watch_agrees t"
  shows "watch_agrees t' \<and> distinct_adj (t_state t # evs) \<and> last (t_state t # evs) = t_state t'
    \<and> wc_version (t_watch t') = wc_version (t_watch t) + length evs
    \<and> (\<not> t_seen t' \<longrightarrow> \<not> t_seen t \<or> Done \<in> set evs)"
  using assms
proof (induction ops arbitrary: t evs)
  case Nil
  then show ?case by simp
next
  case (Cons x ops)
  obtain e1 u e2 where step: "tracker_step lower x t = (e1, u)" and run: "tracker_run lower ops u = (e2, t')"
    and evs: "evs = e1 @ e2"
    using Cons.prems(1) by (auto simp: Let_def split: prod.splits)
  note one = tracker_step_inv [OF step Cons.prems(2)]
  have "distinct_adj (t_state t # e1 @ e2)"
    using distinct_adj_glue [OF one(2)] Cons.IH [OF run one(1)] one(3) by auto
  moreover have "last (t_state t # e1 @ e2) = t_state t'"
    using Cons.IH [OF run one(1)] one(3) by (cases e2) auto
  ultimately show ?case using Cons.IH [OF run one(1)] one evs by auto
qed





text \<open>The rules on a live pane whose foreground program is not interactive.\<close>

definition live :: "(u32 \<Rightarrow> bool) \<Rightarrow> tracker \<Rightarrow> bool" where
  "live alive t \<longleftrightarrow> t_root_pid t = 0 \<or> alive (t_root_pid t)"

lemma live_rules:
  assumes "live alive t" "t_override_until t = None" "fg_base t \<notin> set interactive_set"
  shows "t_state (snd (evaluate clk alive t)) =
    (if at_prompt t \<and> clk 1 - t_last_output_at t > from_secs 2 \<and> is_shell (fg_base t) then WaitingInput
     else if t_agent t \<notin> {Unknown, Shell} \<and> clk 2 - t_last_output_at t > from_secs agent_idle_secs then WaitingInput
     else if (case t_last_d_at t of None \<Rightarrow> False
              | Some d \<Rightarrow> clk 3 - d > from_secs 5 \<and> t_last_output_at t < d + from_secs 1) then Idle
     else Running)"
proof -
  have dead: "(t_root_pid t > 0 \<and> \<not> alive (t_root_pid t)) = False"
    using assms(1) by (auto simp: live_def word_gt_0)
  show ?thesis using assms(2,3) unfolding evaluate_def evaluate_rules_def dead by simp
qed

section \<open>Properties\<close>

text \<open>
  C22. Reported transitions: along every run of a tracker, from its creation, in whatever
  order output, markers, overrides, acknowledgements and engine ticks arrive, the engine
  reports exactly the changes of state: no report repeats the state before it, the last
  report is the current state, the watch channel holds the current state and has been sent
  one value per report, and a pane is unseen only after a reported \<open>Done\<close>.
\<close>

theorem reported_states_are_the_transitions:
  assumes "tracker_run lower ops (tracker_new now pid) = (evs, t)"
  shows "distinct_adj (Running # evs)
    \<and> last (Running # evs) = t_state t
    \<and> wc_value (t_watch t) = t_state t
    \<and> wc_version (t_watch t) = length evs
    \<and> (\<not> t_seen t \<longrightarrow> Done \<in> set evs)"
  using tracker_run_inv [OF assms] by (auto simp: watch_agrees_def tracker_new_def)

theorem reported_states_are_the_transitions_witness:
  "let ops = [OpMarker 0 (MD (Some 0)), OpTick None (\<lambda>_. 6000000000) (\<lambda>_. True), OpTick None (\<lambda>_. 7000000000) (\<lambda>_. False)]
   in fst (tracker_run id ops (tracker_new 0 7)) = [Idle, Done] \<and> distinct_adj (Running # fst (tracker_run id ops (tracker_new 0 7)))"
proof -
  let ?ops = "[OpMarker 0 (MD (Some 0)), OpTick None (\<lambda>_. 6000000000) (\<lambda>_. True), OpTick None (\<lambda>_. 7000000000) (\<lambda>_. False)]"
  have "fst (tracker_run id ?ops (tracker_new 0 7)) = [Idle, Done]"
    by (simp add: tracker_new_def push_marker_def tick_tracker_def evaluate_def evaluate_rules_def apply_state_def
        fg_base_def base_name_def interactive_set_def at_prompt_def from_secs_def last_exit_def)
  then show ?thesis
    using reported_states_are_the_transitions [OF surjective_pairing, of id ?ops 0 7, THEN conjunct1] by simp
qed



text \<open>
  C31. Agents: a live pane whose foreground program is a known coding agent (and not one of
  the interactive programs), with no override, is \<open>WaitingInput\<close> at the first evaluation
  more than 15 seconds after its last output, and \<open>Running\<close> again at every evaluation
  within 2 seconds of new output, whatever markers it has sent: a false alarm during a long
  silent computation heals with the next byte.
\<close>

theorem agent_waits_and_heals:
  assumes "live alive t" "t_override_until t = None" "fg_base t \<notin> set interactive_set"
    and "t_agent t \<notin> {Unknown, Shell}"
    and "clk 2 > t_last_output_at t + from_secs 15"
    and "\<forall>i. now \<le> clk' i \<and> clk' i \<le> now + from_secs 2"
  shows "t_state (snd (evaluate clk alive t)) = WaitingInput
    \<and> t_state (snd (evaluate clk' alive (touch_output now (snd (evaluate clk alive t))))) = Running"
proof (rule conjI)
  show w: "t_state (snd (evaluate clk alive t)) = WaitingInput"
    using assms(4,5) by (auto simp: live_rules [OF assms(1-3)] agent_idle_secs_def)
  let ?u = "touch_output now (snd (evaluate clk alive t))"
  obtain s r where e: "evaluate clk alive t = apply_state s r t"
    using evaluate_rules_apply [of clk alive t] assms(2) by (auto simp: evaluate_def)
  have "live alive ?u" "t_override_until ?u = None" "fg_base ?u \<notin> set interactive_set"
    using assms(1-3) e by (auto simp: live_def touch_output_def fg_base_def apply_state_def Let_def)
  moreover have "t_last_output_at ?u = now" by (simp add: touch_output_def)
  moreover have "clk' 1 - now \<le> from_secs 2" "clk' 2 - now \<le> from_secs 2" "clk' 3 \<le> now + from_secs 2"
    using assms(6) by (simp_all add: le_diff_conv add.commute)
  ultimately show "t_state (snd (evaluate clk' alive ?u)) = Running"
    by (auto simp: live_rules from_secs_def agent_idle_secs_def split: option.split)
qed

theorem agent_waits_and_heals_witness:
  "let t = (tracker_new 0 7)\<lparr>t_foreground_cmd := Some ''claude'', t_agent := ClaudeCode\<rparr>
   in t_state (snd (evaluate (\<lambda>_. 16000000000) (\<lambda>_. True) t)) = WaitingInput"
  using agent_waits_and_heals [of "\<lambda>_. True" "(tracker_new 0 7)\<lparr>t_foreground_cmd := Some ''claude'', t_agent := ClaudeCode\<rparr>"
       "\<lambda>_. 16000000000" 17000000000 "\<lambda>_. 18000000000", THEN conjunct1]
  by (simp add: live_def tracker_new_def fg_base_def base_name_def interactive_set_def from_secs_def)

text \<open>
  Death of the process: when the root process is dead and no override is in force, the
  pane is \<open>Crashed\<close> if the last marker is an end marker with a non-zero exit code and
  \<open>Done\<close> otherwise, whatever the foreground, agent and timing; a change to \<open>Done\<close> clears
  \<open>seen\<close>; and a second evaluation changes nothing, so the end is reported once.
\<close>

theorem dead_pane_is_done_or_crashed:
  assumes "t_root_pid t > 0" "\<not> alive (t_root_pid t)" "t_override_until t = None"
    and "evaluate clk alive t = (changed, t')"
  shows "t_state t' = (case t_last_marker t of Some (MD (Some c)) \<Rightarrow> if c \<noteq> 0 then Crashed else Done | _ \<Rightarrow> Done)
    \<and> (changed \<and> t_state t' = Done \<longrightarrow> \<not> t_seen t')
    \<and> evaluate clk' alive t' = (False, t')"
proof (rule conjI [OF _ conjI [OF impI]])
  let ?s = "case t_last_marker t of Some (MD (Some c)) \<Rightarrow> if c \<noteq> 0 then Crashed else Done | _ \<Rightarrow> Done"
  have any: "\<exists>r. evaluate c alive u = apply_state ?s r u"
    if "t_root_pid u = t_root_pid t" "t_last_marker u = t_last_marker t" "t_override_until u = None" for u c
    using that assms(1,2)
    by (auto simp: evaluate_def evaluate_rules_def last_exit_def split: option.split osc133_marker.split)
  obtain r where r: "apply_state ?s r t = (changed, t')" using any [of t clk] assms(3,4) by auto
  then have st: "t_state t' = ?s" and rest: "t_root_pid t' = t_root_pid t" "t_last_marker t' = t_last_marker t"
    "t_override_until t' = None"
    using apply_state_state [of ?s r t] apply_state_inputs [of ?s r t] apply_state_override [of ?s r t] assms(3)
    by (simp_all del: apply_state_state apply_state_inputs apply_state_override)
  show "t_state t' = ?s" by (rule st)
  show "\<not> t_seen t'" if "changed \<and> t_state t' = Done"
    using r that st by (auto simp: apply_state_def Let_def split: if_splits)
  obtain r' where "evaluate clk' alive t' = apply_state ?s r' t'" using any [OF rest] by blast
  then show "evaluate clk' alive t' = (False, t')" using st by (simp add: apply_state_def)
qed

theorem dead_pane_is_done_or_crashed_witness:
  "evaluate (\<lambda>_. 9) (\<lambda>_. False) (snd (evaluate (\<lambda>_. 8) (\<lambda>_. False) (push_marker 3 (MD (Some 2)) (tracker_new 0 7))))
    = (False, snd (evaluate (\<lambda>_. 8) (\<lambda>_. False) (push_marker 3 (MD (Some 2)) (tracker_new 0 7))))"
  using dead_pane_is_done_or_crashed [of "push_marker 3 (MD (Some 2)) (tracker_new 0 7)" "\<lambda>_. False" "\<lambda>_. 8"
        "fst (evaluate (\<lambda>_. 8) (\<lambda>_. False) (push_marker 3 (MD (Some 2)) (tracker_new 0 7)))"
        "snd (evaluate (\<lambda>_. 8) (\<lambda>_. False) (push_marker 3 (MD (Some 2)) (tracker_new 0 7)))" "\<lambda>_. 9", THEN conjunct2, THEN conjunct2]
  by (simp add: push_marker_def tracker_new_def)

text \<open>
  The two lists of shells disagree: a pane whose foreground program is \<open>nu\<close> is
  classified as a shell by the agent detector, but no sequence of evaluations without an
  override ever shows it as \<open>WaitingInput\<close>, however long it sits at its prompt.
\<close>

theorem nushell_never_waits:
  assumes "fg_base t = ''nu''" "lower (str_trim ''nu'') = ''nu''" "t_override_until t = None"
    and "t_agent t = classify_foreground lower ''nu''"
  shows "t_agent t = Shell" and "t_state (snd (evaluate clk alive t)) \<noteq> WaitingInput"
proof -
  have "agent_base lower ''nu'' = ''nu''" by (simp add: agent_base_def assms(2) strip_suffix_def)
  then show a: "t_agent t = Shell" using assms(4) by (simp add: classify_foreground_def)
  show "t_state (snd (evaluate clk alive t)) \<noteq> WaitingInput"
    using a assms(1,3)
    by (simp add: evaluate_def evaluate_rules_def is_shell_def shell_set_def)
qed

theorem nushell_never_waits_witness:
  "t_state (snd (evaluate (\<lambda>_. 99000000000) (\<lambda>_. True)
     ((push_marker 1 MA (tracker_new 0 7))\<lparr>t_foreground_cmd := Some ''/usr/bin/nu'', t_agent := Shell\<rparr>))) \<noteq> WaitingInput"
proof -
  have nu: "''nu'' = encode_string [110, 117]"
    by (simp add: encode_string_def encode_utf8_def utf8_codes_def char_of_def bit_iff_odd)
  have tr: "str_trim ''nu'' = ''nu''"
    unfolding nu by (simp add: str_trim_def trim_end_scalars_def is_whitespace_def is_scalar_def del: encode_string_simps)
  have "classify_foreground id ''nu'' = Shell"
    by (simp add: classify_foreground_def agent_base_def tr strip_suffix_def)
  then show ?thesis
    using nushell_never_waits(2)
      [of "(push_marker 1 MA (tracker_new 0 7))\<lparr>t_foreground_cmd := Some ''/usr/bin/nu'', t_agent := Shell\<rparr>" id
         "\<lambda>_. 99000000000" "\<lambda>_. True"]
    by (simp add: tr fg_base_def base_name_def push_marker_def tracker_new_def)
qed

text \<open>
  The reason of an override is lost when the state does not change: a client that
  declares the state the pane already has, with a new reason, leaves the visible reason as
  it was for the whole window.
\<close>

theorem override_reason_lost_when_state_equal:
  assumes "clk 0 < now + from_secs (unat secs)"
  shows "evaluate clk alive (set_override now (t_state t) r secs t) = (False, set_override now (t_state t) r secs t)
    \<and> t_reason (set_override now (t_state t) r secs t) = t_reason t"
  using assms by (simp add: evaluate_def set_override_def apply_state_def)

theorem override_reason_lost_when_state_equal_witness:
  "evaluate (\<lambda>_. 1) (\<lambda>_. True) (set_override 0 (t_state (tracker_new 0 7)) ''building'' 30 (tracker_new 0 7))
    = (False, set_override 0 (t_state (tracker_new 0 7)) ''building'' 30 (tracker_new 0 7))
   \<and> t_reason (set_override 0 (t_state (tracker_new 0 7)) ''building'' 30 (tracker_new 0 7)) = t_reason (tracker_new 0 7)"
  using override_reason_lost_when_state_equal [of "\<lambda>_. 1" 0 30 "\<lambda>_. True" "tracker_new 0 7" "''building''"]
  by (simp add: from_secs_def)

end
