(* ===== verification/Block_Store.thy ===== *)
theory Block_Store
  imports Pyre_Proto Layout Utf8
begin

text \<open>
  The persistent store of \<^verbatim>\<open>crates/pyred/src/store.rs\<close>: four SQLite tables as lists of rows in
  insertion order, the SQL statements as functions on them, and the compressed output blobs.
  Every statement can fail: a store carries a schedule of faults, one entry per statement
  (\<open>True\<close>: this statement fails without effect; an exhausted schedule never fails), so an
  operation of several statements has all its partial outcomes. Third-party encodings (UUID
  text, layout JSON, chrono's range of timestamps, zstd) are the fields of a \<open>codec\<close>.
\<close>

section \<open>Tables\<close>

record session_row =
  srow_id :: string
  srow_name :: string
  srow_created_at :: int
  srow_last_active_at :: int
  srow_layout :: "string option"

record pane_row =
  prow_id :: string
  prow_session_id :: string
  prow_argv :: string
  prow_cwd :: "string option"
  prow_cols :: int
  prow_rows :: int
  prow_created_at :: int
  prow_closed_at :: "int option"
  prow_name :: "string option"
  prow_window_id :: "string option"

record block_row =
  brow_id :: string
  brow_pane_id :: string
  brow_session_id :: string
  brow_command :: string
  brow_started_at :: int
  brow_ended_at :: "int option"
  brow_exit_code :: "int option"
  brow_cwd :: "string option"
  brow_stdout_blob_path :: string
  brow_stdout_len :: int

record window_row =
  wrow_id :: string
  wrow_session_id :: string
  wrow_name :: string
  wrow_layout :: "string option"
  wrow_position :: int
  wrow_created_at :: int

record db =
  d_sessions :: "session_row list"
  d_panes :: "pane_row list"
  d_blocks :: "block_row list"
  d_windows :: "window_row list"
  d_has_windows :: bool

text \<open>
  A blob file under \<^verbatim>\<open>blocks/\<close>: bytes accepted by an encoder that has not finished, or a
  finished zstd frame.
\<close>

datatype blob_file = Unfinished bytes | Frame bytes

record store =
  st_db :: db
  st_data_dir :: string
  st_files :: "string \<rightharpoonup> blob_file"
  st_backups :: "db list"
  st_faults :: "bool list"

datatype store_error = SqlError | UniqueViolation | BadUuid | JsonError | IoError

record codec =
  cd_show :: "uuid \<Rightarrow> string"
  cd_parse :: "string \<Rightarrow> uuid option"
  cd_layout_json :: "layout_node \<Rightarrow> string option"
  cd_layout_parse :: "string \<Rightarrow> layout_node option"
  cd_millis :: "int \<Rightarrow> int option"
  cd_unzip :: "blob_file \<Rightarrow> bytes option"

text \<open>What the code relies on of these libraries.\<close>

definition codec_ok :: "codec \<Rightarrow> bool" where
  "codec_ok U \<longleftrightarrow>
     (\<forall>u. cd_parse U (cd_show U u) = Some u)
     \<and> (\<forall>b. cd_unzip U (Frame b) = Some b)"

section \<open>Statements\<close>

type_synonym 'a io = "store \<Rightarrow> (store_error + 'a) \<times> store"

definition next_fault :: "store \<Rightarrow> bool \<times> store" where
  "next_fault st = (case st_faults st of [] \<Rightarrow> (False, st) | b # bs \<Rightarrow> (b, st\<lparr>st_faults := bs\<rparr>))"

definition query :: "(db \<Rightarrow> (store_error + 'a) \<times> db) \<Rightarrow> 'a io" where
  "query f st =
     (let (fault, st') = next_fault st
      in if fault then (Inl SqlError, st')
         else (let (r, d) = f (st_db st') in (r, st'\<lparr>st_db := d\<rparr>)))"

definition execute :: "(db \<Rightarrow> db) \<Rightarrow> unit io" where
  "execute f = query (\<lambda>d. (Inr (), f d))"

definition fetch :: "(db \<Rightarrow> 'a) \<Rightarrow> 'a io" where
  "fetch f = query (\<lambda>d. (Inr (f d), d))"

definition ok :: "'a \<Rightarrow> 'a io" where
  "ok x st = (Inr x, st)"

definition err :: "store_error \<Rightarrow> 'a io" where
  "err e st = (Inl e, st)"

definition and_then :: "'a io \<Rightarrow> ('a \<Rightarrow> 'b io) \<Rightarrow> 'b io" where
  "and_then m k st = (case m st of (Inl e, st') \<Rightarrow> (Inl e, st') | (Inr x, st') \<Rightarrow> k x st')"

fun for_each :: "('x \<Rightarrow> unit io) \<Rightarrow> 'x list \<Rightarrow> unit io" where
  "for_each body [] = ok ()"
| "for_each body (x # xs) = and_then (body x) (\<lambda>_. for_each body xs)"

text \<open>The SQL fragments the store uses, on any table with a primary key.\<close>

definition update_where :: "('r \<Rightarrow> bool) \<Rightarrow> ('r \<Rightarrow> 'r) \<Rightarrow> 'r list \<Rightarrow> 'r list" where
  "update_where P f rows = map (\<lambda>r. if P r then f r else r) rows"

definition insert_or_ignore :: "('r \<Rightarrow> string) \<Rightarrow> 'r \<Rightarrow> 'r list \<Rightarrow> 'r list" where
  "insert_or_ignore key new rows = (if key new \<in> set (map key rows) then rows else rows @ [new])"

definition insert_on_conflict :: "('r \<Rightarrow> string) \<Rightarrow> ('r \<Rightarrow> 'r) \<Rightarrow> 'r \<Rightarrow> 'r list \<Rightarrow> 'r list" where
  "insert_on_conflict key upd new rows =
     (if key new \<in> set (map key rows) then update_where (\<lambda>r. key r = key new) upd rows else rows @ [new])"

definition find_row :: "('r \<Rightarrow> string) \<Rightarrow> string \<Rightarrow> 'r list \<Rightarrow> 'r option" where
  "find_row key k rows = find (\<lambda>r. key r = k) rows"

section \<open>Sessions\<close>

definition upsert_session :: "codec \<Rightarrow> int \<Rightarrow> session_id \<Rightarrow> string \<Rightarrow> unit io" where
  "upsert_session U now sid name =
     execute (\<lambda>d. d\<lparr>d_sessions :=
       insert_on_conflict srow_id (\<lambda>r. r\<lparr>srow_last_active_at := now, srow_name := name\<rparr>)
         \<lparr>srow_id = cd_show U (session_uuid sid), srow_name = name, srow_created_at = now,
          srow_last_active_at = now, srow_layout = None\<rparr> (d_sessions d)\<rparr>)"

definition upsert_session_layout :: "codec \<Rightarrow> session_id \<Rightarrow> string \<Rightarrow> unit io" where
  "upsert_session_layout U sid json =
     execute (\<lambda>d. d\<lparr>d_sessions :=
       update_where (\<lambda>r. srow_id r = cd_show U (session_uuid sid)) (\<lambda>r. r\<lparr>srow_layout := Some json\<rparr>) (d_sessions d)\<rparr>)"

definition get_session_layout_json :: "codec \<Rightarrow> session_id \<Rightarrow> string option io" where
  "get_session_layout_json U sid =
     fetch (\<lambda>d. Option.bind (find_row srow_id (cd_show U (session_uuid sid)) (d_sessions d)) srow_layout)"

text \<open>\<open>ORDER BY\<close> leaves the order of equal keys open; the model keeps insertion order there.\<close>

definition sessions_by_age :: "db \<Rightarrow> session_row list" where
  "sessions_by_age d = sort_key srow_created_at (d_sessions d)"

definition list_session_layouts :: "codec \<Rightarrow> (session_id \<times> string option) list io" where
  "list_session_layouts U =
     fetch (\<lambda>d. List.map_filter
       (\<lambda>r. map_option (\<lambda>u. (SessionId u, srow_layout r)) (cd_parse U (srow_id r))) (sessions_by_age d))"

definition get_session_name :: "codec \<Rightarrow> session_id \<Rightarrow> string option io" where
  "get_session_name U sid =
     fetch (\<lambda>d. map_option srow_name (find_row srow_id (cd_show U (session_uuid sid)) (d_sessions d)))"

definition list_session_ids :: "codec \<Rightarrow> session_id list io" where
  "list_session_ids U =
     fetch (\<lambda>d. List.map_filter (\<lambda>r. map_option SessionId (cd_parse U (srow_id r))) (sessions_by_age d))"

section \<open>Panes\<close>

definition upsert_pane ::
  "codec \<Rightarrow> int \<Rightarrow> pane_id \<Rightarrow> session_id \<Rightarrow> string \<Rightarrow> string option \<Rightarrow> u16 \<Rightarrow> u16 \<Rightarrow> unit io" where
  "upsert_pane U now pid sid argv cwd cols rows =
     execute (\<lambda>d. d\<lparr>d_panes :=
       insert_on_conflict prow_id
         (\<lambda>r. r\<lparr>prow_cwd := cwd, prow_cols := uint cols, prow_rows := uint rows\<rparr>)
         \<lparr>prow_id = cd_show U (pane_uuid pid), prow_session_id = cd_show U (session_uuid sid), prow_argv = argv,
          prow_cwd = cwd, prow_cols = uint cols, prow_rows = uint rows, prow_created_at = now,
          prow_closed_at = None, prow_name = None, prow_window_id = None\<rparr> (d_panes d)\<rparr>)"

definition stub_pane :: "codec \<Rightarrow> int \<Rightarrow> pane_id \<Rightarrow> session_id \<Rightarrow> pane_row" where
  "stub_pane U now pid sid =
     \<lparr>prow_id = cd_show U (pane_uuid pid), prow_session_id = cd_show U (session_uuid sid), prow_argv = [],
      prow_cwd = None, prow_cols = 0, prow_rows = 0, prow_created_at = now, prow_closed_at = None,
      prow_name = None, prow_window_id = None\<rparr>"

definition rename_pane :: "codec \<Rightarrow> int \<Rightarrow> pane_id \<Rightarrow> session_id \<Rightarrow> string \<Rightarrow> unit io" where
  "rename_pane U now pid sid name =
     and_then (execute (\<lambda>d. d\<lparr>d_panes := insert_or_ignore prow_id (stub_pane U now pid sid) (d_panes d)\<rparr>))
       (\<lambda>_. execute (\<lambda>d. d\<lparr>d_panes :=
          update_where (\<lambda>r. prow_id r = cd_show U (pane_uuid pid)) (\<lambda>r. r\<lparr>prow_name := Some name\<rparr>) (d_panes d)\<rparr>))"

definition non_empty :: "string option \<Rightarrow> string option" where
  "non_empty n = (case n of Some (c # cs) \<Rightarrow> Some (c # cs) | _ \<Rightarrow> None)"

definition get_pane_name :: "codec \<Rightarrow> pane_id \<Rightarrow> string option io" where
  "get_pane_name U pid =
     fetch (\<lambda>d. Option.bind (find_row prow_id (cd_show U (pane_uuid pid)) (d_panes d)) (\<lambda>r. non_empty (prow_name r)))"

definition assign_pane_window :: "codec \<Rightarrow> int \<Rightarrow> pane_id \<Rightarrow> session_id \<Rightarrow> window_id \<Rightarrow> unit io" where
  "assign_pane_window U now pid sid wid =
     and_then (execute (\<lambda>d. d\<lparr>d_panes := insert_or_ignore prow_id (stub_pane U now pid sid) (d_panes d)\<rparr>))
       (\<lambda>_. execute (\<lambda>d. d\<lparr>d_panes :=
          update_where (\<lambda>r. prow_id r = cd_show U (pane_uuid pid))
            (\<lambda>r. r\<lparr>prow_window_id := Some (cd_show U (window_uuid wid))\<rparr>) (d_panes d)\<rparr>))"

definition list_panes_for_window :: "codec \<Rightarrow> window_id \<Rightarrow> pane_id list io" where
  "list_panes_for_window U wid =
     fetch (\<lambda>d. List.map_filter (\<lambda>r. map_option PaneId (cd_parse U (prow_id r)))
       (filter (\<lambda>r. prow_window_id r = Some (cd_show U (window_uuid wid))) (d_panes d)))"

section \<open>Blocks\<close>

text \<open>\<open>timestamp_millis\<close> rounds a timestamp in nanoseconds down to milliseconds.\<close>

definition timestamp_millis :: "int \<Rightarrow> int" where
  "timestamp_millis ns = ns div 1000000"

definition blob_path_for :: "codec \<Rightarrow> string \<Rightarrow> block_id \<Rightarrow> string" where
  "blob_path_for U data_dir bid = data_dir @ ''/blocks/'' @ cd_show U (block_uuid bid) @ ''.zst''"

definition new_block_row :: "codec \<Rightarrow> string \<Rightarrow> block \<Rightarrow> block_row" where
  "new_block_row U data_dir b =
     \<lparr>brow_id = cd_show U (block_uuid (blk_id b)), brow_pane_id = cd_show U (pane_uuid (blk_pane b)),
      brow_session_id = cd_show U (session_uuid (blk_session b)), brow_command = blk_command b,
      brow_started_at = timestamp_millis (blk_started_at b), brow_ended_at = None, brow_exit_code = None,
      brow_cwd = blk_cwd b, brow_stdout_blob_path = blob_path_for U data_dir (blk_id b), brow_stdout_len = 0\<rparr>"

text \<open>A plain \<open>INSERT\<close> fails on a repeated primary key.\<close>

definition insert_block_row :: "block_row \<Rightarrow> unit io" where
  "insert_block_row new =
     query (\<lambda>d. if brow_id new \<in> set (map brow_id (d_blocks d)) then (Inl UniqueViolation, d)
                else (Inr (), d\<lparr>d_blocks := d_blocks d @ [new]\<rparr>))"

definition create_block :: "codec \<Rightarrow> block \<Rightarrow> unit io" where
  "create_block U b st = insert_block_row (new_block_row U (st_data_dir st) b) st"

definition finalize_block :: "codec \<Rightarrow> block_id \<Rightarrow> int \<Rightarrow> int option \<Rightarrow> u64 \<Rightarrow> unit io" where
  "finalize_block U bid ended_at exit_code stdout_len =
     execute (\<lambda>d. d\<lparr>d_blocks :=
       update_where (\<lambda>r. brow_id r = cd_show U (block_uuid bid))
         (\<lambda>r. r\<lparr>brow_ended_at := Some (timestamp_millis ended_at), brow_exit_code := exit_code,
                brow_stdout_len := sint stdout_len\<rparr>) (d_blocks d)\<rparr>)"

text \<open>
  \<open>row_to_block\<close>: a malformed identifier is an error; a start time outside chrono's range
  reads as the current time, an end time outside it as missing.
\<close>

definition row_to_block :: "codec \<Rightarrow> int \<Rightarrow> block_row \<Rightarrow> store_error + block" where
  "row_to_block U now r =
     (case (cd_parse U (brow_id r), cd_parse U (brow_pane_id r), cd_parse U (brow_session_id r)) of
        (Some i, Some p, Some s) \<Rightarrow>
          Inr \<lparr>blk_id = BlockId i, blk_pane = PaneId p, blk_session = SessionId s,
               blk_command = brow_command r, blk_cwd = brow_cwd r,
               blk_started_at = (case cd_millis U (brow_started_at r) of Some t \<Rightarrow> t | None \<Rightarrow> now),
               blk_ended_at = Option.bind (brow_ended_at r) (cd_millis U),
               blk_exit_code = map_option (signed_take_bit 31) (brow_exit_code r),
               blk_stdout_len = word_of_int (max (brow_stdout_len r) 0)\<rparr>
      | _ \<Rightarrow> Inl BadUuid)"

fun collect :: "('x \<Rightarrow> store_error + 'y) \<Rightarrow> 'x list \<Rightarrow> store_error + 'y list" where
  "collect f [] = Inr []"
| "collect f (x # xs) =
     (case f x of Inl e \<Rightarrow> Inl e
      | Inr y \<Rightarrow> (case collect f xs of Inl e \<Rightarrow> Inl e | Inr ys \<Rightarrow> Inr (y # ys)))"

definition newest_first :: "nat \<Rightarrow> block_row list \<Rightarrow> block_row list" where
  "newest_first limit rows = take limit (sort_key (\<lambda>r. - brow_started_at r) rows)"

definition list_blocks :: "codec \<Rightarrow> int \<Rightarrow> session_id option \<Rightarrow> u32 \<Rightarrow> block list io" where
  "list_blocks U now session limit =
     query (\<lambda>d.
       (let rows = (case session of
                      Some s \<Rightarrow> filter (\<lambda>r. brow_session_id r = cd_show U (session_uuid s)) (d_blocks d)
                    | None \<Rightarrow> d_blocks d)
        in (collect (row_to_block U now) (newest_first (unat limit) rows), d)))"

definition list_blocks_for_pane :: "codec \<Rightarrow> int \<Rightarrow> pane_id \<Rightarrow> u32 \<Rightarrow> block list io" where
  "list_blocks_for_pane U now pane limit =
     query (\<lambda>d.
       (collect (row_to_block U now)
          (newest_first (unat limit) (filter (\<lambda>r. brow_pane_id r = cd_show U (pane_uuid pane)) (d_blocks d))), d))"

definition get_block :: "codec \<Rightarrow> int \<Rightarrow> block_id \<Rightarrow> block option io" where
  "get_block U now bid =
     query (\<lambda>d. (case find_row brow_id (cd_show U (block_uuid bid)) (d_blocks d) of
                   None \<Rightarrow> Inr None
                 | Some r \<Rightarrow> map_sum id Some (row_to_block U now r), d))"

definition count_blocks :: "u64 io" where
  "count_blocks = fetch (\<lambda>d. of_nat (length (d_blocks d)))"

section \<open>Output blobs\<close>

definition read_block_stdout :: "codec \<Rightarrow> block_id \<Rightarrow> bytes io" where
  "read_block_stdout U bid st =
     (case st_files st (blob_path_for U (st_data_dir st) bid) of
        None \<Rightarrow> (Inr [], st)
      | Some file \<Rightarrow> (case cd_unzip U file of None \<Rightarrow> (Inl IoError, st) | Some bs \<Rightarrow> (Inr bs, st)))"

text \<open>\<open>char::from\<close> of a byte is the scalar value with that number (Latin-1).\<close>

definition snippet_scalar :: "byte \<Rightarrow> scalar" where
  "snippet_scalar b = (if b = CHR 0x0A \<or> b = CHR 0x0D \<or> b = CHR 0x09 then 32 else of_char b)"

definition stdout_snippet :: "codec \<Rightarrow> block_id \<Rightarrow> nat \<Rightarrow> store \<Rightarrow> string" where
  "stdout_snippet U bid max_chars st =
     (case fst (read_block_stdout U bid st) of
        Inr bs \<Rightarrow> encode_string (take max_chars (map snippet_scalar bs))
      | Inl _ \<Rightarrow> [])"

text \<open>
  A blob writer is the path it writes to, the encoder while it is open (the bytes it
  accepted are in the file, unfinished) and the number of bytes. Opening and writing can
  fail like any I/O; both take their fault from the schedule.
\<close>

record blob_writer =
  bw_path :: string
  bw_open :: bool
  bw_len :: u64

definition io_step :: "(store \<Rightarrow> 'a \<times> store) \<Rightarrow> 'a io" where
  "io_step f st =
     (let (fault, st') = next_fault st
      in if fault then (Inl IoError, st') else (let (r, st'') = f st' in (Inr r, st'')))"

definition blob_open :: "string \<Rightarrow> blob_writer io" where
  "blob_open path =
     io_step (\<lambda>st. (\<lparr>bw_path = path, bw_open = True, bw_len = 0\<rparr>,
                    st\<lparr>st_files := (st_files st)(path \<mapsto> Unfinished [])\<rparr>))"

definition append_file :: "string \<Rightarrow> bytes \<Rightarrow> store \<Rightarrow> store" where
  "append_file path bs st =
     (case st_files st path of
        Some (Unfinished old) \<Rightarrow> st\<lparr>st_files := (st_files st)(path \<mapsto> Unfinished (old @ bs))\<rparr>
      | _ \<Rightarrow> st)"

definition blob_write :: "blob_writer \<Rightarrow> bytes \<Rightarrow> blob_writer io" where
  "blob_write w bs =
     (if bw_open w
      then io_step (\<lambda>st. (w\<lparr>bw_len := bw_len w + of_nat (length bs)\<rparr>, append_file (bw_path w) bs st))
      else ok w)"

definition finish_file :: "string \<Rightarrow> store \<Rightarrow> store" where
  "finish_file path st =
     (case st_files st path of
        Some (Unfinished bs) \<Rightarrow> st\<lparr>st_files := (st_files st)(path \<mapsto> Frame bs)\<rparr>
      | _ \<Rightarrow> st)"

definition blob_close :: "blob_writer \<Rightarrow> u64 io" where
  "blob_close w =
     (if bw_open w then io_step (\<lambda>st. (bw_len w, finish_file (bw_path w) st)) else ok (bw_len w))"

section \<open>Windows\<close>

definition upsert_window :: "codec \<Rightarrow> window_id \<Rightarrow> session_id \<Rightarrow> string \<Rightarrow> u32 \<Rightarrow> int \<Rightarrow> unit io" where
  "upsert_window U wid sid name pos created_at =
     execute (\<lambda>d. d\<lparr>d_windows :=
       insert_on_conflict wrow_id (\<lambda>r. r\<lparr>wrow_name := name, wrow_position := uint pos\<rparr>)
         \<lparr>wrow_id = cd_show U (window_uuid wid), wrow_session_id = cd_show U (session_uuid sid), wrow_name = name,
          wrow_layout = None, wrow_position = uint pos, wrow_created_at = created_at\<rparr> (d_windows d)\<rparr>)"

definition upsert_window_layout :: "codec \<Rightarrow> window_id \<Rightarrow> string \<Rightarrow> unit io" where
  "upsert_window_layout U wid json =
     execute (\<lambda>d. d\<lparr>d_windows :=
       update_where (\<lambda>r. wrow_id r = cd_show U (window_uuid wid)) (\<lambda>r. r\<lparr>wrow_layout := Some json\<rparr>) (d_windows d)\<rparr>)"

definition get_window_layout_json :: "codec \<Rightarrow> window_id \<Rightarrow> string option io" where
  "get_window_layout_json U wid =
     fetch (\<lambda>d. Option.bind (find_row wrow_id (cd_show U (window_uuid wid)) (d_windows d)) wrow_layout)"

text \<open>\<open>position.max(0) as u32\<close>.\<close>

definition position_u32 :: "int \<Rightarrow> u32" where
  "position_u32 p = word_of_int (max p 0)"

definition list_windows :: "codec \<Rightarrow> session_id \<Rightarrow> (window_id \<times> string \<times> u32) list io" where
  "list_windows U sid =
     fetch (\<lambda>d. List.map_filter
       (\<lambda>r. map_option (\<lambda>u. (WindowId u, wrow_name r, position_u32 (wrow_position r))) (cd_parse U (wrow_id r)))
       (sort_key wrow_position (filter (\<lambda>r. wrow_session_id r = cd_show U (session_uuid sid)) (d_windows d))))"

definition rename_window :: "codec \<Rightarrow> window_id \<Rightarrow> string \<Rightarrow> unit io" where
  "rename_window U wid name =
     execute (\<lambda>d. d\<lparr>d_windows :=
       update_where (\<lambda>r. wrow_id r = cd_show U (window_uuid wid)) (\<lambda>r. r\<lparr>wrow_name := name\<rparr>) (d_windows d)\<rparr>)"

definition get_window_name :: "codec \<Rightarrow> window_id \<Rightarrow> string option io" where
  "get_window_name U wid =
     fetch (\<lambda>d. Option.bind (find_row wrow_id (cd_show U (window_uuid wid)) (d_windows d))
                  (\<lambda>r. non_empty (Some (wrow_name r))))"

definition delete_window :: "codec \<Rightarrow> window_id \<Rightarrow> unit io" where
  "delete_window U wid =
     execute (\<lambda>d. d\<lparr>d_windows := filter (\<lambda>r. wrow_id r \<noteq> cd_show U (window_uuid wid)) (d_windows d)\<rparr>)"

section \<open>Opening the store\<close>

text \<open>
  \<open>backfill_windows\<close>. \<open>fresh i k\<close> is the window identifier drawn for the k-th window of the
  i-th session (0 is the default window), \<open>now i\<close> the time read for that session.
\<close>

definition tree_panes :: "codec \<Rightarrow> string option \<Rightarrow> pane_id list" where
  "tree_panes U layout_json =
     (case layout_json of
        None \<Rightarrow> []
      | Some json \<Rightarrow> (case cd_layout_parse U json of None \<Rightarrow> [] | Some node \<Rightarrow> all_leaves node))"

definition insert_window_row :: "string \<Rightarrow> string \<Rightarrow> string \<Rightarrow> int \<Rightarrow> int \<Rightarrow> unit io" where
  "insert_window_row wid sid name pos now =
     execute (\<lambda>d. d\<lparr>d_windows :=
       insert_on_conflict wrow_id (\<lambda>r. r\<lparr>wrow_name := name\<rparr>)
         \<lparr>wrow_id = wid, wrow_session_id = sid, wrow_name = name, wrow_layout = None,
          wrow_position = pos, wrow_created_at = now\<rparr> (d_windows d)\<rparr>)"

definition set_window_layout :: "string \<Rightarrow> string \<Rightarrow> unit io" where
  "set_window_layout wid json =
     execute (\<lambda>d. d\<lparr>d_windows := update_where (\<lambda>r. wrow_id r = wid) (\<lambda>r. r\<lparr>wrow_layout := Some json\<rparr>) (d_windows d)\<rparr>)"

definition assign_tree_panes :: "codec \<Rightarrow> string \<Rightarrow> string \<Rightarrow> pane_id list \<Rightarrow> unit io" where
  "assign_tree_panes U wid sid tree =
     (if tree = [] then ok ()
      else execute (\<lambda>d. d\<lparr>d_panes :=
        update_where (\<lambda>r. prow_session_id r = sid \<and> prow_id r \<in> set (map (\<lambda>p. cd_show U (pane_uuid p)) tree))
          (\<lambda>r. r\<lparr>prow_window_id := Some wid\<rparr>) (d_panes d)\<rparr>))"

definition standalone_panes :: "string \<Rightarrow> pane_row list io" where
  "standalone_panes sid =
     fetch (\<lambda>d. sort_key prow_created_at
       (filter (\<lambda>r. prow_session_id r = sid \<and> prow_window_id r = None) (d_panes d)))"

definition backfill_pane ::
  "codec \<Rightarrow> (nat \<Rightarrow> window_id) \<Rightarrow> string \<Rightarrow> int \<Rightarrow> nat \<times> pane_row \<Rightarrow> unit io" where
  "backfill_pane U fresh sid now kp =
     (let k = fst kp; prow = snd kp
      in case cd_parse U (prow_id prow) of
           None \<Rightarrow> ok ()
         | Some u \<Rightarrow>
             (let wk = cd_show U (window_uuid (fresh (k + 1)));
                  win_name = (case non_empty (prow_name prow) of Some n \<Rightarrow> n | None \<Rightarrow> show_nat (k + 1))
              in and_then (insert_window_row wk sid win_name (int (k + 1)) now) (\<lambda>_.
                 case cd_layout_json U (Leaf (PaneId u)) of
                   None \<Rightarrow> err JsonError
                 | Some leaf_json \<Rightarrow>
                     and_then (set_window_layout wk leaf_json) (\<lambda>_.
                     execute (\<lambda>d. d\<lparr>d_panes :=
                       update_where (\<lambda>r. prow_id r = cd_show U u) (\<lambda>r. r\<lparr>prow_window_id := Some wk\<rparr>) (d_panes d)\<rparr>)))))"

definition backfill_session ::
  "codec \<Rightarrow> (nat \<Rightarrow> nat \<Rightarrow> window_id) \<Rightarrow> (nat \<Rightarrow> int) \<Rightarrow> nat \<times> session_row \<Rightarrow> unit io" where
  "backfill_session U fresh now ir =
     (let i = fst ir; row = snd ir
      in case cd_parse U (srow_id row) of
           None \<Rightarrow> ok ()
         | Some u \<Rightarrow>
             (let sid = cd_show U u; layout_json = srow_layout row;
                  w0 = cd_show U (window_uuid (fresh i 0))
              in and_then (insert_window_row w0 sid ''1'' 0 (now i)) (\<lambda>_.
                 and_then (case layout_json of None \<Rightarrow> ok () | Some json \<Rightarrow> set_window_layout w0 json) (\<lambda>_.
                 and_then (assign_tree_panes U w0 sid (tree_panes U layout_json)) (\<lambda>_.
                 and_then (standalone_panes sid) (\<lambda>standalone.
                 for_each (backfill_pane U (fresh i) sid (now i)) (enumerate 0 standalone)))))))"

definition backfill_windows :: "codec \<Rightarrow> (nat \<Rightarrow> nat \<Rightarrow> window_id) \<Rightarrow> (nat \<Rightarrow> int) \<Rightarrow> unit io" where
  "backfill_windows U fresh now =
     and_then (fetch (\<lambda>d. length (d_windows d))) (\<lambda>win_count.
     and_then (fetch (\<lambda>d. length (d_sessions d))) (\<lambda>sess_count.
     if win_count > 0 \<or> sess_count = 0 then ok ()
     else
       and_then (fetch sessions_by_age) (\<lambda>sessions.
       for_each (backfill_session U fresh now) (enumerate 0 sessions))))"

text \<open>
  \<open>Store::open\<close> after the connection is made: back the file up when the windows table is
  missing, run the migrations (which create it, empty), backfill and close the blocks that
  a killed daemon left open.
\<close>

definition backup_if_old :: "unit io" where
  "backup_if_old =
     and_then (fetch d_has_windows) (\<lambda>has.
       if has then ok ()
       else io_step (\<lambda>st. ((), st\<lparr>st_backups := st_backups st @ [st_db st]\<rparr>)))"

definition run_migrations :: "unit io" where
  "run_migrations =
     execute (\<lambda>d. if d_has_windows d then d else d\<lparr>d_has_windows := True, d_windows := []\<rparr>)"

definition reconcile_blocks :: "int \<Rightarrow> unit io" where
  "reconcile_blocks ts =
     execute (\<lambda>d. d\<lparr>d_blocks :=
       update_where (\<lambda>r. brow_ended_at r = None) (\<lambda>r. r\<lparr>brow_ended_at := Some ts, brow_exit_code := None\<rparr>) (d_blocks d)\<rparr>)"

definition store_open :: "codec \<Rightarrow> (nat \<Rightarrow> nat \<Rightarrow> window_id) \<Rightarrow> (nat \<Rightarrow> int) \<Rightarrow> int \<Rightarrow> unit io" where
  "store_open U fresh now reconcile_ts =
     and_then backup_if_old (\<lambda>_.
     and_then run_migrations (\<lambda>_.
     and_then (backfill_windows U fresh now) (\<lambda>_.
     reconcile_blocks reconcile_ts)))"

end
