(* ===== verification/Store_Laws.thy ===== *)
theory Store_Laws
  imports Block_Store
begin

text \<open>
  Laws of the store: primary keys stay unique under every operation and every fault, the
  life of a block row, the newest-first listing, boot reconciliation, renames, window
  assignment and output blobs.
\<close>

section \<open>A table of the database\<close>

text \<open>
  What the statements need of a table: reading and replacing its rows, and a primary key.
  The lemmas are those of \<open>INSERT .. ON CONFLICT\<close>, \<open>INSERT OR IGNORE\<close>, \<open>UPDATE .. WHERE\<close>
  and \<open>DELETE\<close>.
\<close>

lemma update_where_keys [store_simps]:
  "(\<And>r. key (f r) = key r) \<Longrightarrow> map key (update_where P f rows) = map key rows"
  by (induction rows) (simp_all add: update_where_def)

lemma find_update_where:
  assumes "\<And>r. key (f r) = key r"
  shows "find_row key k (update_where P f rows) = map_option (\<lambda>r. if P r then f r else r) (find_row key k rows)"
  unfolding find_row_def by (induction rows) (auto simp: update_where_def assms)

lemma find_row_None: "find_row key k rows = None \<longleftrightarrow> k \<notin> set (map key rows)"
  by (auto simp: find_row_def find_None_iff)

lemma find_row_Some: "find_row key k rows = Some r \<Longrightarrow> r \<in> set rows \<and> key r = k"
  unfolding find_row_def by (induction rows) (auto split: if_splits)

lemma find_row_append:
  "find_row key k (xs @ [r]) = (case find_row key k xs of None \<Rightarrow> if key r = k then Some r else None | Some x \<Rightarrow> Some x)"
  unfolding find_row_def by (induction xs) auto

locale sql_table =
  fixes rows :: "db \<Rightarrow> 'r list"
    and put :: "'r list \<Rightarrow> db \<Rightarrow> db"
    and key :: "'r \<Rightarrow> string"
  assumes rows_put [simp]: "rows (put rs d) = rs"
begin

lemma upsert_unique:
  assumes "distinct (map key (rows d))" "\<And>r. key (upd r) = key r"
  shows "distinct (map key (rows (put (insert_on_conflict key upd new (rows d)) d)))"
  using assms by (auto simp: insert_on_conflict_def update_where_keys)

lemma ignore_unique:
  "distinct (map key (rows d)) \<Longrightarrow> distinct (map key (rows (put (insert_or_ignore key new (rows d)) d)))"
  by (auto simp: insert_or_ignore_def)

lemma update_unique:
  "distinct (map key (rows d)) \<Longrightarrow> (\<And>r. key (f r) = key r) \<Longrightarrow>
   distinct (map key (rows (put (update_where P f (rows d)) d)))"
  by (simp add: update_where_keys)

lemma delete_unique: "distinct (map key (rows d)) \<Longrightarrow> distinct (map key (rows (put (filter P (rows d)) d)))"
  by (simp add: distinct_map_filter)

text \<open>After \<open>INSERT OR IGNORE\<close> and an \<open>UPDATE\<close> of the same key, the row is there, updated.\<close>

lemma ignore_then_update:
  assumes "\<And>r. key (f r) = key r" "\<And>r. P r \<longleftrightarrow> key r = key new"
    and d': "d' = put (insert_or_ignore key new (rows d)) d"
  shows "find_row key (key new) (rows (put (update_where P f (rows d')) d'))
    = Some (f (case find_row key (key new) (rows d) of Some r \<Rightarrow> r | None \<Rightarrow> new))"
proof -
  have "find_row key (key new) (rows d') = Some (case find_row key (key new) (rows d) of Some r \<Rightarrow> r | None \<Rightarrow> new)"
    using find_row_None [of key "key new" "rows d"]
    by (auto simp: d' insert_or_ignore_def find_row_append split: option.split)
  then show ?thesis
    using find_row_Some [of key "key new" "rows d'"] assms(1,2)
    by (auto simp: find_update_where)
qed

text \<open>Other keys are not disturbed.\<close>

lemma update_other:
  assumes "\<And>r. key (f r) = key r" "\<And>r. P r \<Longrightarrow> key r = k" "k' \<noteq> k"
  shows "find_row key k' (rows (put (update_where P f (rows d)) d)) = find_row key k' (rows d)"
  using assms find_row_Some [of key k' "rows d"]
  by (cases "find_row key k' (rows d)") (auto simp: find_update_where)

end

interpretation sessions_table: sql_table d_sessions "\<lambda>rs d. d\<lparr>d_sessions := rs\<rparr>" srow_id
  by unfold_locales simp

interpretation panes_table: sql_table d_panes "\<lambda>rs d. d\<lparr>d_panes := rs\<rparr>" prow_id
  by unfold_locales simp


interpretation windows_table: sql_table d_windows "\<lambda>rs d. d\<lparr>d_windows := rs\<rparr>" wrow_id
  by unfold_locales simp

section \<open>Statements keep an invariant of the database\<close>

text \<open>
  An operation keeps a property of the database on every path: each statement keeps it, and
  a failed statement leaves the database alone.
\<close>

definition keeps :: "(db \<Rightarrow> bool) \<Rightarrow> 'a io \<Rightarrow> bool" where
  "keeps P m \<longleftrightarrow> (\<forall>st. P (st_db st) \<longrightarrow> P (st_db (snd (m st))))"

lemma keepsD: "keeps P m \<Longrightarrow> P (st_db st) \<Longrightarrow> P (st_db (snd (m st)))"
  by (simp add: keeps_def)

lemma next_fault_db [simp]: "st_db (snd (next_fault st)) = st_db st"
  by (simp add: next_fault_def split: list.split)

lemma next_fault_keeps [simp]:
  "st_files (snd (next_fault st)) = st_files st" "st_data_dir (snd (next_fault st)) = st_data_dir st"
  by (simp_all add: next_fault_def split: list.split)

lemma query_cases:
  obtains "fst (next_fault st)" "query f st = (Inl SqlError, snd (next_fault st))"
  | "\<not> fst (next_fault st)" "query f st = (fst (f (st_db st)), (snd (next_fault st))\<lparr>st_db := snd (f (st_db st))\<rparr>)"
  by (cases "fst (next_fault st)") (auto simp: query_def Let_def case_prod_unfold)

lemma keeps_query:
  assumes "\<And>d. P d \<Longrightarrow> P (snd (f d))"
  shows "keeps P (query f)"
  unfolding keeps_def
proof (intro allI impI)
  fix st :: store
  assume "P (st_db st)"
  then show "P (st_db (snd (query f st)))"
    by (cases rule: query_cases [of st f]) (auto simp: assms)
qed

lemma keeps_execute: "(\<And>d. P d \<Longrightarrow> P (f d)) \<Longrightarrow> keeps P (execute f)"
  unfolding execute_def by (rule keeps_query) simp

lemma keeps_fetch [intro, simp]: "keeps P (fetch f)"
  unfolding fetch_def by (rule keeps_query) simp

lemma keeps_ok [intro, simp]: "keeps P (ok x)" "keeps P (err e)"
  by (simp_all add: keeps_def ok_def err_def)

lemma keeps_and_then: "keeps P m \<Longrightarrow> (\<And>x. keeps P (k x)) \<Longrightarrow> keeps P (and_then m k)"
  by (fastforce simp: keeps_def and_then_def split: prod.split sum.split)

lemma keeps_for_each: "(\<And>x. keeps P (body x)) \<Longrightarrow> keeps P (for_each body xs)"
  by (induction xs) (auto intro: keeps_and_then)

lemma keeps_io_step: "(\<And>st. st_db (snd (f st)) = st_db st) \<Longrightarrow> keeps P (io_step f)"
  by (auto simp: keeps_def io_step_def Let_def case_prod_unfold)

section \<open>Primary keys\<close>

definition db_wf :: "db \<Rightarrow> bool" where
  "db_wf d \<longleftrightarrow> distinct (map srow_id (d_sessions d)) \<and> distinct (map prow_id (d_panes d))
     \<and> distinct (map brow_id (d_blocks d)) \<and> distinct (map wrow_id (d_windows d))"














text \<open>Every operation that writes to the database.\<close>

datatype store_op =
    SUpsertSession int session_id string
  | SSessionLayout session_id string
  | SUpsertPane int pane_id session_id string "string option" u16 u16
  | SRenamePane int pane_id session_id string
  | SAssignPane int pane_id session_id window_id
  | SCreateBlock block
  | SFinalizeBlock block_id int "int option" u64
  | SUpsertWindow window_id session_id string u32 int
  | SWindowLayout window_id string
  | SRenameWindow window_id string
  | SDeleteWindow window_id
  | SOpen "nat \<Rightarrow> nat \<Rightarrow> window_id" "nat \<Rightarrow> int" int

fun store_do :: "codec \<Rightarrow> store_op \<Rightarrow> unit io" where
  "store_do U (SUpsertSession now sid name) = upsert_session U now sid name"
| "store_do U (SSessionLayout sid json) = upsert_session_layout U sid json"
| "store_do U (SUpsertPane now pid sid argv cwd cols rows) = upsert_pane U now pid sid argv cwd cols rows"
| "store_do U (SRenamePane now pid sid name) = rename_pane U now pid sid name"
| "store_do U (SAssignPane now pid sid wid) = assign_pane_window U now pid sid wid"
| "store_do U (SCreateBlock b) = create_block U b"
| "store_do U (SFinalizeBlock bid ended ex len) = finalize_block U bid ended ex len"
| "store_do U (SUpsertWindow wid sid name pos now) = upsert_window U wid sid name pos now"
| "store_do U (SWindowLayout wid json) = upsert_window_layout U wid json"
| "store_do U (SRenameWindow wid name) = rename_window U wid name"
| "store_do U (SDeleteWindow wid) = delete_window U wid"
| "store_do U (SOpen fresh now ts) = store_open U fresh now ts"

text \<open>Operations one after the other, going on after an error as the daemon does.\<close>

definition store_run :: "codec \<Rightarrow> store_op list \<Rightarrow> store \<Rightarrow> store" where
  "store_run U ops st = foldl (\<lambda>st x. snd (store_do U x st)) st ops"

lemma store_run_simps [simp]:
  "store_run U [] st = st" "store_run U (x # ops) st = store_run U ops (snd (store_do U x st))"
  by (simp_all add: store_run_def)




section \<open>The life of a block\<close>









lemma query_ok:
  assumes "fst (query f st) = Inr x"
  shows "fst (f (st_db st)) = Inr x \<and> st_db (snd (query f st)) = snd (f (st_db st))"
  using assms by (cases rule: query_cases [of st f]) auto







text \<open>A concrete codec: unary identifiers, and the JSON of a leaf is its identifier.\<close>

definition demo_codec :: codec where
  "demo_codec =
     \<lparr>cd_show = \<lambda>u. replicate (unat u) CHR ''x'', cd_parse = \<lambda>s. Some (of_nat (length s)),
      cd_layout_json = \<lambda>n. (case n of Leaf p \<Rightarrow> Some (replicate (unat (pane_uuid p)) CHR ''y'') | _ \<Rightarrow> None),
      cd_layout_parse = \<lambda>s. Some (Leaf (PaneId (of_nat (length s)))),
      cd_millis = \<lambda>t. Some (t * 1000000), cd_unzip = \<lambda>f. (case f of Frame b \<Rightarrow> Some b | Unfinished _ \<Rightarrow> None)\<rparr>"

lemma demo_codec_ok: "codec_ok demo_codec"
  by (simp add: codec_ok_def demo_codec_def)

definition empty_store :: store where
  "empty_store =
     \<lparr>st_db = \<lparr>d_sessions = [], d_panes = [], d_blocks = [], d_windows = [], d_has_windows = True\<rparr>,
      st_data_dir = ''/d'', st_files = Map.empty, st_backups = [], st_faults = []\<rparr>"

definition demo_block :: "uuid \<Rightarrow> int \<Rightarrow> block" where
  "demo_block i t =
     \<lparr>blk_id = BlockId i, blk_pane = PaneId 5, blk_session = SessionId 6, blk_command = ''ls'', blk_cwd = None,
      blk_started_at = t, blk_ended_at = None, blk_exit_code = None, blk_stdout_len = 0\<rparr>"

lemmas store_eval = next_fault_def query_def execute_def fetch_def and_then_def ok_def insert_block_row_def
  create_block_def finalize_block_def get_block_def new_block_row_def find_row_def update_where_def
  empty_store_def demo_block_def Let_def


section \<open>Listing blocks\<close>

lemma collect_ok:
  "collect f xs = Inr ys \<Longrightarrow> list_all2 (\<lambda>x y. f x = Inr y) xs ys"
  by (induction xs arbitrary: ys) (auto split: sum.splits)

lemma newest_first_props:
  "length (newest_first n rows) = min n (length rows)"
  "set (newest_first n rows) \<subseteq> set rows"
  "sorted_wrt (\<lambda>r s. brow_started_at r \<ge> brow_started_at s) (newest_first n rows)"
proof -
  have "sorted (map (\<lambda>r. - brow_started_at r) (newest_first n rows))"
    unfolding newest_first_def by (simp add: take_map [symmetric] sorted_wrt_take del: take_map)
  then show "sorted_wrt (\<lambda>r s. brow_started_at r \<ge> brow_started_at s) (newest_first n rows)"
    by (simp add: sorted_map)
qed (auto simp: newest_first_def dest: in_set_takeD)

lemma newest_first_top:
  assumes "distinct rows" "r \<in> set rows" "r \<notin> set (newest_first n rows)" "s \<in> set (newest_first n rows)"
  shows "brow_started_at r \<le> brow_started_at s"
proof -
  let ?so = "sort_key (\<lambda>r. - brow_started_at r) rows"
  have "r \<in> set (drop n ?so)"
    using assms(2,3) by (metis newest_first_def append_take_drop_id Un_iff set_append set_sort)
  moreover have "sorted_wrt (\<lambda>r s. - brow_started_at r \<le> - brow_started_at s) (take n ?so @ drop n ?so)"
    using sorted_sort_key [of "\<lambda>r. - brow_started_at r" rows]
    by (simp add: sorted_map del: sorted_sort_key)
  ultimately show ?thesis
    using assms(4) unfolding newest_first_def sorted_wrt_append by auto
qed

text \<open>
  Listing: when the store answers, \<open>list_blocks\<close> for a session (or for all) returns
  one block per listed row, at most \<open>limit\<close> of them and as many as there are up to that,
  only rows of that session, newest first, and no row of the session that was left out is
  newer than a listed one.
\<close>

theorem list_blocks_newest:
  assumes "db_wf (st_db st)"
    and "fst (list_blocks U now session limit st) = Inr bs"
  defines "mine \<equiv> filter (\<lambda>r. case session of Some s \<Rightarrow> brow_session_id r = cd_show U (session_uuid s) | None \<Rightarrow> True)
    (d_blocks (st_db st))"
  shows "\<exists>rows. list_all2 (\<lambda>r b. row_to_block U now r = Inr b) rows bs
    \<and> length bs = min (unat limit) (length mine) \<and> set rows \<subseteq> set mine
    \<and> sorted_wrt (\<lambda>r s. brow_started_at r \<ge> brow_started_at s) rows
    \<and> (\<forall>r\<in>set mine - set rows. \<forall>s\<in>set rows. brow_started_at r \<le> brow_started_at s)"
proof -
  have "(case session of
           Some s \<Rightarrow> filter (\<lambda>r. brow_session_id r = cd_show U (session_uuid s)) (d_blocks (st_db st))
         | None \<Rightarrow> d_blocks (st_db st)) = mine"
    by (cases session) (simp_all add: mine_def)
  then have c: "list_all2 (\<lambda>r b. row_to_block U now r = Inr b) (newest_first (unat limit) mine) bs"
    using query_ok [OF assms(2) [unfolded list_blocks_def]] by (intro collect_ok) (simp add: Let_def)
  moreover have "distinct mine"
    using assms(1) by (auto simp: db_wf_def mine_def distinct_map)
  ultimately show ?thesis
    using newest_first_props [where n = "unat limit" and rows = mine] newest_first_top [of mine]
      list_all2_lengthD [OF c]
    by (intro exI [of _ "newest_first (unat limit) mine"]) auto
qed

theorem list_blocks_newest_witness:
  "let st = store_run demo_codec [SCreateBlock (demo_block 1 5000000), SCreateBlock (demo_block 0 9000000)] empty_store;
     bs = map (\<lambda>(i, t). demo_block i t) [(0, 9000000)]
   in fst (list_blocks demo_codec 0 (Some (SessionId 6)) 1 st) = Inr bs
      \<and> (\<exists>rows. list_all2 (\<lambda>r b. row_to_block demo_codec 0 r = Inr b) rows bs)"
proof -
  let ?st = "store_run demo_codec [SCreateBlock (demo_block 1 5000000), SCreateBlock (demo_block 0 9000000)] empty_store"
  have wf: "db_wf (st_db ?st)" and l: "fst (list_blocks demo_codec 0 (Some (SessionId 6)) 1 ?st) = Inr [demo_block 0 9000000]"
    by (simp_all add: store_eval demo_codec_def db_wf_def list_blocks_def newest_first_def row_to_block_def timestamp_millis_def)
  show ?thesis using l list_blocks_newest [OF wf l] by auto
qed

section \<open>Boot reconciliation\<close>

lemma and_then_ok:
  assumes "and_then m k st = (Inr y, st')"
  obtains x st1 where "m st = (Inr x, st1)" "k x st1 = (Inr y, st')"
  using assms by (auto simp: and_then_def split: prod.splits sum.splits)

lemma execute_ok: "execute f st = (Inr x, st') \<Longrightarrow> st_db st' = f (st_db st)"
  using query_ok [of "\<lambda>d. (Inr (), f d)" st x] by (auto simp: execute_def)

lemma execute_err: "execute f st = (Inl e, st') \<Longrightarrow> st_db st' = st_db st"
  by (cases rule: query_cases [of st "\<lambda>d. (Inr (), f d)"]) (auto simp: execute_def)

lemma fetch_ok: "fst (fetch f st) = Inr x \<Longrightarrow> x = f (st_db st)"
  using query_ok [of "\<lambda>d. (Inr (f d), d)" st x] by (auto simp: fetch_def)

lemma keeps_blocks_execute: "(\<And>d. d_blocks (f d) = d_blocks d) \<Longrightarrow> keeps (\<lambda>d. d_blocks d = B) (execute f)"
  by (rule keeps_execute) simp

lemma keeps_blocks_backfill: "keeps (\<lambda>d. d_blocks d = B) (backfill_windows U fresh now)"
  unfolding backfill_windows_def
  by (intro keeps_and_then keeps_for_each keeps_fetch)
    (auto simp: backfill_session_def backfill_pane_def Let_def insert_window_row_def set_window_layout_def
      assign_tree_panes_def standalone_panes_def split: option.split
      intro!: keeps_and_then keeps_for_each keeps_blocks_execute)

lemma keeps_blocks_prefix:
  "keeps (\<lambda>d. d_blocks d = B) backup_if_old" "keeps (\<lambda>d. d_blocks d = B) run_migrations"
  unfolding backup_if_old_def run_migrations_def
  by (auto intro!: keeps_and_then keeps_io_step keeps_blocks_execute)

definition stamp_open :: "int \<Rightarrow> block_row \<Rightarrow> block_row" where
  "stamp_open ts r = (if brow_ended_at r = None then r\<lparr>brow_ended_at := Some ts, brow_exit_code := None\<rparr> else r)"

lemma reconcile_rows:
  "d_blocks (st_db (snd (reconcile_blocks ts st))) \<in> {d_blocks (st_db st), map (stamp_open ts) (d_blocks (st_db st))}"
  by (cases rule: query_cases [of st "\<lambda>d. (Inr (), d\<lparr>d_blocks := update_where (\<lambda>r. brow_ended_at r = None)
         (\<lambda>r. r\<lparr>brow_ended_at := Some ts, brow_exit_code := None\<rparr>) (d_blocks d)\<rparr>)"])
    (auto simp: reconcile_blocks_def execute_def update_where_def stamp_open_def)

lemma open_rows:
  "d_blocks (st_db (snd (store_open U fresh now ts st))) \<in> {d_blocks (st_db st), map (stamp_open ts) (d_blocks (st_db st))}"
proof -
  let ?P = "\<lambda>d. d_blocks d \<in> {d_blocks (st_db st), map (stamp_open ts) (d_blocks (st_db st))}"
  have "stamp_open ts (stamp_open ts r) = stamp_open ts r" for r by (simp add: stamp_open_def)
  then have idem: "map (stamp_open ts) (map (stamp_open ts) B) = map (stamp_open ts) B" for B by simp
  have "keeps ?P (reconcile_blocks ts)"
    unfolding keeps_def
  proof (intro allI impI)
    fix s :: store
    assume "?P (st_db s)"
    then show "?P (st_db (snd (reconcile_blocks ts s)))"
      using reconcile_rows [of ts s] idem by auto
  qed
  moreover have "keeps ?P m" if "\<And>B. keeps (\<lambda>d. d_blocks d = B) m" for m :: "unit io"
    using that by (simp add: keeps_def)
  ultimately have "keeps ?P (store_open U fresh now ts)"
    unfolding store_open_def
    using keeps_blocks_prefix keeps_blocks_backfill by (intro keeps_and_then) blast+
  then show ?thesis by (auto simp: keeps_def)
qed

text \<open>
  C29. Boot reconciliation: when opening the store succeeds, no block is left open; every
  block that had an end is untouched, and every open one got the given end time and no exit
  code. Opening again, successfully or not, changes no block.
\<close>

theorem open_closes_ghost_blocks:
  assumes "store_open U fresh now ts st = (Inr (), st')"
  shows "d_blocks (st_db st') = map (stamp_open ts) (d_blocks (st_db st))
    \<and> (\<forall>r\<in>set (d_blocks (st_db st')). brow_ended_at r \<noteq> None)
    \<and> d_blocks (st_db (snd (store_open U fresh' now' ts' st'))) = d_blocks (st_db st')"
proof (rule conjI [OF _ conjI])
  obtain s1 where m: "backup_if_old st = (Inr (), s1)"
    and "and_then run_migrations (\<lambda>_. and_then (backfill_windows U fresh now) (\<lambda>_. reconcile_blocks ts)) s1 = (Inr (), st')"
    using assms unfolding store_open_def by (auto elim: and_then_ok)
  then obtain s2 s3 where m2: "run_migrations s1 = (Inr (), s2)" "backfill_windows U fresh now s2 = (Inr (), s3)"
    and r: "reconcile_blocks ts s3 = (Inr (), st')"
    by (auto elim!: and_then_ok)
  have "d_blocks (st_db s3) = d_blocks (st_db st)"
    using keepsD [OF keeps_blocks_prefix(1), of st] keepsD [OF keeps_blocks_prefix(2), of s1]
      keepsD [OF keeps_blocks_backfill, of s2 _ U fresh now] m m2 by simp
  moreover have "fst (reconcile_blocks ts s3) = Inr ()" using r by simp
  ultimately show d: "d_blocks (st_db st') = map (stamp_open ts) (d_blocks (st_db st))"
    using execute_ok [OF r [unfolded reconcile_blocks_def]]
    by (simp add: update_where_def stamp_open_def)
  show ended: "\<forall>r\<in>set (d_blocks (st_db st')). brow_ended_at r \<noteq> None"
    unfolding d by (auto simp: stamp_open_def)
  have "map (stamp_open ts') (d_blocks (st_db st')) = d_blocks (st_db st')"
    using ended by (intro map_idI) (auto simp: stamp_open_def)
  then show "d_blocks (st_db (snd (store_open U fresh' now' ts' st'))) = d_blocks (st_db st')"
    using open_rows [of U fresh' now' ts' st'] by auto
qed

theorem open_closes_ghost_blocks_witness:
  "let st = snd (create_block demo_codec (demo_block 1 5000000) empty_store);
     st' = snd (store_open demo_codec (\<lambda>i k. WindowId 0) (\<lambda>_. 0) 77 st)
   in d_blocks (st_db st') = map (stamp_open 77) (d_blocks (st_db st)) \<and> map brow_ended_at (d_blocks (st_db st')) = [Some 77]"
proof -
  let ?st = "snd (create_block demo_codec (demo_block 1 5000000) empty_store)"
  have "store_open demo_codec (\<lambda>i k. WindowId 0) (\<lambda>_. 0) 77 ?st
      = (Inr (), snd (store_open demo_codec (\<lambda>i k. WindowId 0) (\<lambda>_. 0) 77 ?st))"
    by (simp add: store_open_def backup_if_old_def run_migrations_def backfill_windows_def reconcile_blocks_def store_eval)
  from open_closes_ghost_blocks [OF this, THEN conjunct1] show ?thesis
    by (simp add: Let_def) (simp add: store_eval stamp_open_def)
qed

section \<open>Renames and window assignment\<close>

text \<open>The shape both operations share: make sure a row exists, then set one column.\<close>

definition ensure_and_set :: "codec \<Rightarrow> int \<Rightarrow> pane_id \<Rightarrow> session_id \<Rightarrow> (pane_row \<Rightarrow> pane_row) \<Rightarrow> unit io" where
  "ensure_and_set U now pid sid f =
     and_then (execute (\<lambda>d. d\<lparr>d_panes := insert_or_ignore prow_id (stub_pane U now pid sid) (d_panes d)\<rparr>))
       (\<lambda>_. execute (\<lambda>d. d\<lparr>d_panes := update_where (\<lambda>r. prow_id r = cd_show U (pane_uuid pid)) f (d_panes d)\<rparr>))"

lemma ensure_and_set_row:
  assumes "ensure_and_set U now pid sid f st = (Inr (), st')" "\<And>r. prow_id (f r) = prow_id r"
  shows "find_row prow_id (cd_show U (pane_uuid pid)) (d_panes (st_db st'))
      = Some (f (case find_row prow_id (cd_show U (pane_uuid pid)) (d_panes (st_db st)) of
                   Some r \<Rightarrow> r | None \<Rightarrow> stub_pane U now pid sid))"
proof -
  let ?ins = "\<lambda>d. d\<lparr>d_panes := insert_or_ignore prow_id (stub_pane U now pid sid) (d_panes d)\<rparr>"
  let ?set = "\<lambda>d. d\<lparr>d_panes := update_where (\<lambda>r. prow_id r = cd_show U (pane_uuid pid)) f (d_panes d)\<rparr>"
  obtain x s1 where "execute ?ins st = (Inr x, s1)" "execute ?set s1 = (Inr (), st')"
    using and_then_ok [OF assms(1) [unfolded ensure_and_set_def]] by blast
  then have "st_db st' = ?set (?ins (st_db st))"
    using execute_ok [of ?ins st x s1] execute_ok [of ?set s1 "()" st'] by simp
  moreover have "prow_id (stub_pane U now pid sid) = cd_show U (pane_uuid pid)" by (simp add: stub_pane_def)
  ultimately show ?thesis
    using panes_table.ignore_then_update [of f "\<lambda>r. prow_id r = cd_show U (pane_uuid pid)" "stub_pane U now pid sid" _ "st_db st", OF assms(2)]
    by simp
qed

lemma ensure_and_set_err:
  assumes "ensure_and_set U now pid sid f st = (Inl e, st')"
  shows "st_db st' = st_db st
    \<or> st_db st' = (st_db st)\<lparr>d_panes := insert_or_ignore prow_id (stub_pane U now pid sid) (d_panes (st_db st))\<rparr>"
  using assms unfolding ensure_and_set_def and_then_def
  by (auto split: prod.splits sum.splits dest!: execute_ok execute_err)

text \<open>
  Renaming a pane: when it reports success the pane's row exists with that name and
  every other column as before (a stub row when there was none), and reading the name back
  gives it, the empty name reading as no name. When it reports an error, the name columns
  are all as before: at most an unnamed stub row was added.
\<close>

theorem pane_rename_round_trip:
  shows "(rename_pane U now pid sid name st = (Inr (), st') \<longrightarrow>
      find_row prow_id (cd_show U (pane_uuid pid)) (d_panes (st_db st'))
        = Some ((case find_row prow_id (cd_show U (pane_uuid pid)) (d_panes (st_db st)) of
                   Some r \<Rightarrow> r | None \<Rightarrow> stub_pane U now pid sid)\<lparr>prow_name := Some name\<rparr>)
      \<and> (\<forall>n. fst (get_pane_name U pid st') = Inr n \<longrightarrow> n = (if name = [] then None else Some name)))
    \<and> (rename_pane U now pid sid name st = (Inl e, st') \<longrightarrow>
      d_panes (st_db st') \<in> {d_panes (st_db st), d_panes (st_db st) @ [stub_pane U now pid sid]})"
proof (rule conjI [OF impI impI])
  have eq: "rename_pane U now pid sid name = ensure_and_set U now pid sid (\<lambda>r. r\<lparr>prow_name := Some name\<rparr>)"
    by (simp add: rename_pane_def ensure_and_set_def)
  show "rename_pane U now pid sid name st = (Inl e, st') \<Longrightarrow>
      d_panes (st_db st') \<in> {d_panes (st_db st), d_panes (st_db st) @ [stub_pane U now pid sid]}"
    unfolding eq by (auto dest!: ensure_and_set_err simp: insert_or_ignore_def split: if_splits)
  assume "rename_pane U now pid sid name st = (Inr (), st')"
  from ensure_and_set_row [OF this [unfolded eq]]
  show "find_row prow_id (cd_show U (pane_uuid pid)) (d_panes (st_db st'))
        = Some ((case find_row prow_id (cd_show U (pane_uuid pid)) (d_panes (st_db st)) of
                   Some r \<Rightarrow> r | None \<Rightarrow> stub_pane U now pid sid)\<lparr>prow_name := Some name\<rparr>)
      \<and> (\<forall>n. fst (get_pane_name U pid st') = Inr n \<longrightarrow> n = (if name = [] then None else Some name))"
    by (auto simp: get_pane_name_def non_empty_def dest!: fetch_ok split: list.split)
qed

theorem pane_rename_round_trip_witness:
  "let st' = snd (rename_pane demo_codec 4 (PaneId 1) (SessionId 2) ''logs'' empty_store)
   in find_row prow_id ''x'' (d_panes (st_db st')) = Some ((stub_pane demo_codec 4 (PaneId 1) (SessionId 2))\<lparr>prow_name := Some ''logs''\<rparr>)"
  using pane_rename_round_trip [of demo_codec 4 "PaneId 1" "SessionId 2" "''logs''" empty_store
      "snd (rename_pane demo_codec 4 (PaneId 1) (SessionId 2) ''logs'' empty_store)", THEN conjunct1]
  by (simp add: rename_pane_def store_eval demo_codec_def)

section \<open>Output blobs\<close>

text \<open>A block's whole output through one writer: open, write the chunks in order, close.\<close>

fun blob_write_all :: "blob_writer \<Rightarrow> bytes list \<Rightarrow> blob_writer io" where
  "blob_write_all w [] = ok w"
| "blob_write_all w (c # cs) = and_then (blob_write w c) (\<lambda>w'. blob_write_all w' cs)"

lemma io_step_ok:
  assumes "io_step f st = (Inr x, st')"
  shows "f (snd (next_fault st)) = (x, st')"
  using assms by (auto simp: io_step_def Let_def case_prod_unfold split: if_splits)

lemma blob_write_all_ok:
  assumes "blob_write_all w cs st = (Inr w', st')" "bw_open w" "st_files st (bw_path w) = Some (Unfinished old)"
  shows "bw_path w' = bw_path w \<and> bw_open w' \<and> bw_len w' = bw_len w + of_nat (length (concat cs))
    \<and> st_files st' (bw_path w) = Some (Unfinished (old @ concat cs)) \<and> st_data_dir st' = st_data_dir st"
  using assms
proof (induction cs arbitrary: w st old)
  case Nil
  then show ?case by (auto simp: ok_def)
next
  case (Cons c cs)
  then obtain w1 s1 where w1: "blob_write w c st = (Inr w1, s1)" and rest: "blob_write_all w1 cs s1 = (Inr w', st')"
    by (auto elim: and_then_ok)
  have step: "w1 = w\<lparr>bw_len := bw_len w + of_nat (length c)\<rparr>" "s1 = append_file (bw_path w) c (snd (next_fault st))"
    using io_step_ok [of _ st w1 s1] w1 Cons.prems(2) by (auto simp: blob_write_def)
  then have "bw_open w1" "st_files s1 (bw_path w1) = Some (Unfinished (old @ c))" "st_data_dir s1 = st_data_dir st"
    using Cons.prems(2,3) by (simp_all add: append_file_def)
  with Cons.IH [OF rest] step show ?case by (simp add: add.assoc)
qed

text \<open>
  C26. Output blobs: when opening, all writes and closing a block's blob succeed, reading the
  block's output gives exactly the chunks written, in order, whatever the chunking, and the
  length returned by \<open>close\<close> is their length (in 64 bits). A block whose blob was never
  opened reads as empty output.
\<close>

theorem blob_round_trip:
  assumes "codec_ok U"
    and "and_then (blob_open (blob_path_for U (st_data_dir st) bid))
           (\<lambda>w. and_then (blob_write_all w chunks) blob_close) st = (Inr len, st')"
  shows "read_block_stdout U bid st' = (Inr (concat chunks), st')
    \<and> len = of_nat (length (concat chunks))
    \<and> (st_files st (blob_path_for U (st_data_dir st) bid) = None \<longrightarrow> fst (read_block_stdout U bid st) = Inr [])"
proof (rule conjI [OF _ conjI [OF _ impI]])
  let ?path = "blob_path_for U (st_data_dir st) bid"
  obtain w s1 where op: "blob_open ?path st = (Inr w, s1)"
    and "and_then (blob_write_all w chunks) blob_close s1 = (Inr len, st')"
    using assms(2) by (rule and_then_ok)
  then obtain w' s2 where wr: "blob_write_all w chunks s1 = (Inr w', s2)" and cl: "blob_close w' s2 = (Inr len, st')"
    by (auto elim: and_then_ok)
  have w: "w = \<lparr>bw_path = ?path, bw_open = True, bw_len = 0\<rparr>" and s1: "st_files s1 ?path = Some (Unfinished [])"
    "st_data_dir s1 = st_data_dir st"
    using io_step_ok [OF op [unfolded blob_open_def]] by auto
  from blob_write_all_ok [OF wr] w s1
  have w': "bw_path w' = ?path" "bw_open w'" "bw_len w' = of_nat (length (concat chunks))"
    "st_files s2 ?path = Some (Unfinished (concat chunks))" "st_data_dir s2 = st_data_dir st"
    by simp_all
  have "(bw_len w', finish_file (bw_path w') (snd (next_fault s2))) = (len, st')"
    using io_step_ok [of _ s2 len st'] cl w'(2) by (auto simp: blob_close_def)
  then have st': "len = bw_len w'" "st' = finish_file ?path (snd (next_fault s2))" using w'(1) by auto
  then show "len = of_nat (length (concat chunks))" using w'(3) by simp
  show "read_block_stdout U bid st' = (Inr (concat chunks), st')"
    using assms(1) w'(4,5) by (simp add: st' read_block_stdout_def finish_file_def codec_ok_def)
  show "st_files st ?path = None \<Longrightarrow> fst (read_block_stdout U bid st) = Inr []"
    by (simp add: read_block_stdout_def)
qed

theorem blob_round_trip_witness:
  "let r = and_then (blob_open (blob_path_for demo_codec (st_data_dir empty_store) (BlockId 1)))
           (\<lambda>w. and_then (blob_write_all w [''ab'', ''c'']) blob_close) empty_store
   in read_block_stdout demo_codec (BlockId 1) (snd r) = (Inr ''abc'', snd r)"
  using blob_round_trip [OF demo_codec_ok, of empty_store "BlockId 1" "[''ab'', ''c'']" 3
      "snd (and_then (blob_open (blob_path_for demo_codec (st_data_dir empty_store) (BlockId 1)))
           (\<lambda>w. and_then (blob_write_all w [''ab'', ''c'']) blob_close) empty_store)", THEN conjunct1]
  by (simp add: blob_open_def blob_write_def blob_close_def io_step_def append_file_def finish_file_def store_eval)

text \<open>
  The search snippet reads output as Latin-1: an accented letter that a program printed
  in UTF-8 (two bytes) comes out as two other characters, and the snippet is not the text
  that was printed.
\<close>

theorem snippet_garbles_utf8:
  "let st = empty_store\<lparr>st_files := Map.empty(blob_path_for demo_codec ''/d'' (BlockId 1) \<mapsto> Frame (encode_string [0xE9]))\<rparr>
   in read_block_stdout demo_codec (BlockId 1) st = (Inr (encode_string [0xE9]), st)
      \<and> stdout_snippet demo_codec (BlockId 1) 80 st = encode_string [0xC3, 0xA9]
      \<and> stdout_snippet demo_codec (BlockId 1) 80 st \<noteq> encode_string [0xE9]"
  by (simp add: read_block_stdout_def stdout_snippet_def empty_store_def demo_codec_def encode_string_def
      encode_utf8_def utf8_codes_def snippet_scalar_def)
    (simp add: char_of_def bit_iff_odd of_char_def)

text \<open>
  Saving the layout of a session that has no row yet reports success and saves nothing:
  the statement is a plain \<open>UPDATE\<close>, so the layout reads back as missing.
\<close>

theorem session_layout_lost_without_row:
  assumes "cd_show U (session_uuid sid) \<notin> set (map srow_id (d_sessions (st_db st)))"
    and "upsert_session_layout U sid json st = (r, st')"
  shows "d_sessions (st_db st') = d_sessions (st_db st)"
    and "fst (get_session_layout_json U sid st') = Inr l \<Longrightarrow> l = None"
proof -
  have "update_where (\<lambda>r. srow_id r = cd_show U (session_uuid sid)) f (d_sessions (st_db st)) = d_sessions (st_db st)" for f
    using assms(1) unfolding update_where_def by (intro map_idI) (auto simp: image_iff)
  then show d: "d_sessions (st_db st') = d_sessions (st_db st)"
    using assms(2) execute_ok [of _ st _ st'] execute_err [of _ st _ st']
    unfolding upsert_session_layout_def by (cases r) fastforce+
  show "fst (get_session_layout_json U sid st') = Inr l \<Longrightarrow> l = None"
    using assms(1) find_row_None [of srow_id "cd_show U (session_uuid sid)" "d_sessions (st_db st')"]
    by (auto simp: get_session_layout_json_def d dest!: fetch_ok)
qed

theorem session_layout_lost_without_row_witness:
  "upsert_session_layout demo_codec (SessionId 3) ''json'' empty_store = (Inr (), empty_store)
   \<and> d_sessions (st_db (snd (upsert_session_layout demo_codec (SessionId 3) ''json'' empty_store))) = d_sessions (st_db empty_store)"
  using session_layout_lost_without_row(1) [of demo_codec "SessionId 3" empty_store "''json''" "Inr ()" empty_store]
  by (simp add: upsert_session_layout_def store_eval)

end
