(* ===== verification/Store_Backfill.thy ===== *)
theory Store_Backfill
  imports Store_Laws
begin

text \<open>
  The window backfill of \<open>Store::open\<close> (\<^verbatim>\<open>store.rs\<close>, \<open>backfill_windows\<close>), which upgrades a
  database from before the window level: a Hoare logic for sequences of statements (partial
  in the database's own errors: the postcondition is about successful runs), what a
  successful backfill establishes, that it succeeds when no statement fails, and what an
  interrupted one leaves behind.
\<close>

section \<open>Triples over successful runs\<close>









section \<open>The invariant of the backfill\<close>






















section \<open>One pane, one session\<close>
















section \<open>Properties\<close>





text \<open>A database from before the window level: two sessions with one pane each, no layouts.\<close>

definition demo_old :: store where
  "demo_old = empty_store\<lparr>st_db :=
     \<lparr>d_sessions =
        [\<lparr>srow_id = ''x'', srow_name = ''one'', srow_created_at = 1, srow_last_active_at = 1, srow_layout = None\<rparr>,
         \<lparr>srow_id = ''xx'', srow_name = ''two'', srow_created_at = 2, srow_last_active_at = 2, srow_layout = None\<rparr>],
      d_panes = [(stub_pane demo_codec 1 (PaneId 0) (SessionId 0))\<lparr>prow_id := ''x'', prow_session_id := ''x''\<rparr>,
                 (stub_pane demo_codec 2 (PaneId 0) (SessionId 0))\<lparr>prow_id := ''xx'', prow_session_id := ''xx''\<rparr>],
      d_blocks = [], d_windows = [], d_has_windows = True\<rparr>\<rparr>"

definition demo_fresh :: "nat \<Rightarrow> nat \<Rightarrow> window_id" where
  "demo_fresh a b = WindowId (of_nat (8 * a + b))"

lemma replicate_numeral: "replicate (numeral n) x = x # replicate (pred_numeral n) x"
  by (simp add: numeral_eq_Suc)

lemma show_nat_one: "show_nat (Suc 0) = ''1''"
  by (simp add: show_nat.simps char_of_def bit_iff_odd)

lemmas backfill_eval = backfill_windows_def backfill_session_def backfill_pane_def insert_window_row_def
  set_window_layout_def assign_tree_panes_def standalone_panes_def tree_panes_def sessions_by_age_def
  insert_on_conflict_def demo_old_def demo_fresh_def stub_pane_def demo_codec_def non_empty_def show_nat_one
  enumerate_simps replicate_numeral



text \<open>
  An interrupted backfill is never completed: the statements run one by one outside a
  transaction and the guard only asks whether any window exists. In the example the fifth
  statement of the first opening fails (as a full disk or a kill would make it); the first
  session has its default window, nothing else was done, and every later opening, in which
  no statement fails, reports success and leaves the second session without any window and
  both panes without a window.
\<close>

theorem interrupted_backfill_is_never_completed:
  "let st1 = snd (backfill_windows demo_codec demo_fresh (\<lambda>_. 9)
        (demo_old\<lparr>st_faults := [False, False, False, False, True]\<rparr>));
     reopened = backfill_windows demo_codec fresh' now' st1
   in fst reopened = Inr () \<and> map wrow_session_id (d_windows (st_db (snd reopened))) = [''x'']
      \<and> map prow_window_id (d_panes (st_db (snd reopened))) = [None, None]
      \<and> fst (backfill_windows demo_codec demo_fresh (\<lambda>_. 9) demo_old) = Inr ()"
  by (simp add: backfill_eval store_eval)

text \<open>
  Default names collide: the first pane outside the session's layout gets the window
  name 1, the name the session's default window already has, although the second window is
  meant to be the next in the sequence.
\<close>

theorem backfill_repeats_the_name_of_the_default_window:
  "let st' = snd (backfill_windows demo_codec demo_fresh (\<lambda>_. 9) demo_old)
   in map (\<lambda>w. (wrow_session_id w, wrow_name w, wrow_position w)) (d_windows (st_db st'))
      = [(''x'', ''1'', 0), (''x'', ''1'', 1), (''xx'', ''1'', 0), (''xx'', ''1'', 1)]"
  by (simp add: backfill_eval store_eval)

section \<open>Success without faults\<close>

definition succeeds :: "'a io \<Rightarrow> bool" where
  "succeeds m \<longleftrightarrow> (\<forall>st. st_faults st = [] \<longrightarrow> (\<exists>x st'. m st = (Inr x, st') \<and> st_faults st' = []))"

lemma succeeds_basic: "succeeds (execute f)" "succeeds (fetch g)" "succeeds (ok x)"
  by (simp_all add: succeeds_def execute_def fetch_def query_def next_fault_def ok_def)

lemma succeeds_and_then: "succeeds m \<Longrightarrow> (\<And>x. succeeds (k x)) \<Longrightarrow> succeeds (and_then m k)"
  unfolding succeeds_def and_then_def by (metis (no_types, lifting) old.sum.simps(6) case_prod_conv)

lemma succeeds_for_each: "(\<And>x. succeeds (body x)) \<Longrightarrow> succeeds (for_each body xs)"
  by (induction xs) (auto intro: succeeds_and_then succeeds_basic)

text \<open>
  C35. The backfill does report success whenever no statement fails and the layout of a
  single pane can be encoded, whatever the database holds, malformed identifiers and
  layouts included.
\<close>

theorem backfill_succeeds_without_faults:
  assumes "st_faults st = []" "\<forall>p. cd_layout_json U (Leaf p) \<noteq> None"
  shows "fst (backfill_windows U fresh now st) = Inr ()"
proof -
  obtain js where js: "\<And>p. cd_layout_json U (Leaf p) = Some (js p)"
    using choice [of "\<lambda>p y. cd_layout_json U (Leaf p) = Some y"] assms(2) by auto
  have "succeeds (backfill_pane U fr sid t kp)" for fr sid t kp
    unfolding backfill_pane_def Let_def insert_window_row_def set_window_layout_def
    by (cases "cd_parse U (prow_id (snd kp))") (simp_all add: js succeeds_and_then succeeds_basic)
  then have "succeeds (backfill_session U fresh now ir)" for ir
    unfolding backfill_session_def Let_def insert_window_row_def set_window_layout_def assign_tree_panes_def
      standalone_panes_def
    by (auto split: option.split intro!: succeeds_and_then succeeds_basic succeeds_for_each)
  then have "succeeds (backfill_windows U fresh now)"
    unfolding backfill_windows_def by (auto intro!: succeeds_and_then succeeds_basic succeeds_for_each)
  then show ?thesis using assms(1) by (force simp: succeeds_def)
qed

theorem backfill_succeeds_without_faults_witness:
  "fst (backfill_windows (demo_codec\<lparr>cd_layout_json := \<lambda>_. Some ''leaf''\<rparr>) demo_fresh (\<lambda>_. 9) demo_old) = Inr ()"
  using backfill_succeeds_without_faults [of demo_old "demo_codec\<lparr>cd_layout_json := \<lambda>_. Some ''leaf''\<rparr>" demo_fresh "\<lambda>_. 9"]
  by (simp add: demo_old_def empty_store_def)

end
