(* ===== verification/Block_Index.thy ===== *)
theory Block_Index
  imports Block_Store "HOL-Library.Multiset"
begin

text \<open>
  The full-text index of \<^verbatim>\<open>crates/pyred/src/index.rs\<close> and the snippets of
  \<^verbatim>\<open>search_filter.rs\<close>. Documents are records of the indexed fields; the index is the list of
  committed documents and those added since the last commit. The search engine itself
  (query parsing, which documents a text query matches, the order by relevance) is a
  parameter; the clauses that the code builds around it are modelled. Adding and committing
  can fail, as a schedule of faults says.
\<close>

record index_doc =
  doc_block_id :: string
  doc_pane_id :: string
  doc_session_id :: string
  doc_started_at :: int
  doc_command :: string
  doc_stdout :: string
  doc_exit_code :: int

record block_index =
  ix_committed :: "index_doc list"
  ix_pending :: "index_doc list"
  ix_faults :: "bool list"

datatype index_error = AddDocument | Commit | ParseQuery

definition i64_min :: int where
  "i64_min = - (2 ^ 63)"

definition i64_max :: int where
  "i64_max = 2 ^ 63 - 1"

definition make_doc :: "codec \<Rightarrow> block \<Rightarrow> string \<Rightarrow> index_doc" where
  "make_doc U b stdout =
     \<lparr>doc_block_id = cd_show U (block_uuid (blk_id b)), doc_pane_id = cd_show U (pane_uuid (blk_pane b)),
      doc_session_id = cd_show U (session_uuid (blk_session b)), doc_started_at = timestamp_millis (blk_started_at b),
      doc_command = blk_command b, doc_stdout = stdout,
      doc_exit_code = (case blk_exit_code b of Some c \<Rightarrow> c | None \<Rightarrow> i64_min)\<rparr>"

definition ix_fault :: "block_index \<Rightarrow> bool \<times> block_index" where
  "ix_fault ix = (case ix_faults ix of [] \<Rightarrow> (False, ix) | b # bs \<Rightarrow> (b, ix\<lparr>ix_faults := bs\<rparr>))"

definition add_document :: "index_doc \<Rightarrow> block_index \<Rightarrow> (index_error + unit) \<times> block_index" where
  "add_document doc ix =
     (let (fault, ix') = ix_fault ix
      in if fault then (Inl AddDocument, ix') else (Inr (), ix'\<lparr>ix_pending := ix_pending ix' @ [doc]\<rparr>))"

definition index_commit :: "block_index \<Rightarrow> (index_error + unit) \<times> block_index" where
  "index_commit ix =
     (let (fault, ix') = ix_fault ix
      in if fault then (Inl Commit, ix')
         else (Inr (), ix'\<lparr>ix_committed := ix_committed ix' @ ix_pending ix', ix_pending := []\<rparr>))"

definition add_block :: "codec \<Rightarrow> block \<Rightarrow> string \<Rightarrow> block_index \<Rightarrow> (index_error + unit) \<times> block_index" where
  "add_block U b stdout ix =
     (case add_document (make_doc U b stdout) ix of
        (Inl e, ix') \<Rightarrow> (Inl e, ix')
      | (Inr _, ix') \<Rightarrow> index_commit ix')"

definition doc_count :: "block_index \<Rightarrow> nat" where
  "doc_count ix = length (ix_committed ix)"

text \<open>
  \<open>backfill\<close>: the index \<open>i\<close> of the block decides about the commits in between; a document
  that could not be added skips them.
\<close>

definition backfill_batch_size :: nat where
  "backfill_batch_size = 500"

fun backfill_loop ::
  "codec \<Rightarrow> (block_id \<Rightarrow> bytes option) \<Rightarrow> nat \<Rightarrow> block list \<Rightarrow> nat \<Rightarrow> block_index \<Rightarrow> nat \<times> block_index" where
  "backfill_loop U read_blob i [] added ix = (added, ix)"
| "backfill_loop U read_blob i (b # bs) added ix =
     (let stdout_bytes = (case read_blob (blk_id b) of Some bytes \<Rightarrow> bytes | None \<Rightarrow> []);
          doc = make_doc U b (from_utf8_lossy stdout_bytes)
      in case add_document doc ix of
           (Inl _, ix') \<Rightarrow> backfill_loop U read_blob (i + 1) bs added ix'
         | (Inr _, ix') \<Rightarrow>
             (let ix'' = (if (i + 1) mod backfill_batch_size = 0 then snd (index_commit ix') else ix')
              in backfill_loop U read_blob (i + 1) bs (added + 1) ix''))"

definition index_backfill ::
  "codec \<Rightarrow> (block_id \<Rightarrow> bytes option) \<Rightarrow> block list \<Rightarrow> block_index \<Rightarrow> (index_error + nat) \<times> block_index" where
  "index_backfill U read_blob blocks ix =
     (let (added, ix') = backfill_loop U read_blob 0 blocks 0 ix
      in case index_commit ix' of (Inl e, ix'') \<Rightarrow> (Inl e, ix'') | (Inr _, ix'') \<Rightarrow> (Inr added, ix''))"

section \<open>Search\<close>

text \<open>The clauses besides the text query; each is a condition on a document.\<close>

definition exit_clause :: "bool \<Rightarrow> int option \<Rightarrow> (index_doc \<Rightarrow> bool) list" where
  "exit_clause failures_only exit_code =
     (case exit_code of
        Some code \<Rightarrow> [\<lambda>d. doc_exit_code d = code]
      | None \<Rightarrow> if failures_only then [\<lambda>d. 1 \<le> doc_exit_code d \<and> doc_exit_code d \<le> i64_max] else [])"

definition session_clause :: "codec \<Rightarrow> session_id option \<Rightarrow> (index_doc \<Rightarrow> bool) list" where
  "session_clause U session =
     (case session of Some s \<Rightarrow> [\<lambda>d. doc_session_id d = cd_show U (session_uuid s)] | None \<Rightarrow> [])"

definition pane_clause :: "codec \<Rightarrow> pane_id option \<Rightarrow> (index_doc \<Rightarrow> bool) list" where
  "pane_clause U pane =
     (case pane of Some p \<Rightarrow> [\<lambda>d. doc_pane_id d = cd_show U (pane_uuid p)] | None \<Rightarrow> [])"

text \<open>
  \<open>parse q\<close> is the parsed query as a condition on documents (or a syntax error), \<open>rank q\<close>
  orders the matching documents by relevance.
\<close>

definition search ::
  "(string \<Rightarrow> (index_doc \<Rightarrow> bool) option) \<Rightarrow> (string \<Rightarrow> index_doc list \<Rightarrow> index_doc list) \<Rightarrow> codec
   \<Rightarrow> string \<Rightarrow> u32 \<Rightarrow> bool \<Rightarrow> session_id option \<Rightarrow> pane_id option \<Rightarrow> int option \<Rightarrow> block_index
   \<Rightarrow> index_error + block_id list" where
  "search parse rank U q limit failures_only session pane exit_code ix =
     (case parse q of
        None \<Rightarrow> Inl ParseQuery
      | Some text_query \<Rightarrow>
          (let clauses = [text_query] @ exit_clause failures_only exit_code @ session_clause U session @ pane_clause U pane;
               matching = filter (\<lambda>d. list_all (\<lambda>c. c d) clauses) (ix_committed ix);
               top = take (unat limit) (rank q matching)
           in Inr (List.map_filter (\<lambda>d. map_option BlockId (cd_parse U (doc_block_id d))) top)))"

record block_hit =
  hit_block :: block
  hit_snippet :: string

definition hits_with_snippets :: "codec \<Rightarrow> store \<Rightarrow> block list \<Rightarrow> nat \<Rightarrow> block_hit list" where
  "hits_with_snippets U st blocks max_chars =
     map (\<lambda>b. \<lparr>hit_block = b, hit_snippet = stdout_snippet U (blk_id b) max_chars st\<rparr>) blocks"

section \<open>Properties\<close>

text \<open>What the code relies on of the ranking: it returns the matching documents in some order.\<close>

definition rank_ok :: "(string \<Rightarrow> index_doc list \<Rightarrow> index_doc list) \<Rightarrow> bool" where
  "rank_ok rank \<longleftrightarrow> (\<forall>q ds. mset (rank q ds) = mset ds)"

lemma add_block_committed:
  assumes "ix_pending ix = []"
  shows "add_block U b out ix = (Inr (), ix') \<Longrightarrow> ix_committed ix' = ix_committed ix @ [make_doc U b out] \<and> ix_pending ix' = []"
    and "ix_committed (snd (add_block U b out ix)) \<in> {ix_committed ix, ix_committed ix @ [make_doc U b out]}"
  using assms
  by (auto simp: add_block_def add_document_def index_commit_def ix_fault_def Let_def split: list.splits prod.splits if_splits)

text \<open>
  C28. Filters of a search: every block returned comes from a committed document that
  matches the text query, at most \<open>limit\<close> are returned, and the filters hold: an exact exit
  code when one is asked for (the failures flag is then ignored), a code of at least 1 when
  only failures are asked for (so neither a success nor a missing code), the session and
  the pane when given. Every other committed document that satisfies them is returned too
  when the limit is large enough.
\<close>

theorem search_respects_filters:
  assumes "codec_ok U" "rank_ok rank" "parse q = Some tq"
    and "search parse rank U q limit failures session pane code ix = Inr ids"
  defines "wanted \<equiv> \<lambda>d. tq d \<and> (case code of Some c \<Rightarrow> doc_exit_code d = c
        | None \<Rightarrow> failures \<longrightarrow> 1 \<le> doc_exit_code d \<and> doc_exit_code d \<le> i64_max)
      \<and> (\<forall>s\<in>set_option session. doc_session_id d = cd_show U (session_uuid s))
      \<and> (\<forall>p\<in>set_option pane. doc_pane_id d = cd_show U (pane_uuid p))"
  shows "length ids \<le> unat limit
    \<and> (\<forall>i\<in>set ids. \<exists>d\<in>set (ix_committed ix). wanted d \<and> cd_parse U (doc_block_id d) = Some (block_uuid i))
    \<and> (length (filter wanted (ix_committed ix)) \<le> unat limit \<longrightarrow>
      (\<forall>d\<in>set (ix_committed ix). wanted d \<longrightarrow> (\<forall>u. cd_parse U (doc_block_id d) = Some u \<longrightarrow> BlockId u \<in> set ids)))"
proof (rule conjI [OF _ conjI [OF _ impI]])
  let ?f = "\<lambda>d. map_option BlockId (cd_parse U (doc_block_id d))"
  have "filter (\<lambda>d. list_all (\<lambda>c. c d) ([tq] @ exit_clause failures code @ session_clause U session @ pane_clause U pane)) (ix_committed ix)
      = filter wanted (ix_committed ix)"
    by (rule filter_cong) (auto simp: wanted_def exit_clause_def session_clause_def pane_clause_def split: option.split)
  then have ids: "ids = List.map_filter ?f (take (unat limit) (rank q (filter wanted (ix_committed ix))))"
    using assms(3,4) by (simp add: search_def Let_def)
  have rk: "mset (rank q ds) = mset ds" for ds using assms(2) by (simp add: rank_ok_def)
  then have sets: "set (rank q ds) = set ds" "length (rank q ds) = length ds" for ds
    by (metis set_mset_mset, metis size_mset)
  have lf: "length (List.map_filter ?f xs) \<le> length xs" for xs
    by (induction xs) (auto simp: List.map_filter_simps split: option.split)
  show "length ids \<le> unat limit" unfolding ids by (rule le_trans [OF lf]) simp
  show "\<forall>i\<in>set ids. \<exists>d\<in>set (ix_committed ix). wanted d \<and> cd_parse U (doc_block_id d) = Some (block_uuid i)"
    unfolding ids List.map_filter_def using sets(1) by (auto dest!: in_set_takeD)
  assume "length (filter wanted (ix_committed ix)) \<le> unat limit"
  then have "ids = List.map_filter ?f (rank q (filter wanted (ix_committed ix)))"
    unfolding ids using sets(2) by simp
  then show "\<forall>d\<in>set (ix_committed ix). wanted d \<longrightarrow> (\<forall>u. cd_parse U (doc_block_id d) = Some u \<longrightarrow> BlockId u \<in> set ids)"
    using sets(1) by (auto simp: List.map_filter_def image_iff)
qed

text \<open>A concrete engine: a query matches the commands equal to it, in index order.\<close>

definition demo_parse :: "string \<Rightarrow> (index_doc \<Rightarrow> bool) option" where
  "demo_parse q = Some (\<lambda>d. doc_command d = q)"

definition demo_index_codec :: codec where
  "demo_index_codec =
     \<lparr>cd_show = \<lambda>u. replicate (unat u) CHR ''x'', cd_parse = \<lambda>s. Some (of_nat (length s)),
      cd_layout_json = \<lambda>_. None, cd_layout_parse = \<lambda>_. None, cd_millis = Some,
      cd_unzip = \<lambda>f. (case f of Frame b \<Rightarrow> Some b | Unfinished _ \<Rightarrow> None)\<rparr>"

definition demo_run :: "uuid \<Rightarrow> int option \<Rightarrow> block" where
  "demo_run i code =
     \<lparr>blk_id = BlockId i, blk_pane = PaneId 1, blk_session = SessionId 1, blk_command = ''make'', blk_cwd = None,
      blk_started_at = 0, blk_ended_at = None, blk_exit_code = code, blk_stdout_len = 0\<rparr>"

theorem search_respects_filters_witness:
  "let ix = snd (index_backfill demo_index_codec (\<lambda>_. None) [demo_run 1 (Some 0), demo_run 2 (Some 2), demo_run 3 None]
       \<lparr>ix_committed = [], ix_pending = [], ix_faults = []\<rparr>)
   in search demo_parse (\<lambda>_ ds. ds) demo_index_codec ''make'' 10 True None None None ix = Inr [BlockId 2]
      \<and> length [BlockId 2] \<le> unat (10 :: u32)"
proof -
  let ?ix = "snd (index_backfill demo_index_codec (\<lambda>_. None) [demo_run 1 (Some 0), demo_run 2 (Some 2), demo_run 3 None]
       \<lparr>ix_committed = [], ix_pending = [], ix_faults = []\<rparr>)"
  have s: "search demo_parse (\<lambda>_ ds. ds) demo_index_codec ''make'' 10 True None None None ?ix = Inr [BlockId 2]"
    by (simp add: search_def demo_parse_def demo_index_codec_def exit_clause_def session_clause_def pane_clause_def
        index_backfill_def add_document_def index_commit_def ix_fault_def backfill_batch_size_def make_doc_def demo_run_def
        i64_min_def i64_max_def List.map_filter_simps)
  have "codec_ok demo_index_codec" by (simp add: codec_ok_def demo_index_codec_def)
  moreover have "rank_ok (\<lambda>_ ds. ds)" by (simp add: rank_ok_def)
  moreover have "demo_parse ''make'' = Some (\<lambda>d. doc_command d = ''make'')" by (simp add: demo_parse_def)
  ultimately have "length [BlockId 2] \<le> unat (10 :: u32)"
    using search_respects_filters [OF _ _ _ s, THEN conjunct1] by blast
  then show ?thesis using s by (simp add: Let_def)
qed

lemma backfill_loop_docs:
  assumes "backfill_loop U rd i bs added ix = (added', ix')" "ix_faults ix = []"
  shows "added' = added + length bs \<and> ix_faults ix' = []
    \<and> ix_committed ix' @ ix_pending ix' = ix_committed ix @ ix_pending ix
       @ map (\<lambda>b. make_doc U b (from_utf8_lossy (case rd (blk_id b) of Some x \<Rightarrow> x | None \<Rightarrow> []))) bs"
  using assms
proof (induction bs arbitrary: i added ix)
  case Nil
  then show ?case by simp
next
  case (Cons b bs)
  let ?doc = "make_doc U b (from_utf8_lossy (case rd (blk_id b) of Some x \<Rightarrow> x | None \<Rightarrow> []))"
  let ?ix1 = "ix\<lparr>ix_pending := ix_pending ix @ [?doc]\<rparr>"
  let ?ix2 = "if (i + 1) mod backfill_batch_size = 0 then snd (index_commit ?ix1) else ?ix1"
  have run: "backfill_loop U rd (i + 1) bs (added + 1) ?ix2 = (added', ix')"
    using Cons.prems by (simp add: add_document_def ix_fault_def Let_def cong: if_cong)
  have "ix_faults ?ix2 = []" "ix_committed ?ix2 @ ix_pending ?ix2 = ix_committed ix @ ix_pending ix @ [?doc]"
    using Cons.prems(2) by (simp_all add: index_commit_def ix_fault_def)
  with Cons.IH [OF run] show ?case by simp
qed

text \<open>
  C27. Backfilling the index: when no operation of the engine fails, every given block gets
  exactly one committed document, in order, after the ones already there, wherever the
  intermediate commits fall; an unreadable output blob is indexed as empty output; the
  number returned is the number of blocks and nothing stays uncommitted.
\<close>

theorem index_backfill_adds_every_block:
  assumes "ix_faults ix = []" "ix_pending ix = []"
  shows "\<exists>ix'. index_backfill U rd blocks ix = (Inr (length blocks), ix') \<and> ix_pending ix' = []
    \<and> ix_committed ix' = ix_committed ix
       @ map (\<lambda>b. make_doc U b (from_utf8_lossy (case rd (blk_id b) of Some x \<Rightarrow> x | None \<Rightarrow> []))) blocks"
proof -
  obtain added ix1 where run: "backfill_loop U rd 0 blocks 0 ix = (added, ix1)" by fastforce
  from backfill_loop_docs [OF run assms(1)] assms(2) show ?thesis
    by (auto simp: index_backfill_def run index_commit_def ix_fault_def)
qed

theorem index_backfill_adds_every_block_witness:
  "\<exists>ix'. index_backfill demo_index_codec (\<lambda>_. None) [demo_run 1 (Some 0), demo_run 2 None]
       \<lparr>ix_committed = [], ix_pending = [], ix_faults = []\<rparr> = (Inr 2, ix') \<and> map doc_exit_code (ix_committed ix') = [0, i64_min]"
  using index_backfill_adds_every_block [of "\<lparr>ix_committed = [], ix_pending = [], ix_faults = []\<rparr>" demo_index_codec "\<lambda>_. None"
      "[demo_run 1 (Some 0), demo_run 2 None]"]
  by (auto simp: make_doc_def demo_run_def)

end
