(* ===== verification/Pty_Pipeline.thy ===== *)
theory Pty_Pipeline
  imports Block_Parser State_Tracker Store_Laws Block_Index Ring_Buffer
begin

text \<open>
  The per-pane tasks of \<^verbatim>\<open>crates/pyred/src/pty.rs\<close>: the resolution of the command to
  spawn, the reader thread (ring buffer, activity, fan-out), and the parser task that turns
  block events into tracker markers, database rows, output blobs and index documents, with
  its final drain. Clock readings and the working directory read from the process table
  come with each event; a PTY, a process and their threads are outside the model.
\<close>

section \<open>Spawning\<close>

text \<open>
  The shell (request, then environment, then the default) and whether its integration
  script is injected. \<open>rcfile\<close> is the path of the script, if it could be written.
\<close>

definition resolve_shell :: "string option \<Rightarrow> string option \<Rightarrow> string" where
  "resolve_shell requested env_shell =
     (case requested of
        Some s \<Rightarrow> s
      | None \<Rightarrow> (case env_shell of Some s \<Rightarrow> s | None \<Rightarrow> ''/bin/bash''))"

text \<open>\<open>Path::file_name\<close> of a path given as text: the last component, if it is a normal one.\<close>

fun components :: "string \<Rightarrow> string \<Rightarrow> string list" where
  "components acc [] = (if acc = [] then [] else [acc])"
| "components acc (c # cs) =
     (if c = CHR ''/'' then (if acc = [] then components [] cs else acc # components [] cs)
      else components (acc @ [c]) cs)"

text \<open>A component that is a single dot is dropped, except as the first of a relative path.\<close>

definition file_name :: "string \<Rightarrow> string option" where
  "file_name path =
     (let cs = components [] path;
          cs' = (case cs of
                   [] \<Rightarrow> []
                 | c # rest \<Rightarrow> (if c = ''.'' \<and> path \<noteq> [] \<and> hd path \<noteq> CHR ''/'' then [c] else filter (\<lambda>x. x \<noteq> ''.'') [c])
                     @ filter (\<lambda>x. x \<noteq> ''.'') rest)
      in if cs' = [] \<or> last cs' = ''..'' \<or> last cs' = ''.'' then None else Some (last cs'))"

definition shell_argv :: "string \<Rightarrow> string option \<Rightarrow> string option \<Rightarrow> string list" where
  "shell_argv shell no_auto_integration rcfile =
     (let base = (case file_name shell of Some n \<Rightarrow> n | None \<Rightarrow> []);
          auto_integrate = (base = ''bash'' \<and> no_auto_integration \<noteq> Some ''1'')
      in if auto_integrate
         then (case rcfile of Some path \<Rightarrow> [shell, ''--rcfile'', path] | None \<Rightarrow> [shell])
         else [shell])"

section \<open>The reader thread\<close>

text \<open>One successful read: the bytes go to the ring, the tracker, the subscribers and the parser.\<close>

record reader =
  rd_ring :: ring_buf
  rd_tracker :: tracker
  rd_broadcast :: "bytes list"
  rd_parse_queue :: "bytes list"

definition ring_capacity :: nat where
  "ring_capacity = 64 * 1024"

definition reader_chunk :: "instant \<Rightarrow> bytes \<Rightarrow> reader \<Rightarrow> reader" where
  "reader_chunk now bs r =
     r\<lparr>rd_ring := push bs (rd_ring r), rd_tracker := touch_output now (rd_tracker r),
       rd_broadcast := rd_broadcast r @ [bs], rd_parse_queue := rd_parse_queue r @ [bs]\<rparr>"

text \<open>The loop ends at an empty read (end of file) or an error.\<close>

fun reader_loop :: "(instant \<times> bytes option) list \<Rightarrow> reader \<Rightarrow> reader" where
  "reader_loop [] r = r"
| "reader_loop ((now, res) # rest) r =
     (case res of
        None \<Rightarrow> r
      | Some bs \<Rightarrow> if bs = [] then r else reader_loop rest (reader_chunk now bs r))"

section \<open>The parser task\<close>

record ev_env =
  ee_mono :: instant
  ee_now :: int
  ee_proc_cwd :: "string option"

record parser_task =
  pk_pane :: pane_id
  pk_session :: session_id
  pk_tracker :: tracker
  pk_sent :: "block_event list"
  pk_writers :: "(block_id \<times> blob_writer) list"
  pk_bufs :: "(block_id \<times> bytes) list"
  pk_meta :: "(block_id \<times> block) list"
  pk_store :: store
  pk_index :: block_index

definition index_cap :: nat where
  "index_cap = 256 * 1024"

definition marker_of :: "block_event \<Rightarrow> osc133_marker option" where
  "marker_of ev =
     (case ev of
        PromptStart _ \<Rightarrow> Some MA
      | CommandStart _ _ _ _ \<Rightarrow> Some MC
      | BlockEnd _ exit_code \<Rightarrow> Some (MD exit_code)
      | OutputChunk _ _ \<Rightarrow> None)"

definition note_event :: "ev_env \<Rightarrow> block_event \<Rightarrow> parser_task \<Rightarrow> parser_task" where
  "note_event env ev t =
     t\<lparr>pk_sent := pk_sent t @ [ev],
       pk_tracker := (case marker_of ev of
                        None \<Rightarrow> pk_tracker t
                      | Some mk \<Rightarrow> push_marker (ee_mono env) mk (pk_tracker t))\<rparr>"

definition proto_block :: "ev_env \<Rightarrow> block_id \<Rightarrow> string \<Rightarrow> string option \<Rightarrow> parser_task \<Rightarrow> block" where
  "proto_block env bid command cwd t =
     \<lparr>blk_id = bid, blk_pane = pk_pane t, blk_session = pk_session t, blk_command = command,
      blk_cwd = (case ee_proc_cwd env of Some c \<Rightarrow> Some c | None \<Rightarrow> cwd), blk_started_at = ee_now env,
      blk_ended_at = None, blk_exit_code = None, blk_stdout_len = 0\<rparr>"

definition start_block :: "codec \<Rightarrow> ev_env \<Rightarrow> block_id \<Rightarrow> string \<Rightarrow> string option \<Rightarrow> parser_task \<Rightarrow> parser_task" where
  "start_block U env bid command cwd t =
     (let b = proto_block env bid command cwd t
      in case create_block U b (pk_store t) of
           (Inl _, st) \<Rightarrow> t\<lparr>pk_store := st\<rparr>
         | (Inr _, st) \<Rightarrow>
             (let (opened, st') = blob_open (blob_path_for U (st_data_dir st) bid) st
              in t\<lparr>pk_store := st',
                   pk_writers := (case opened of Inr bw \<Rightarrow> AList.update bid bw (pk_writers t) | Inl _ \<Rightarrow> pk_writers t),
                   pk_bufs := AList.update bid [] (pk_bufs t),
                   pk_meta := AList.update bid b (pk_meta t)\<rparr>))"

definition buffer_output :: "block_id \<Rightarrow> bytes \<Rightarrow> (block_id \<times> bytes) list \<Rightarrow> (block_id \<times> bytes) list" where
  "buffer_output block data bufs =
     (case map_of bufs block of
        None \<Rightarrow> bufs
      | Some buf \<Rightarrow>
          (let remaining = index_cap - length buf
           in if remaining > 0 then AList.update block (buf @ take remaining data) bufs else bufs))"

text \<open>A failed write leaves the writer as it was; the output is then cut, not the daemon.\<close>

definition output_block :: "block_id \<Rightarrow> bytes \<Rightarrow> parser_task \<Rightarrow> parser_task" where
  "output_block block data t =
     (let t1 = t\<lparr>pk_bufs := buffer_output block data (pk_bufs t)\<rparr>
      in case map_of (pk_writers t1) block of
           None \<Rightarrow> t1
         | Some bw \<Rightarrow>
             (case blob_write bw data (pk_store t1) of
                (Inl _, st) \<Rightarrow> t1\<lparr>pk_store := st\<rparr>
              | (Inr bw', st) \<Rightarrow> t1\<lparr>pk_store := st, pk_writers := AList.update block bw' (pk_writers t1)\<rparr>))"

definition close_writer :: "blob_writer option \<Rightarrow> store \<Rightarrow> u64 \<times> store" where
  "close_writer bw st =
     (case bw of
        None \<Rightarrow> (0, st)
      | Some w \<Rightarrow> (case blob_close w st of (Inl _, st') \<Rightarrow> (0, st') | (Inr len, st') \<Rightarrow> (len, st')))"

definition end_block :: "codec \<Rightarrow> ev_env \<Rightarrow> block_id \<Rightarrow> int option \<Rightarrow> parser_task \<Rightarrow> parser_task" where
  "end_block U env block exit_code t =
     (let (stdout_len, st) = close_writer (map_of (pk_writers t) block) (pk_store t);
          st' = snd (finalize_block U block (ee_now env) exit_code stdout_len st);
          stdout_text = (case Option.bind (map_of (pk_bufs t) block) from_utf8 of Some s \<Rightarrow> s | None \<Rightarrow> [])
      in t\<lparr>pk_store := st',
           pk_writers := AList.delete block (pk_writers t),
           pk_bufs := AList.delete block (pk_bufs t),
           pk_meta := AList.delete block (pk_meta t),
           pk_index := (case map_of (pk_meta t) block of
                          None \<Rightarrow> pk_index t
                        | Some meta \<Rightarrow> snd (add_block U meta stdout_text (pk_index t)))\<rparr>)"

fun persist_event :: "codec \<Rightarrow> ev_env \<Rightarrow> block_event \<Rightarrow> parser_task \<Rightarrow> parser_task" where
  "persist_event U env (PromptStart _) t = t"
| "persist_event U env (CommandStart _ block command cwd) t = start_block U env block command cwd t"
| "persist_event U env (OutputChunk block data) t = output_block block data t"
| "persist_event U env (BlockEnd block exit_code) t = end_block U env block exit_code t"

definition handle_event :: "codec \<Rightarrow> ev_env \<times> block_event \<Rightarrow> parser_task \<Rightarrow> parser_task" where
  "handle_event U e t = persist_event U (fst e) (snd e) (note_event (fst e) (snd e) t)"

definition handle_events :: "codec \<Rightarrow> (ev_env \<times> block_event) list \<Rightarrow> parser_task \<Rightarrow> parser_task" where
  "handle_events U evs t = fold (handle_event U) evs t"

text \<open>
  The whole task: chunks from the queue through the parser, every event handled in order
  (\<open>env n\<close> is what the n-th event of the task reads), then the drain of open blocks.
\<close>

fun parser_loop ::
  "('v \<Rightarrow> bytes \<Rightarrow> 'v \<times> vte_action list) \<Rightarrow> (nat \<Rightarrow> block_id) \<Rightarrow> codec \<Rightarrow> (nat \<Rightarrow> ev_env) \<Rightarrow> 'v block_parser
     \<Rightarrow> bytes list \<Rightarrow> parser_task \<Rightarrow> parser_task" where
  "parser_loop advance fresh U env p [] t = t"
| "parser_loop advance fresh U env p (chunk # rest) t =
     (let (p', evs) = feed advance fresh p chunk;
          n = length (pk_sent t);
          t' = handle_events U (map (\<lambda>(i, ev). (env i, ev)) (enumerate n evs)) t
      in parser_loop advance fresh U env p' rest t')"

fun drain_writers :: "codec \<Rightarrow> int \<Rightarrow> (block_id \<times> blob_writer) list \<Rightarrow> store \<Rightarrow> store" where
  "drain_writers U now [] st = st"
| "drain_writers U now ((block, bw) # rest) st =
     (let (len, st') = close_writer (Some bw) st
      in drain_writers U now rest (snd (finalize_block U block now None len st')))"

definition run_parser_task ::
  "('v \<Rightarrow> bytes \<Rightarrow> 'v \<times> vte_action list) \<Rightarrow> (nat \<Rightarrow> block_id) \<Rightarrow> codec \<Rightarrow> (nat \<Rightarrow> ev_env) \<Rightarrow> int \<Rightarrow> 'v
     \<Rightarrow> bytes list \<Rightarrow> parser_task \<Rightarrow> parser_task" where
  "run_parser_task advance fresh U env shutdown_now v chunks t =
     (let t' = parser_loop advance fresh U env (parser_new v (pk_session t)) chunks t
      in t'\<lparr>pk_store := drain_writers U shutdown_now (pk_writers t') (pk_store t'), pk_writers := []\<rparr>)"

section \<open>What is indexed\<close>

text \<open>Metadata waits for the end of its block without an exit code, and so do its documents.\<close>

definition no_code :: "parser_task \<Rightarrow> bool" where
  "no_code t \<longleftrightarrow> (\<forall>m\<in>snd ` set (pk_meta t). blk_exit_code m = None)
     \<and> (\<forall>d\<in>set (ix_committed (pk_index t)) \<union> set (ix_pending (pk_index t)). doc_exit_code d = i64_min)"

lemma add_block_docs:
  "set (ix_committed (snd (add_block U b out ix))) \<union> set (ix_pending (snd (add_block U b out ix)))
     \<subseteq> insert (make_doc U b out) (set (ix_committed ix) \<union> set (ix_pending ix))"
  by (auto simp: add_block_def add_document_def index_commit_def ix_fault_def Let_def split: list.splits)

lemma no_code_note: "no_code (note_event env ev t) = no_code t"
  by (simp add: no_code_def note_event_def)

lemma start_block_fields:
  "pk_index (start_block U env bid cmd cwd t) = pk_index t"
  "pk_meta (start_block U env bid cmd cwd t) \<in> {pk_meta t, AList.update bid (proto_block env bid cmd cwd t) (pk_meta t)}"
  by (simp_all add: start_block_def Let_def split: prod.split sum.split)

lemma no_code_start: "no_code t \<Longrightarrow> no_code (start_block U env bid cmd cwd t)"
  using start_block_fields [of U env bid cmd cwd t] set_update_subset [of bid "proto_block env bid cmd cwd t" "pk_meta t"]
  unfolding no_code_def by (auto simp: proto_block_def)

lemma no_code_output: "no_code t \<Longrightarrow> no_code (output_block b d t)"
  by (auto simp: no_code_def output_block_def Let_def split: option.split prod.split sum.split)

lemma no_code_end:
  assumes "no_code t"
  shows "no_code (end_block U env b code t)"
proof (cases "map_of (pk_meta t) b")
  case None
  then show ?thesis using assms
    by (auto simp: no_code_def end_block_def Let_def set_delete case_prod_unfold)
next
  case (Some m)
  then have "blk_exit_code m = None" using assms map_of_SomeD [OF Some] by (force simp: no_code_def)
  then have "doc_exit_code (make_doc U m out) = i64_min" for out by (simp add: make_doc_def)
  then show ?thesis
    using assms Some add_block_docs [of U m _ "pk_index t"]
    by (fastforce simp: no_code_def end_block_def Let_def set_delete case_prod_unfold)
qed

lemma no_code_handle: "no_code t \<Longrightarrow> no_code (handle_event U e t)"
  by (cases "snd e") (simp_all add: handle_event_def no_code_note no_code_start no_code_output no_code_end)

lemma no_code_events: "no_code t \<Longrightarrow> no_code (handle_events U evs t)"
  unfolding handle_events_def by (induction evs arbitrary: t) (simp_all add: no_code_handle)

lemma no_code_loop: "no_code t \<Longrightarrow> no_code (parser_loop advance fresh U env p chunks t)"
  by (induction chunks arbitrary: p t) (simp_all add: no_code_events case_prod_unfold Let_def)

text \<open>
  C36. Failed commands are never found: the parser task indexes a block with the metadata it
  captured when the command started, which has no exit code yet. So, whatever a pane
  prints, however its commands end and whichever operations fail, a search restricted to
  failures, or to any exit code, finds nothing among the blocks indexed by the task: it
  answers with the empty list.
\<close>

theorem live_blocks_are_indexed_without_exit_code:
  assumes "pk_meta t = []" "ix_committed (pk_index t) = []" "ix_pending (pk_index t) = []"
    and "t' = run_parser_task advance fresh U env now v chunks t"
    and "rank_ok rank" "parse q = Some tq" "failures \<or> code \<noteq> None" "\<forall>c\<in>set_option code. - (2 ^ 31) \<le> c"
  shows "search parse rank U q limit failures session pane code (pk_index t') = Inr []"
proof -
  have "no_code t" using assms(1-3) by (simp add: no_code_def)
  then have "no_code t'"
    using no_code_loop [of t advance fresh U env "parser_new v (pk_session t)" chunks]
    by (simp add: assms(4) run_parser_task_def Let_def no_code_def)
  then have all: "\<forall>d\<in>set (ix_committed (pk_index t')). doc_exit_code d = i64_min" by (simp add: no_code_def)
  have no: "\<not> list_all (\<lambda>c. c d) (exit_clause failures code)" if "d \<in> set (ix_committed (pk_index t'))" for d
    using all that assms(7,8) by (auto simp: exit_clause_def i64_min_def split: option.splits)
  have "filter (\<lambda>d. list_all (\<lambda>c. c d) ([tq] @ exit_clause failures code @ session_clause U session @ pane_clause U pane))
      (ix_committed (pk_index t')) = []"
    using no by (auto simp: filter_empty_conv)
  moreover have "rank q [] = []"
    using assms(5) unfolding rank_ok_def by (metis mset_zero_iff)
  ultimately show ?thesis using assms(6) by (simp add: search_def Let_def List.map_filter_simps del: filter_append)
qed

section \<open>A block from start to end\<close>


lemma no_fault [simp]: "st_faults st = [] \<Longrightarrow> next_fault st = (False, st)"
  by (simp add: next_fault_def)









definition demo_env :: "int \<Rightarrow> ev_env" where
  "demo_env t = \<lparr>ee_mono = 5, ee_now = t, ee_proc_cwd = Some ''/home''\<rparr>"

definition demo_task :: parser_task where
  "demo_task =
     \<lparr>pk_pane = PaneId 5, pk_session = SessionId 6, pk_tracker = tracker_new 0 7, pk_sent = [], pk_writers = [],
      pk_bufs = [], pk_meta = [], pk_store = empty_store,
      pk_index = \<lparr>ix_committed = [], ix_pending = [], ix_faults = []\<rparr>\<rparr>"


theorem live_blocks_are_indexed_without_exit_code_witness:
  "let t' = run_parser_task (\<lambda>v bs. (v, [OscDispatch [''133'', ''C''], OscDispatch [''133'', ''D'', ''2'']])) (\<lambda>_. BlockId 1)
        demo_codec (\<lambda>_. demo_env 0) 9 () [''x''] demo_task
   in search demo_parse (\<lambda>_ ds. ds) demo_codec [] 10 True None None None (pk_index t') = Inr []"
  using live_blocks_are_indexed_without_exit_code
    [of demo_task _ "\<lambda>v bs. (v, [OscDispatch [''133'', ''C''], OscDispatch [''133'', ''D'', ''2'']])" "\<lambda>_. BlockId 1"
      demo_codec "\<lambda>_. demo_env 0" 9 "()" "[''x'']" "\<lambda>_ ds. ds" demo_parse "[]" "\<lambda>d. doc_command d = []" True None 10 None None]
  by (simp add: demo_task_def demo_parse_def rank_ok_def Let_def)

section \<open>Bounds of the task's state\<close>

definition task_wf :: "parser_task \<Rightarrow> bool" where
  "task_wf t \<longleftrightarrow> distinct (map fst (pk_writers t)) \<and> distinct (map fst (pk_bufs t)) \<and> distinct (map fst (pk_meta t))
     \<and> fst ` set (pk_bufs t) = fst ` set (pk_meta t) \<and> fst ` set (pk_writers t) \<subseteq> fst ` set (pk_meta t)
     \<and> (\<forall>b\<in>snd ` set (pk_bufs t). length b \<le> index_cap)"

lemma keys_update: "fst ` set (AList.update k v xs) = insert k (fst ` set xs)"
  by (simp add: dom_update)

lemma keys_delete: "fst ` set (AList.delete k xs) = fst ` set xs - {k}"
  by (auto simp: set_delete image_iff)

lemma task_wf_start: "task_wf t \<Longrightarrow> task_wf (start_block U env bid cmd cwd t)"
proof -
  assume wf: "task_wf t"
  have vals: "\<forall>(a, b)\<in>set (AList.update bid [] (pk_bufs t)). length b \<le> index_cap"
  proof (intro ballI, clarify)
    fix a b
    assume "(a, b) \<in> set (AList.update bid [] (pk_bufs t))"
    then have "b = [] \<or> (a, b) \<in> set (pk_bufs t)" using set_update_subset [of bid "[]" "pk_bufs t"] by blast
    then show "length b \<le> index_cap" using wf by (auto simp: task_wf_def)
  qed
  show ?thesis
    using wf vals
    by (auto simp: start_block_def task_wf_def Let_def keys_update distinct_update split: prod.split sum.split)
qed

lemma buffer_output_bounds:
  assumes "distinct (map fst bufs)" "\<forall>b\<in>snd ` set bufs. length b \<le> index_cap"
  shows "distinct (map fst (buffer_output bid data bufs))" "fst ` set (buffer_output bid data bufs) = fst ` set bufs"
    "\<forall>b\<in>snd ` set (buffer_output bid data bufs). length b \<le> index_cap"
proof -
  show "distinct (map fst (buffer_output bid data bufs))"
    using assms(1) by (simp add: buffer_output_def Let_def distinct_update split: option.split)
  show "fst ` set (buffer_output bid data bufs) = fst ` set bufs"
  proof (cases "map_of bufs bid")
    case (Some buf)
    then have "bid \<in> fst ` set bufs" by (force dest: map_of_SomeD)
    then show ?thesis using Some by (simp add: buffer_output_def Let_def keys_update insert_absorb)
  qed (simp add: buffer_output_def)
  show "\<forall>b\<in>snd ` set (buffer_output bid data bufs). length b \<le> index_cap"
  proof (cases "map_of bufs bid")
    case (Some buf)
    let ?new = "buf @ take (index_cap - length buf) data"
    have "length buf \<le> index_cap" using assms(2) map_of_SomeD [OF Some] by force
    then have new: "length ?new \<le> index_cap" by simp
    have "length b \<le> index_cap" if "(a, b) \<in> set (AList.update bid ?new bufs)" for a b
    proof -
      have "(a, b) = (bid, ?new) \<or> (a, b) \<in> set bufs"
        using that set_update_subset [of bid ?new bufs] by blast
      then show ?thesis using new assms(2) by fastforce
    qed
    then show ?thesis using assms(2) Some by (auto simp: buffer_output_def Let_def)
  qed (use assms(2) in \<open>simp add: buffer_output_def\<close>)
qed

lemma task_wf_output: "task_wf t \<Longrightarrow> task_wf (output_block bid data t)"
proof -
  assume wf: "task_wf t"
  then have "distinct (map fst (pk_bufs t))" "\<forall>b\<in>snd ` set (pk_bufs t). length b \<le> index_cap"
    by (simp_all add: task_wf_def)
  note b = buffer_output_bounds [OF this, of bid data]
  show ?thesis
  proof (cases "map_of (pk_writers t) bid")
    case None
    then show ?thesis using wf b by (simp add: output_block_def task_wf_def)
  next
    case (Some bw)
    then have k: "bid \<in> fst ` set (pk_writers t)" by (force dest: map_of_SomeD)
    obtain res st where "blob_write bw data (pk_store t) = (res, st)" by fastforce
    then show ?thesis
      using wf b k Some
      by (cases res) (simp_all add: output_block_def task_wf_def Let_def keys_update insert_absorb distinct_update)
  qed
qed

lemma task_wf_end: "task_wf t \<Longrightarrow> task_wf (end_block U env bid code t)"
  by (auto simp: end_block_def task_wf_def Let_def case_prod_unfold keys_delete distinct_fst_delete set_delete)

lemma task_wf_handle: "task_wf t \<Longrightarrow> task_wf (handle_event U e t)"
proof -
  assume "task_wf t"
  then have "task_wf (note_event (fst e) (snd e) t)" by (simp add: task_wf_def note_event_def)
  then show ?thesis by (cases "snd e") (simp_all add: handle_event_def task_wf_start task_wf_output task_wf_end)
qed

text \<open>
  Memory of the task: whatever events arrive and whichever operations fail, each block
  has at most one writer, one buffer and one metadata record; the blocks with a buffer are
  exactly those with metadata, a writer exists only for such a block, and no buffer exceeds
  256 KiB, so the memory is bounded by the number of blocks without an end.
\<close>

theorem parser_task_state_is_bounded:
  assumes "task_wf t"
  shows "task_wf (handle_events U evs t)"
  using assms unfolding handle_events_def by (induction evs arbitrary: t) (simp_all add: task_wf_handle)

theorem parser_task_state_is_bounded_witness:
  "task_wf (handle_events demo_codec [(demo_env 0, CommandStart (SessionId 6) (BlockId 1) ''ls'' None),
      (demo_env 0, OutputChunk (BlockId 1) ''out'')] demo_task)"
  by (rule parser_task_state_is_bounded) (simp add: task_wf_def demo_task_def)

section \<open>The cap and multi-byte characters\<close>

lemma decode_ascii_then: "list_all (\<lambda>c. c < 0x80) cs \<Longrightarrow> decode_codes (cs @ tail) = map Some cs @ decode_codes tail"
  by (induction cs) (auto simp: utf8_step_def)

text \<open>
  The cap cuts characters: when the 256 KiB boundary falls inside a multi-byte
  character, the buffered bytes are not valid UTF-8 and the whole text is dropped. A block
  whose output is 262143 letters followed by one accented letter is indexed with no output
  at all, although all of its output is valid UTF-8.
\<close>

theorem capped_output_may_lose_everything:
  "let out = replicate 262143 (CHR ''a'') @ encode_string [0xE9]
   in from_utf8 out = Some out \<and> from_utf8 (take index_cap out) = None"
proof -
  have a: "of_char (CHR ''a'') = (97 :: nat)" by simp
  have e: "encode_string [0xE9] = [CHR 0xC3, CHR 0xA9]"
    by (simp add: encode_string_def encode_utf8_def utf8_codes_def char_of_def bit_iff_odd)
  have cut: "take index_cap (replicate 262143 (CHR ''a'') @ [CHR 0xC3, CHR 0xA9]) = replicate 262143 (CHR ''a'') @ [CHR 0xC3]"
    by (simp add: index_cap_def)
  have codes: "map of_char (replicate 262143 (CHR ''a'') @ tail) = replicate 262143 (97 :: nat) @ map of_char tail" for tail
    by simp
  have asc: "list_all (\<lambda>c. c < 0x80) (replicate 262143 (97 :: nat))" by (simp add: list_all_iff)
  have full: "decode_utf8 (replicate 262143 (CHR ''a'') @ [CHR 0xC3, CHR 0xA9]) = map Some (replicate 262143 97) @ [Some 0xE9]"
    unfolding decode_utf8_def codes decode_ascii_then [OF asc] by (simp add: utf8_step_def byte_at_def cont_def)
  have half: "decode_utf8 (replicate 262143 (CHR ''a'') @ [CHR 0xC3]) = map Some (replicate 262143 97) @ [None]"
    unfolding decode_utf8_def codes decode_ascii_then [OF asc] by (simp add: utf8_step_def byte_at_def cont_def)
  show ?thesis unfolding Let_def e cut from_utf8_def full half by simp
qed

section \<open>The reader and its ring\<close>

lemma reader_loop_chunks:
  "\<exists>cs rest. map snd reads = map Some cs @ rest \<and> rd_ring (reader_loop reads r) = foldl (\<lambda>s x. push x s) (rd_ring r) cs
     \<and> rd_broadcast (reader_loop reads r) = rd_broadcast r @ cs
     \<and> rd_parse_queue (reader_loop reads r) = rd_parse_queue r @ cs"
proof (induction reads r rule: reader_loop.induct)
  case (1 r)
  then show ?case by (intro exI [of _ "[]"]) simp
next
  case (2 now res rest r)
  show ?case
  proof (cases "res = None \<or> res = Some []")
    case True
    then show ?thesis by (intro exI [of _ "[]"] exI [of _ "res # map snd rest"]) auto
  next
    case False
    then obtain bs where bs: "res = Some bs" "bs \<noteq> []" by auto
    then obtain cs tl where "map snd rest = map Some cs @ tl"
      "rd_ring (reader_loop rest (reader_chunk now bs r)) = foldl (\<lambda>s x. push x s) (rd_ring (reader_chunk now bs r)) cs"
      "rd_broadcast (reader_loop rest (reader_chunk now bs r)) = rd_broadcast (reader_chunk now bs r) @ cs"
      "rd_parse_queue (reader_loop rest (reader_chunk now bs r)) = rd_parse_queue (reader_chunk now bs r) @ cs"
      using 2 by blast
    then show ?thesis using bs
      by (intro exI [of _ "bs # cs"] exI [of _ tl]) (simp add: reader_chunk_def)
  qed
qed

text \<open>
  The reader thread: after any reads, the ring holds the newest 64 KiB of everything
  read before the end of file or the first error, and the subscribers and the parser were
  sent exactly those bytes in the same chunks.
\<close>

theorem reader_ring_holds_newest_output:
  fixes tr :: tracker and reads :: "(instant \<times> bytes option) list"
  defines "r \<equiv> reader_loop reads \<lparr>rd_ring = ring_new ring_capacity, rd_tracker = tr, rd_broadcast = [], rd_parse_queue = []\<rparr>"
  shows "snapshot (rd_ring r) = last_n ring_capacity (concat (rd_broadcast r)) \<and> rd_parse_queue r = rd_broadcast r
    \<and> (\<exists>rest. map snd reads = map Some (rd_broadcast r) @ rest)"
proof -
  obtain cs rest where cs: "map snd reads = map Some cs @ rest" "rd_broadcast r = cs" "rd_parse_queue r = cs"
    "rd_ring r = foldl (\<lambda>s x. push x s) (ring_new ring_capacity) cs"
    using reader_loop_chunks [of reads "\<lparr>rd_ring = ring_new ring_capacity, rd_tracker = tr, rd_broadcast = [], rd_parse_queue = []\<rparr>"]
    unfolding r_def by auto
  have "ring_wf (ring_new ring_capacity)" "snapshot (ring_new ring_capacity) = []" "rb_cap (ring_new ring_capacity) = ring_capacity"
    by (simp_all add: ring_new_def ring_wf_def snapshot_def ring_capacity_def)
  then show ?thesis
    using ring.run_contents [of "ring_new ring_capacity" cs] cs by simp
qed

end
