(* ===== verification/Session_Registry.thy ===== *)
theory Session_Registry
  imports Pty_Pipeline Layout
begin

text \<open>
  The session registry of \<^verbatim>\<open>crates/pyred/src/session.rs\<close>: sessions own windows (with a layout
  tree each) and panes, the registry owns the sessions, the event ring and the sequence
  counter. A hash map is an association list with distinct keys whose order stands for the
  iteration order. Each operation is one step (the code serialises them with its locks),
  except that opening a pane is cut where it waits for the new process: other steps can
  come in between. Operations also thread the store and the signals sent to processes.
  Fresh identifiers, clock readings and the outcomes of system calls are arguments.
\<close>

section \<open>State\<close>

record window_state =
  ws_id :: window_id
  ws_session :: session_id
  ws_name :: string
  ws_layout :: "layout_node option"
  ws_position :: u32
  ws_created_at :: instant

record pane_state =
  pn_id :: pane_id
  pn_session :: session_id
  pn_window :: window_id
  pn_name :: "string option"
  pn_cols :: u16
  pn_rows :: u16
  pn_shell :: string
  pn_created_at :: instant
  pn_closed_at :: "instant option"
  pn_child_pid :: u32
  pn_tracker :: tracker

record session_state =
  ss_id :: session_id
  ss_name :: string
  ss_created_at :: instant
  ss_last_active_at :: instant
  ss_panes :: "(pane_id \<times> pane_state) list"
  ss_windows :: "window_state list"

text \<open>
  Session objects are shared: an operation that has looked one up keeps using it after it
  was removed from the registry's map. \<open>rg_detached\<close> holds the removed objects.
\<close>

record registry =
  rg_sessions :: "(session_id \<times> session_state) list"
  rg_detached :: "(session_id \<times> session_state) list"
  rg_ring :: "pane_event list"
  rg_seq :: u64
  rg_sent :: "pane_event list"

text \<open>The registry with what its operations also change: the store and the signals sent.\<close>

record daemon =
  dm_reg :: registry
  dm_store :: store
  dm_signals :: "u32 list"

datatype reg_error =
    NoSuchSession session_id
  | NoSuchPane pane_id
  | NoSuchWindow window_id
  | NoWindows session_id
  | NoLayout
  | SpawnFailed
  | KillFailed u32
  | StoreFailed store_error

section \<open>Events\<close>

definition event_ring_cap :: nat where
  "event_ring_cap = 256"

definition registry_new :: registry where
  "registry_new = \<lparr>rg_sessions = [], rg_detached = [], rg_ring = [], rg_seq = 0, rg_sent = []\<rparr>"

definition push_event :: "pane_event \<Rightarrow> pane_event list \<Rightarrow> pane_event list" where
  "push_event ev ring = (if event_ring_cap \<le> length ring then tl ring else ring) @ [ev]"

definition emit_event ::
  "pane_id \<Rightarrow> pane_event_kind \<Rightarrow> pane_state_kind option \<Rightarrow> agent_kind option \<Rightarrow> registry \<Rightarrow> registry" where
  "emit_event pane kind state agent reg =
     (let seq = rg_seq reg + 1;
          ev = \<lparr>pe_seq = seq, pe_pane_id = pane, pe_kind = kind, pe_state = state, pe_agent = agent\<rparr>
      in reg\<lparr>rg_seq := seq, rg_ring := push_event ev (rg_ring reg), rg_sent := rg_sent reg @ [ev]\<rparr>)"

text \<open>The history part of \<open>events_after\<close>; the live part is what is sent from then on.\<close>

definition events_after :: "u64 \<Rightarrow> registry \<Rightarrow> pane_event list" where
  "events_after after_seq reg = filter (\<lambda>e. after_seq < pe_seq e) (rg_ring reg)"

section \<open>Access\<close>

definition get_session :: "session_id \<Rightarrow> registry \<Rightarrow> session_state option" where
  "get_session sid reg = map_of (rg_sessions reg) sid"

fun scan_panes :: "pane_id \<Rightarrow> (session_id \<times> session_state) list \<Rightarrow> (session_state \<times> pane_state) option" where
  "scan_panes pane [] = None"
| "scan_panes pane ((sid, s) # rest) =
     (case map_of (ss_panes s) pane of Some p \<Rightarrow> Some (s, p) | None \<Rightarrow> scan_panes pane rest)"

definition get_pane :: "pane_id \<Rightarrow> registry \<Rightarrow> (session_state \<times> pane_state) option" where
  "get_pane pane reg = scan_panes pane (rg_sessions reg)"

definition window_of :: "window_id \<Rightarrow> session_state \<Rightarrow> window_state option" where
  "window_of wid s = find (\<lambda>w. ws_id w = wid) (ss_windows s)"

fun scan_windows :: "window_id \<Rightarrow> (session_id \<times> session_state) list \<Rightarrow> window_state option" where
  "scan_windows wid [] = None"
| "scan_windows wid ((sid, s) # rest) =
     (case window_of wid s of Some w \<Rightarrow> Some w | None \<Rightarrow> scan_windows wid rest)"

definition find_window :: "window_id \<Rightarrow> registry \<Rightarrow> window_state option" where
  "find_window wid reg = scan_windows wid (rg_sessions reg)"

text \<open>A session object by identity, registered or not; removal from the map keeps the object.\<close>

definition object_session :: "session_id \<Rightarrow> registry \<Rightarrow> session_state option" where
  "object_session sid reg =
     (case get_session sid reg of Some s \<Rightarrow> Some s | None \<Rightarrow> map_of (rg_detached reg) sid)"

definition detach :: "session_id \<Rightarrow> registry \<Rightarrow> registry" where
  "detach sid reg =
     reg\<lparr>rg_sessions := AList.delete sid (rg_sessions reg),
         rg_detached := filter (\<lambda>(k, s). k = sid) (rg_sessions reg) @ rg_detached reg\<rparr>"

text \<open>Mutation of a shared session or window object.\<close>

definition upd_session :: "session_id \<Rightarrow> (session_state \<Rightarrow> session_state) \<Rightarrow> registry \<Rightarrow> registry" where
  "upd_session sid f reg =
     reg\<lparr>rg_sessions := map (\<lambda>(k, s). (k, if k = sid then f s else s)) (rg_sessions reg),
         rg_detached := map (\<lambda>(k, s). (k, if k = sid then f s else s)) (rg_detached reg)\<rparr>"

definition upd_window :: "window_id \<Rightarrow> (window_state \<Rightarrow> window_state) \<Rightarrow> session_state \<Rightarrow> session_state" where
  "upd_window wid f s = s\<lparr>ss_windows := map (\<lambda>w. if ws_id w = wid then f w else w) (ss_windows s)\<rparr>"

definition set_layout :: "session_id \<Rightarrow> window_id \<Rightarrow> layout_node \<Rightarrow> registry \<Rightarrow> registry" where
  "set_layout sid wid tree = upd_session sid (upd_window wid (\<lambda>w. w\<lparr>ws_layout := Some tree\<rparr>))"

text \<open>\<open>serde_json::to_string(..).unwrap_or_default()\<close>.\<close>

definition layout_text :: "codec \<Rightarrow> layout_node \<Rightarrow> string" where
  "layout_text U tree = (case cd_layout_json U tree of Some j \<Rightarrow> j | None \<Rightarrow> [])"

definition run_store :: "'a io \<Rightarrow> daemon \<Rightarrow> (store_error + 'a) \<times> daemon" where
  "run_store m d = (let (r, st) = m (dm_store d) in (r, d\<lparr>dm_store := st\<rparr>))"

text \<open>A best-effort write: the error is logged and dropped.\<close>

definition try_store :: "unit io \<Rightarrow> daemon \<Rightarrow> daemon" where
  "try_store m d = snd (run_store m d)"

definition in_reg :: "(registry \<Rightarrow> registry) \<Rightarrow> daemon \<Rightarrow> daemon" where
  "in_reg f d = d\<lparr>dm_reg := f (dm_reg d)\<rparr>"

section \<open>Sessions and panes\<close>

definition default_window :: "window_id \<Rightarrow> session_id \<Rightarrow> instant \<Rightarrow> window_state" where
  "default_window wid sid now =
     \<lparr>ws_id = wid, ws_session = sid, ws_name = ''1'', ws_layout = None, ws_position = 0, ws_created_at = now\<rparr>"

definition session_default_name :: "codec \<Rightarrow> session_id \<Rightarrow> string option \<Rightarrow> string" where
  "session_default_name U sid name =
     (case non_empty name of Some n \<Rightarrow> n | None \<Rightarrow> ''session-'' @ take 8 (cd_show U (session_uuid sid)))"

definition new_session :: "codec \<Rightarrow> instant \<Rightarrow> session_id \<Rightarrow> window_id \<Rightarrow> string option \<Rightarrow> daemon \<Rightarrow> daemon" where
  "new_session U now sid wid name d =
     (let resolved = session_default_name U sid name;
          s = \<lparr>ss_id = sid, ss_name = resolved, ss_created_at = now, ss_last_active_at = now, ss_panes = [],
               ss_windows = [default_window wid sid now]\<rparr>;
          d1 = in_reg (\<lambda>reg. reg\<lparr>rg_sessions := AList.update sid s (rg_sessions reg)\<rparr>) d;
          ms = timestamp_millis (int now)
      in try_store (upsert_window U wid sid ''1'' 0 ms) (try_store (upsert_session U ms sid resolved) d1))"

text \<open>
  \<open>spawn_pty\<close> as the registry sees it. \<open>proc\<close> is the outcome of creating the PTY and the
  process: nothing on failure, otherwise the process id if it is known. Rows are written
  before the pane is returned, and a failing write is an error.
\<close>

definition spawn_pty ::
  "codec \<Rightarrow> instant \<Rightarrow> string option \<Rightarrow> u32 option option \<Rightarrow> pane_id \<Rightarrow> spawn_req \<Rightarrow> session_id \<Rightarrow> window_id
   \<Rightarrow> string option \<Rightarrow> string option \<Rightarrow> daemon \<Rightarrow> (reg_error + pane_state) \<times> daemon" where
  "spawn_pty U now env_shell proc pane req sid wid pane_name session_name d =
     (case proc of
        None \<Rightarrow> (Inl SpawnFailed, d)
      | Some pid_opt \<Rightarrow>
          (let shell = resolve_shell (sr_shell req) env_shell;
               pid = (case pid_opt of Some p \<Rightarrow> p | None \<Rightarrow> 0);
               ms = timestamp_millis (int now)
           in case run_store (upsert_session U ms sid (case session_name of Some n \<Rightarrow> n | None \<Rightarrow> [])) d of
                (Inl e, d1) \<Rightarrow> (Inl (StoreFailed e), d1)
              | (Inr _, d1) \<Rightarrow>
                  (case run_store (upsert_pane U ms pane sid shell (sr_cwd req) (sr_cols req) (sr_rows req)) d1 of
                     (Inl e, d2) \<Rightarrow> (Inl (StoreFailed e), d2)
                   | (Inr _, d2) \<Rightarrow>
                       (Inr \<lparr>pn_id = pane, pn_session = sid, pn_window = wid, pn_name = pane_name,
                             pn_cols = sr_cols req, pn_rows = sr_rows req, pn_shell = shell, pn_created_at = now,
                             pn_closed_at = None, pn_child_pid = pid,
                             pn_tracker = (if pid > 0 then (tracker_new now 0)\<lparr>t_root_pid := pid\<rparr> else tracker_new now 0)\<rparr>,
                        d2))))"

text \<open>The first half of \<open>open_pane\<close>: find the session and the window, spawn.\<close>

definition target_window :: "window_id \<Rightarrow> session_state \<Rightarrow> window_state option" where
  "target_window wid s =
     (case window_of wid s of
        Some w \<Rightarrow> Some w
      | None \<Rightarrow> (case ss_windows s of [] \<Rightarrow> None | w # _ \<Rightarrow> Some w))"

definition open_pane_spawn ::
  "codec \<Rightarrow> instant \<Rightarrow> string option \<Rightarrow> u32 option option \<Rightarrow> pane_id \<Rightarrow> session_id \<Rightarrow> open_pane_req \<Rightarrow> daemon
   \<Rightarrow> (reg_error + pane_state) \<times> daemon" where
  "open_pane_spawn U now env_shell proc pane sid req d =
     (case get_session sid (dm_reg d) of
        None \<Rightarrow> (Inl (NoSuchSession sid), d)
      | Some s \<Rightarrow>
          (case target_window (or_window req) s of
             None \<Rightarrow> (Inl (NoWindows sid), d)
           | Some w \<Rightarrow>
               spawn_pty U now env_shell proc pane
                 \<lparr>sr_shell = or_shell req, sr_cwd = or_cwd req, sr_cols = or_cols req, sr_rows = or_rows req,
                  sr_env = or_env req, sr_name = None\<rparr>
                 sid (ws_id w) (or_name req) (Some (ss_name s)) d))"

text \<open>The second half: assign, register, start the layout of a window without one, announce.\<close>

definition open_pane_register :: "codec \<Rightarrow> instant \<Rightarrow> session_id \<Rightarrow> pane_state \<Rightarrow> daemon \<Rightarrow> daemon" where
  "open_pane_register U now sid p d =
     (let wid = pn_window p;
          d1 = try_store (assign_pane_window U (timestamp_millis (int now)) (pn_id p) sid wid) d;
          d2 = in_reg (upd_session sid (\<lambda>s. s\<lparr>ss_panes := AList.update (pn_id p) p (ss_panes s), ss_last_active_at := now\<rparr>)) d1;
          empty = (case Option.bind (object_session sid (dm_reg d2)) (window_of wid) of
                     Some w \<Rightarrow> ws_layout w = None | None \<Rightarrow> False);
          d3 = (if empty
                then try_store (upsert_window_layout U wid (layout_text U (Leaf (pn_id p))))
                       (in_reg (set_layout sid wid (Leaf (pn_id p))) d2)
                else d2)
      in in_reg (emit_event (pn_id p) Spawned (Some Running) (Some (t_agent (pn_tracker p)))) d3)"

definition open_pane ::
  "codec \<Rightarrow> instant \<Rightarrow> string option \<Rightarrow> u32 option option \<Rightarrow> pane_id \<Rightarrow> session_id \<Rightarrow> open_pane_req \<Rightarrow> daemon
   \<Rightarrow> (reg_error + pane_state) \<times> daemon" where
  "open_pane U now env_shell proc pane sid req d =
     (case open_pane_spawn U now env_shell proc pane sid req d of
        (Inl e, d') \<Rightarrow> (Inl e, d')
      | (Inr p, d') \<Rightarrow> (Inr p, open_pane_register U now sid p d'))"

text \<open>\<open>PaneState::kill\<close>: the signal goes to the stored process id; the call may fail.\<close>

definition pane_kill :: "(u32 \<Rightarrow> bool) \<Rightarrow> pane_state \<Rightarrow> daemon \<Rightarrow> (reg_error + unit) \<times> daemon" where
  "pane_kill kill_ok p d =
     (let pid = pn_child_pid p; d' = d\<lparr>dm_signals := dm_signals d @ [pid]\<rparr>
      in if kill_ok pid then (Inr (), d') else (Inl (KillFailed pid), d'))"

definition evict_session_if_empty :: "session_id \<Rightarrow> registry \<Rightarrow> registry" where
  "evict_session_if_empty sid reg =
     (case get_session sid reg of
        None \<Rightarrow> reg
      | Some s \<Rightarrow> if ss_panes s = [] then detach sid reg else reg)"

definition close_pane :: "codec \<Rightarrow> (u32 \<Rightarrow> bool) \<Rightarrow> bool \<Rightarrow> pane_id \<Rightarrow> daemon \<Rightarrow> (reg_error + unit) \<times> daemon" where
  "close_pane U kill_ok persist pane d =
     (case get_pane pane (dm_reg d) of
        None \<Rightarrow> (Inl (NoSuchPane pane), d)
      | Some (s, p) \<Rightarrow>
          (case pane_kill kill_ok p d of
             (Inl e, d1) \<Rightarrow> (Inl e, d1)
           | (Inr _, d1) \<Rightarrow>
               (let sid = ss_id s; wid = pn_window p;
                    d2 = in_reg (upd_session sid (\<lambda>s. s\<lparr>ss_panes := AList.delete pane (ss_panes s)\<rparr>)) d1;
                    tree = Option.bind (window_of wid s) ws_layout;
                    d3 = (case tree of
                            None \<Rightarrow> d2
                          | Some tr \<Rightarrow>
                              (let tr' = snd (close tr pane);
                                   d' = in_reg (set_layout sid wid tr') d2;
                                   d'' = (if persist then try_store (upsert_window_layout U wid (layout_text U tr')) d' else d')
                               in in_reg (emit_event pane LayoutChanged None None) d''));
                    d4 = in_reg (evict_session_if_empty sid) d3
                in (Inr (), in_reg (emit_event pane Closed None None) d4))))"

section \<open>Layouts\<close>

definition get_layout :: "session_id \<Rightarrow> registry \<Rightarrow> layout_node option" where
  "get_layout sid reg =
     (case get_session sid reg of
        None \<Rightarrow> None
      | Some s \<Rightarrow>
          (case ss_windows s of
             [] \<Rightarrow> None
           | w # _ \<Rightarrow>
               (case ws_layout w of
                  Some tree \<Rightarrow> Some tree
                | None \<Rightarrow> (case ss_panes s of [] \<Rightarrow> None | (k, p) # _ \<Rightarrow> Some (Leaf (pn_id p))))))"

fun scan_window_pane :: "window_id \<Rightarrow> (session_id \<times> session_state) list \<Rightarrow> layout_node option" where
  "scan_window_pane wid [] = None"
| "scan_window_pane wid ((sid, s) # rest) =
     (case find (\<lambda>p. pn_window p = wid) (map snd (ss_panes s)) of
        Some p \<Rightarrow> Some (Leaf (pn_id p))
      | None \<Rightarrow> scan_window_pane wid rest)"

definition get_window_layout :: "window_id \<Rightarrow> registry \<Rightarrow> layout_node option" where
  "get_window_layout wid reg =
     (case find_window wid reg of
        None \<Rightarrow> None
      | Some w \<Rightarrow> (case ws_layout w of Some tree \<Rightarrow> Some tree | None \<Rightarrow> scan_window_pane wid (rg_sessions reg)))"

definition split_req :: "session_id \<Rightarrow> pane_state \<Rightarrow> string option \<Rightarrow> string option \<Rightarrow> string option \<Rightarrow> open_pane_req" where
  "split_req sid parent name cwd cmd =
     \<lparr>or_session = sid, or_window = pn_window parent,
      or_shell = (case cmd of Some c \<Rightarrow> Some c | None \<Rightarrow> Some (pn_shell parent)), or_cwd = cwd,
      or_cols = pn_cols parent, or_rows = pn_rows parent, or_env = [], or_name = name\<rparr>"

definition split_layout :: "codec \<Rightarrow> session_id \<Rightarrow> window_id \<Rightarrow> pane_id \<Rightarrow> orient \<Rightarrow> pane_id \<Rightarrow> daemon \<Rightarrow> daemon" where
  "split_layout U sid wid parent orient new d =
     (let tree = (case Option.bind (Option.bind (object_session sid (dm_reg d)) (window_of wid)) ws_layout of
                    Some tr \<Rightarrow> tr | None \<Rightarrow> Leaf parent);
          tree' = split_focused tree parent new orient
      in try_store (upsert_window_layout U wid (layout_text U tree')) (in_reg (set_layout sid wid tree') d))"

definition open_pane_split ::
  "codec \<Rightarrow> instant \<Rightarrow> string option \<Rightarrow> u32 option option \<Rightarrow> pane_id \<Rightarrow> pane_id \<Rightarrow> orient \<Rightarrow> string option \<Rightarrow> string option
   \<Rightarrow> string option \<Rightarrow> daemon \<Rightarrow> (reg_error + pane_id) \<times> daemon" where
  "open_pane_split U now env_shell proc new parent orient name cwd cmd d =
     (case get_pane parent (dm_reg d) of
        None \<Rightarrow> (Inl (NoSuchPane parent), d)
      | Some (s, p) \<Rightarrow>
          (case window_of (pn_window p) s of
             None \<Rightarrow> (Inl (NoSuchWindow (pn_window p)), d)
           | Some w \<Rightarrow>
               (case open_pane U now env_shell proc new (ss_id s) (split_req (ss_id s) p name cwd cmd) d of
                  (Inl e, d1) \<Rightarrow> (Inl e, d1)
                | (Inr np, d1) \<Rightarrow>
                    (let d2 = split_layout U (ss_id s) (pn_window p) parent orient (pn_id np) d1
                     in (Inr (pn_id np), in_reg (emit_event (pn_id np) LayoutChanged None None) d2)))))"

definition set_pane_weight :: "codec \<Rightarrow> pane_id \<Rightarrow> u16 \<Rightarrow> daemon \<Rightarrow> (reg_error + unit) \<times> daemon" where
  "set_pane_weight U pane weight d =
     (case get_pane pane (dm_reg d) of
        None \<Rightarrow> (Inl (NoSuchPane pane), d)
      | Some (s, p) \<Rightarrow>
          (case window_of (pn_window p) s of
             None \<Rightarrow> (Inl (NoSuchWindow (pn_window p)), d)
           | Some w \<Rightarrow>
               (case ws_layout w of
                  None \<Rightarrow> (Inl NoLayout, d)
                | Some tree \<Rightarrow>
                    (let tree' = set_weight tree pane weight;
                         d1 = in_reg (set_layout (ss_id s) (ws_id w) tree') d
                     in case run_store (upsert_window_layout U (pn_window p) (layout_text U tree')) d1 of
                          (Inl e, d2) \<Rightarrow> (Inl (StoreFailed e), d2)
                        | (Inr _, d2) \<Rightarrow> (Inr (), in_reg (emit_event pane LayoutChanged None None) d2)))))"

section \<open>Windows\<close>

definition new_window ::
  "codec \<Rightarrow> instant \<Rightarrow> window_id \<Rightarrow> session_id \<Rightarrow> string option \<Rightarrow> daemon \<Rightarrow> (reg_error + window_state) \<times> daemon" where
  "new_window U now wid sid name d =
     (case get_session sid (dm_reg d) of
        None \<Rightarrow> (Inl (NoSuchSession sid), d)
      | Some s \<Rightarrow>
          (let pos = (of_nat (length (ss_windows s)) :: u32);
               win_name = (case non_empty name of Some n \<Rightarrow> n | None \<Rightarrow> show_nat (unat (pos + 1)));
               w = \<lparr>ws_id = wid, ws_session = sid, ws_name = win_name, ws_layout = None, ws_position = pos,
                    ws_created_at = now\<rparr>;
               d1 = in_reg (upd_session sid (\<lambda>s. s\<lparr>ss_windows := ss_windows s @ [w]\<rparr>)) d
           in (Inr w, try_store (upsert_window U wid sid win_name pos (timestamp_millis (int now))) d1)))"

definition window_info_of :: "session_id \<Rightarrow> session_state \<Rightarrow> window_state \<Rightarrow> window_info" where
  "window_info_of sid s w =
     \<lparr>wi_id = ws_id w, wi_session = sid, wi_name = ws_name w, wi_position = ws_position w,
      wi_pane_count = of_nat (length (filter (\<lambda>x. x = ws_id w) (map (pn_window \<circ> snd) (ss_panes s)))),
      wi_created_at = ws_created_at w\<rparr>"

definition reg_list_windows :: "session_id \<Rightarrow> registry \<Rightarrow> window_info list" where
  "reg_list_windows sid reg =
     (case get_session sid reg of None \<Rightarrow> [] | Some s \<Rightarrow> map (window_info_of sid s) (ss_windows s))"

definition reg_rename_window :: "codec \<Rightarrow> window_id \<Rightarrow> string \<Rightarrow> daemon \<Rightarrow> (reg_error + unit) \<times> daemon" where
  "reg_rename_window U wid name d =
     (case find_window wid (dm_reg d) of
        None \<Rightarrow> (Inl (NoSuchWindow wid), d)
      | Some w \<Rightarrow>
          (let d1 = in_reg (\<lambda>reg. reg\<lparr>rg_sessions := map (\<lambda>(k, s). (k, upd_window wid (\<lambda>w. w\<lparr>ws_name := name\<rparr>) s)) (rg_sessions reg)\<rparr>) d
           in case run_store (rename_window U wid name) d1 of
                (Inl e, d2) \<Rightarrow> (Inl (StoreFailed e), d2)
              | (Inr _, d2) \<Rightarrow> (Inr (), d2)))"

fun scan_window_panes :: "window_id \<Rightarrow> (session_id \<times> session_state) list \<Rightarrow> (session_id \<times> pane_id list) option" where
  "scan_window_panes wid [] = None"
| "scan_window_panes wid ((sid, s) # rest) =
     (if window_of wid s \<noteq> None
      then Some (ss_id s, map pn_id (filter (\<lambda>p. pn_window p = wid) (map snd (ss_panes s))))
      else scan_window_panes wid rest)"

definition close_window :: "codec \<Rightarrow> (u32 \<Rightarrow> bool) \<Rightarrow> window_id \<Rightarrow> daemon \<Rightarrow> (reg_error + unit) \<times> daemon" where
  "close_window U kill_ok wid d =
     (case scan_window_panes wid (rg_sessions (dm_reg d)) of
        None \<Rightarrow> (Inl (NoSuchWindow wid), d)
      | Some (sid, panes) \<Rightarrow>
          (let d1 = foldl (\<lambda>d pane. snd (close_pane U kill_ok True pane d)) d panes;
               d2 = (case get_session sid (dm_reg d1) of
                       None \<Rightarrow> d1
                     | Some s \<Rightarrow>
                         (let d' = in_reg (upd_session sid (\<lambda>s. s\<lparr>ss_windows := filter (\<lambda>w. ws_id w \<noteq> wid) (ss_windows s)\<rparr>)) d1
                          in case get_session sid (dm_reg d') of
                               Some s' \<Rightarrow> if ss_windows s' = [] then in_reg (detach sid) d' else d'
                             | None \<Rightarrow> d'))
           in (Inr (), try_store (delete_window U wid) d2)))"

section \<open>Listing, killing, exits\<close>

definition session_info_of :: "session_state \<Rightarrow> session_info" where
  "session_info_of s =
     \<lparr>si_id = ss_id s, si_name = ss_name s, si_pane_count = of_nat (length (ss_panes s)),
      si_created_at = ss_created_at s, si_last_active_at = ss_last_active_at s\<rparr>"

definition list_sessions :: "registry \<Rightarrow> session_info list" where
  "list_sessions reg = map (session_info_of \<circ> snd) (rg_sessions reg)"

text \<open>\<open>wall\<close> and \<open>tick\<close> are the clock readings: activity is reported on the wall clock.\<close>

definition pane_info_from_state :: "instant \<Rightarrow> instant \<Rightarrow> pane_state \<Rightarrow> pane_info" where
  "pane_info_from_state wall tick p =
     (let t = pn_tracker p
      in \<lparr>pi_id = pn_id p, pi_session = pn_session p, pi_window = pn_window p, pi_cols = pn_cols p, pi_rows = pn_rows p,
          pi_shell = pn_shell p, pi_created_at = pn_created_at p, pi_closed_at = None, pi_state = t_state t,
          pi_state_reason = t_reason t, pi_last_activity = wall - (tick - t_last_output_at t),
          pi_foreground_cmd = t_foreground_cmd t, pi_root_pid = t_root_pid t, pi_agent = t_agent t,
          pi_seen = t_seen t, pi_name = pn_name p\<rparr>)"

definition list_panes :: "instant \<Rightarrow> instant \<Rightarrow> session_id \<Rightarrow> registry \<Rightarrow> pane_info list" where
  "list_panes wall tick sid reg =
     (case get_session sid reg of None \<Rightarrow> [] | Some s \<Rightarrow> map (pane_info_from_state wall tick \<circ> snd) (ss_panes s))"

definition list_all_panes :: "instant \<Rightarrow> instant \<Rightarrow> registry \<Rightarrow> pane_info list" where
  "list_all_panes wall tick reg =
     concat (map (\<lambda>(k, s). map (pane_info_from_state wall tick \<circ> snd) (ss_panes s)) (rg_sessions reg))"

definition all_trackers :: "registry \<Rightarrow> (session_id \<times> pane_id \<times> tracker) list" where
  "all_trackers reg =
     concat (map (\<lambda>(k, s). map (\<lambda>(i, p). (ss_id s, pn_id p, pn_tracker p)) (ss_panes s)) (rg_sessions reg))"

definition all_sessions :: "registry \<Rightarrow> session_state list" where
  "all_sessions reg = map snd (rg_sessions reg)"

definition kill_session :: "(u32 \<Rightarrow> bool) \<Rightarrow> session_id \<Rightarrow> daemon \<Rightarrow> (reg_error + unit) \<times> daemon" where
  "kill_session kill_ok sid d =
     (case get_session sid (dm_reg d) of
        None \<Rightarrow> (Inl (NoSuchSession sid), d)
      | Some s \<Rightarrow>
          (Inr (), foldl (\<lambda>d p. in_reg (emit_event (pn_id p) Closed None None) (snd (pane_kill kill_ok p d)))
                     (in_reg (detach sid) d) (map snd (ss_panes s))))"

text \<open>\<open>remove_pane\<close>: the first session that has the pane loses it, and goes if it was the last.\<close>

fun remove_from :: "pane_id \<Rightarrow> (session_id \<times> session_state) list \<Rightarrow> (session_id \<times> session_state) list \<times> session_id option" where
  "remove_from pane [] = ([], None)"
| "remove_from pane ((sid, s) # rest) =
     (if map_of (ss_panes s) pane \<noteq> None
      then (let panes = AList.delete pane (ss_panes s)
            in ((sid, s\<lparr>ss_panes := panes\<rparr>) # rest, if panes = [] then Some sid else None))
      else (let (rest', gone) = remove_from pane rest in ((sid, s) # rest', gone)))"

definition remove_pane :: "pane_id \<Rightarrow> registry \<Rightarrow> registry" where
  "remove_pane pane reg =
     (let (ss, gone) = remove_from pane (rg_sessions reg);
          reg1 = reg\<lparr>rg_sessions := ss\<rparr>;
          reg2 = (case gone of Some sid \<Rightarrow> detach sid reg1 | None \<Rightarrow> reg1)
      in emit_event pane Closed None None reg2)"

definition upd_pane :: "pane_id \<Rightarrow> (pane_state \<Rightarrow> pane_state) \<Rightarrow> session_state \<Rightarrow> session_state" where
  "upd_pane pane f s = s\<lparr>ss_panes := map (\<lambda>(i, p). (i, if i = pane then f p else p)) (ss_panes s)\<rparr>"

definition reg_rename_pane :: "codec \<Rightarrow> instant \<Rightarrow> pane_id \<Rightarrow> string \<Rightarrow> daemon \<Rightarrow> (reg_error + unit) \<times> daemon" where
  "reg_rename_pane U now pane name d =
     (case get_pane pane (dm_reg d) of
        None \<Rightarrow> (Inl (NoSuchPane pane), d)
      | Some (s, p) \<Rightarrow>
          (let d1 = in_reg (upd_session (ss_id s) (upd_pane pane (\<lambda>p. p\<lparr>pn_name := Some name\<rparr>))) d
           in case run_store (rename_pane U (timestamp_millis (int now)) pane (pn_session p) name) d1 of
                (Inl e, d2) \<Rightarrow> (Inl (StoreFailed e), d2)
              | (Inr _, d2) \<Rightarrow> (Inr (), d2)))"

definition rename_session :: "codec \<Rightarrow> instant \<Rightarrow> session_id \<Rightarrow> string \<Rightarrow> daemon \<Rightarrow> (reg_error + unit) \<times> daemon" where
  "rename_session U now sid name d =
     (case get_session sid (dm_reg d) of
        None \<Rightarrow> (Inl (NoSuchSession sid), d)
      | Some s \<Rightarrow>
          (let d1 = in_reg (upd_session sid (\<lambda>s. s\<lparr>ss_name := name\<rparr>)) d
           in case run_store (upsert_session U (timestamp_millis (int now)) sid name) d1 of
                (Inl e, d2) \<Rightarrow> (Inl (StoreFailed e), d2)
              | (Inr _, d2) \<Rightarrow> (Inr (), d2)))"

section \<open>The state engine\<close>

text \<open>
  One round of \<open>spawn_state_engine\<close>: every tracker present at the start of the round is
  ticked; a change fires the hooks and an event. \<open>clk\<close> gives the clock readings per pane.
\<close>

definition tick_pane ::
  "(uuid \<Rightarrow> string) \<Rightarrow> hooks_config \<Rightarrow> (bytes \<Rightarrow> bytes) \<Rightarrow> (u32 \<Rightarrow> bytes option) \<Rightarrow> (pane_id \<Rightarrow> nat \<Rightarrow> instant)
   \<Rightarrow> (u32 \<Rightarrow> bool) \<Rightarrow> session_id \<times> pane_id \<times> tracker \<Rightarrow> hook_effect list \<times> registry \<Rightarrow> hook_effect list \<times> registry" where
  "tick_pane show_uuid hooks lower foreground clk alive tr acc =
     (let (sid, pane, t) = tr; (effects, reg) = acc;
          (changed, t') = tick_tracker lower foreground (clk pane) alive t;
          reg1 = upd_session sid (upd_pane pane (\<lambda>p. p\<lparr>pn_tracker := t'\<rparr>)) reg
      in if changed
         then (effects @ fire_state_change show_uuid hooks sid pane (t_state t') (t_reason t'),
               emit_event pane StateChanged (Some (t_state t')) None reg1)
         else (effects, reg1))"

definition engine_tick ::
  "(uuid \<Rightarrow> string) \<Rightarrow> hooks_config \<Rightarrow> (bytes \<Rightarrow> bytes) \<Rightarrow> (u32 \<Rightarrow> bytes option) \<Rightarrow> (pane_id \<Rightarrow> nat \<Rightarrow> instant)
   \<Rightarrow> (u32 \<Rightarrow> bool) \<Rightarrow> registry \<Rightarrow> hook_effect list \<times> registry" where
  "engine_tick show_uuid hooks lower foreground clk alive reg =
     fold (tick_pane show_uuid hooks lower foreground clk alive) (all_trackers reg) ([], reg)"

end
