(* ===== verification/Registry_Laws.thy ===== *)
theory Registry_Laws
  imports Session_Registry Layout_Weights
begin

text \<open>
  Laws of the session registry over all sequences of its operations: the event log a client
  can resume from, the structural invariant with well-formed layouts in every window, what
  opening and closing a pane do, and the situations in which panes, layouts and windows get
  out of step.
\<close>

section \<open>The event log\<close>





text \<open>Everything sent so far is numbered from 1, and the ring is the newest part of it.\<close>

definition events_ok :: "registry \<Rightarrow> bool" where
  "events_ok reg \<longleftrightarrow> rg_seq reg = of_nat (length (rg_sent reg))
     \<and> (\<forall>i<length (rg_sent reg). pe_seq (rg_sent reg ! i) = of_nat (Suc i))
     \<and> rg_ring reg = last_n event_ring_cap (rg_sent reg)"


lemma events_ok_same:
  "rg_seq reg' = rg_seq reg \<Longrightarrow> rg_sent reg' = rg_sent reg \<Longrightarrow> rg_ring reg' = rg_ring reg \<Longrightarrow>
   events_ok reg' = events_ok reg"
  by (simp add: events_ok_def)

lemma events_ok_updates [registry_simps]:
  "events_ok (upd_session sid f reg) = events_ok reg"
  "events_ok (detach sid reg) = events_ok reg"
  "events_ok (set_layout sid wid tree reg) = events_ok reg"
  "events_ok (evict_session_if_empty sid reg) = events_ok reg"
  "events_ok (reg\<lparr>rg_sessions := ss\<rparr>) = events_ok reg"
  by (rule events_ok_same; simp add: upd_session_def detach_def set_layout_def evict_session_if_empty_def split: option.split)+

lemma reg_fields [registry_simps]:
  "dm_reg (try_store m d) = dm_reg d"
  "dm_reg (in_reg f d) = f (dm_reg d)"
  "dm_reg (snd (pane_kill kill_ok p d)) = dm_reg d"
  "dm_reg (snd (run_store n d)) = dm_reg d"
  by (simp_all add: try_store_def run_store_def in_reg_def pane_kill_def Let_def case_prod_unfold)

section \<open>Sequences of operations\<close>

text \<open>
  Every operation that changes the registry. \<open>RRegister\<close> is the second half of an
  \<open>open_pane\<close> whose first half ran before other operations.
\<close>

datatype reg_op =
    RNewSession instant session_id window_id "string option"
  | ROpen instant "string option" "u32 option option" pane_id session_id open_pane_req
  | RRegister instant session_id pane_state
  | RSplit instant "string option" "u32 option option" pane_id pane_id orient "string option" "string option" "string option"
  | RClose "u32 \<Rightarrow> bool" bool pane_id
  | RWeight pane_id u16
  | RNewWindow instant window_id session_id "string option"
  | RRenameWindow window_id string
  | RCloseWindow "u32 \<Rightarrow> bool" window_id
  | RKill "u32 \<Rightarrow> bool" session_id
  | RExit pane_id
  | RRenamePane instant pane_id string
  | RRenameSession instant session_id string
  | RTick hooks_config "bytes \<Rightarrow> bytes" "u32 \<Rightarrow> bytes option" "pane_id \<Rightarrow> nat \<Rightarrow> instant" "u32 \<Rightarrow> bool"

fun reg_do :: "codec \<Rightarrow> reg_op \<Rightarrow> daemon \<Rightarrow> daemon" where
  "reg_do U (RNewSession now sid wid name) d = new_session U now sid wid name d"
| "reg_do U (ROpen now sh proc pane sid req) d = snd (open_pane U now sh proc pane sid req d)"
| "reg_do U (RRegister now sid p) d = open_pane_register U now sid p d"
| "reg_do U (RSplit now sh proc new parent ori name cwd cmd) d = snd (open_pane_split U now sh proc new parent ori name cwd cmd d)"
| "reg_do U (RClose ko persist pane) d = snd (close_pane U ko persist pane d)"
| "reg_do U (RWeight pane w) d = snd (set_pane_weight U pane w d)"
| "reg_do U (RNewWindow now wid sid name) d = snd (new_window U now wid sid name d)"
| "reg_do U (RRenameWindow wid name) d = snd (reg_rename_window U wid name d)"
| "reg_do U (RCloseWindow ko wid) d = snd (close_window U ko wid d)"
| "reg_do U (RKill ko sid) d = snd (kill_session ko sid d)"
| "reg_do U (RExit pane) d = in_reg (remove_pane pane) d"
| "reg_do U (RRenamePane now pane name) d = snd (reg_rename_pane U now pane name d)"
| "reg_do U (RRenameSession now sid name) d = snd (rename_session U now sid name d)"
| "reg_do U (RTick hooks lower fg clk alive) d = in_reg (\<lambda>reg. snd (engine_tick (cd_show U) hooks lower fg clk alive reg)) d"

definition reg_run :: "codec \<Rightarrow> reg_op list \<Rightarrow> daemon \<Rightarrow> daemon" where
  "reg_run U ops d = foldl (\<lambda>d x. reg_do U x d) d ops"

lemma reg_run_simps [simp]: "reg_run U [] d = d" "reg_run U (x # ops) d = reg_run U ops (reg_do U x d)"
  by (simp_all add: reg_run_def)

text \<open>Spawning a process changes only the store.\<close>

lemma run_store_reg: "run_store m d = (r, d') \<Longrightarrow> dm_reg d' = dm_reg d"
  using reg_fields(4) [of m d] by simp

lemma spawn_pty_reg [registry_simps]: "dm_reg (snd (spawn_pty U now sh proc pane req sid wid pn sn d)) = dm_reg d"
  by (auto simp: spawn_pty_def Let_def dest!: run_store_reg split: option.split prod.split sum.split)

lemma open_pane_spawn_reg [registry_simps]:
  "dm_reg (snd (open_pane_spawn U now sh proc pane sid req d)) = dm_reg d"
  by (simp add: open_pane_spawn_def registry_simps split: option.split)












definition demo_daemon :: daemon where
  "demo_daemon = \<lparr>dm_reg = registry_new, dm_store = empty_store, dm_signals = []\<rparr>"


section \<open>Structure of the registry\<close>

definition window_ok :: "session_id \<Rightarrow> window_state \<Rightarrow> bool" where
  "window_ok k w \<longleftrightarrow> ws_session w = k \<and> (\<forall>t. ws_layout w = Some t \<longrightarrow> good_layout t)"

definition session_ok :: "session_id \<Rightarrow> session_state \<Rightarrow> bool" where
  "session_ok k s \<longleftrightarrow> ss_id s = k \<and> distinct (map fst (ss_panes s))
     \<and> (\<forall>(i, p)\<in>set (ss_panes s). pn_id p = i \<and> pn_session p = k)
     \<and> (\<forall>w\<in>set (ss_windows s). window_ok k w)"

definition objects :: "registry \<Rightarrow> (session_id \<times> session_state) set" where
  "objects reg = set (rg_sessions reg) \<union> set (rg_detached reg)"

definition reg_ok :: "registry \<Rightarrow> bool" where
  "reg_ok reg \<longleftrightarrow> distinct (map fst (rg_sessions reg)) \<and> (\<forall>(k, s)\<in>objects reg. session_ok k s)
     \<and> (\<forall>(k, s)\<in>set (rg_sessions reg). \<forall>(k', s')\<in>set (rg_sessions reg).
          fst ` set (ss_panes s) \<inter> fst ` set (ss_panes s') \<noteq> {} \<longrightarrow> k = k')"

lemma reg_ok_emit [registry_simps]: "reg_ok (emit_event pane kind st ag reg) = reg_ok reg"
  by (simp add: reg_ok_def objects_def emit_event_def Let_def)

definition keys :: "session_state \<Rightarrow> pane_id set" where
  "keys s = fst ` set (ss_panes s)"

lemma reg_okD:
  assumes "reg_ok reg"
  shows "(k, s) \<in> set (rg_sessions reg) \<Longrightarrow> session_ok k s" "(k, s) \<in> objects reg \<Longrightarrow> session_ok k s"
    "(k, s) \<in> set (rg_sessions reg) \<Longrightarrow> (k', s') \<in> set (rg_sessions reg) \<Longrightarrow> i \<in> keys s \<Longrightarrow> i \<in> keys s' \<Longrightarrow> k = k'"
  using assms unfolding reg_ok_def objects_def keys_def by (blast, blast, blast)

lemma reg_okI:
  assumes "distinct (map fst (rg_sessions reg))" "\<And>k s. (k, s) \<in> objects reg \<Longrightarrow> session_ok k s"
    and "\<And>k s k' s' i. (k, s) \<in> set (rg_sessions reg) \<Longrightarrow> (k', s') \<in> set (rg_sessions reg) \<Longrightarrow> i \<in> keys s \<Longrightarrow> i \<in> keys s' \<Longrightarrow> k = k'"
  shows "reg_ok reg"
  using assms unfolding reg_ok_def keys_def by blast

text \<open>Changing one session object; \<open>N\<close> are the panes it may gain.\<close>

lemma reg_ok_upd:
  assumes ok: "reg_ok reg" and f: "\<And>s. (sid, s) \<in> objects reg \<Longrightarrow> session_ok sid s \<Longrightarrow> session_ok sid (f s)"
    and gain: "\<And>s. keys (f s) \<subseteq> keys s \<union> N"
    and new: "\<And>k s. (k, s) \<in> set (rg_sessions reg) \<Longrightarrow> k \<noteq> sid \<Longrightarrow> N \<inter> keys s = {}"
  shows "reg_ok (upd_session sid f reg)"
proof (rule reg_okI)
  let ?g = "\<lambda>(k, s). (k, if k = sid then f s else s)"
  have "map fst (rg_sessions (upd_session sid f reg)) = map fst (rg_sessions reg)"
    by (simp add: upd_session_def case_prod_unfold comp_def)
  then show "distinct (map fst (rg_sessions (upd_session sid f reg)))" using ok by (simp add: reg_ok_def)
  have objs: "objects (upd_session sid f reg) = ?g ` objects reg"
    by (simp add: objects_def upd_session_def image_Un)
  show "session_ok k s" if "(k, s) \<in> objects (upd_session sid f reg)" for k s
    using that f reg_okD(2) [OF ok] unfolding objs by (auto split: if_splits)
  fix k s k' s' i
  assume "(k, s) \<in> set (rg_sessions (upd_session sid f reg))" "(k', s') \<in> set (rg_sessions (upd_session sid f reg))"
    and i: "i \<in> keys s" "i \<in> keys s'"
  then obtain u u' where u: "(k, u) \<in> set (rg_sessions reg)" "s = (if k = sid then f u else u)"
    and u': "(k', u') \<in> set (rg_sessions reg)" "s' = (if k' = sid then f u' else u')"
    by (auto simp: upd_session_def)
  show "k = k'"
    using i u u' gain [of u] gain [of u'] new [OF u(1)] new [OF u'(1)] reg_okD(3) [OF ok u(1) u'(1), of i]
    by (auto split: if_splits)
qed

lemma reg_ok_detach: "reg_ok reg \<Longrightarrow> reg_ok (detach sid reg)"
proof (rule reg_okI)
  assume ok: "reg_ok reg"
  show "distinct (map fst (rg_sessions (detach sid reg)))"
    using ok by (simp add: detach_def reg_ok_def distinct_fst_delete)
  have "objects (detach sid reg) \<subseteq> objects reg" by (auto simp: objects_def detach_def set_delete)
  then show "session_ok k s" if "(k, s) \<in> objects (detach sid reg)" for k s
    using that reg_okD(2) [OF ok] by blast
  fix k s k' s' i
  assume "(k, s) \<in> set (rg_sessions (detach sid reg))" "(k', s') \<in> set (rg_sessions (detach sid reg))" "i \<in> keys s" "i \<in> keys s'"
  then show "k = k'" using reg_okD(3) [OF ok, of k s k' s' i] by (simp add: detach_def set_delete)
qed

lemma reg_ok_evict: "reg_ok reg \<Longrightarrow> reg_ok (evict_session_if_empty sid reg)"
  by (simp add: evict_session_if_empty_def reg_ok_detach split: option.split)

text \<open>Changes inside a session that keep it well formed.\<close>

lemma session_ok_window:
  assumes "session_ok k s" "\<And>w. window_ok k w \<Longrightarrow> window_ok k (f w)"
  shows "session_ok k (upd_window wid f s)"
  using assms by (auto simp: session_ok_def upd_window_def)

lemma keys_upd_window [simp]: "keys (upd_window wid f s) = keys s"
  by (simp add: keys_def upd_window_def)

lemma reg_ok_set_layout: "reg_ok reg \<Longrightarrow> good_layout tree \<Longrightarrow> reg_ok (set_layout sid wid tree reg)"
  unfolding set_layout_def
  by (rule reg_ok_upd [where N = "{}"]) (auto intro!: session_ok_window simp: window_ok_def)

lemma reg_ok_upd_pane:
  assumes "reg_ok reg" "\<And>p. pn_id (f p) = pn_id p" "\<And>p. pn_session (f p) = pn_session p"
  shows "reg_ok (upd_session sid (upd_pane pane f) reg)"
proof (rule reg_ok_upd [where N = "{}", OF assms(1)])
  have fst: "map fst (ss_panes (upd_pane pane f s)) = map fst (ss_panes s)" for s
    by (simp add: upd_pane_def case_prod_unfold comp_def)
  show "session_ok sid (upd_pane pane f s)" if "session_ok sid s" for s
  proof -
    have "distinct (map fst (ss_panes (upd_pane pane f s)))"
      using that fst [of s] by (simp add: session_ok_def)
    then show ?thesis using that assms(2,3) by (auto simp: session_ok_def upd_pane_def split: if_splits)
  qed
  show "keys (upd_pane pane f s) \<subseteq> keys s \<union> {}" for s
    by (force simp: keys_def upd_pane_def)
qed auto

text \<open>Where sessions, windows and layouts are found.\<close>

lemma get_session_in: "get_session sid reg = Some s \<Longrightarrow> (sid, s) \<in> set (rg_sessions reg)"
  by (simp add: get_session_def map_of_SomeD)

lemma object_session_in: "object_session sid reg = Some s \<Longrightarrow> (sid, s) \<in> objects reg"
  by (auto simp: object_session_def objects_def get_session_def dest: map_of_SomeD split: option.splits)

lemma get_pane_in:
  "get_pane pane reg = Some (s, p) \<Longrightarrow> \<exists>k. (k, s) \<in> set (rg_sessions reg) \<and> (pane, p) \<in> set (ss_panes s)"
proof -
  have "scan_panes pane ss = Some (s, p) \<Longrightarrow> \<exists>k. (k, s) \<in> set ss \<and> (pane, p) \<in> set (ss_panes s)" for ss
    by (induction ss rule: scan_panes.induct) (auto split: option.splits dest: map_of_SomeD)
  then show "get_pane pane reg = Some (s, p) \<Longrightarrow> ?thesis" by (simp add: get_pane_def)
qed

lemma window_of_in: "window_of wid s = Some w \<Longrightarrow> w \<in> set (ss_windows s) \<and> ws_id w = wid"
  unfolding window_of_def by (induction "ss_windows s") (auto simp: find_Some_iff)

lemma layout_good:
  assumes "reg_ok reg" "(k, s) \<in> objects reg" "window_of wid s = Some w" "ws_layout w = Some t"
  shows "good_layout t"
  using reg_okD(2) [OF assms(1,2)] window_of_in [OF assms(3)] assms(4) by (auto simp: session_ok_def window_ok_def)

lemma live_object: "(k, s) \<in> set (rg_sessions reg) \<Longrightarrow> (k, s) \<in> objects reg"
  by (simp add: objects_def)

section \<open>Every operation keeps the structure\<close>

text \<open>A pane identifier that no session and no layout knows yet.\<close>

definition fresh_pane :: "pane_id \<Rightarrow> registry \<Rightarrow> bool" where
  "fresh_pane pane reg \<longleftrightarrow> (\<forall>(k, s)\<in>objects reg. pane \<notin> keys s
     \<and> (\<forall>w\<in>set (ss_windows s). \<forall>t. ws_layout w = Some t \<longrightarrow> pane \<notin> set (all_leaves t)))"

lemma split_absent:
  "f \<notin> set (all_leaves t) \<Longrightarrow> split_focused_inner t f n ori = (False, t)"
  "f \<notin> \<Union> (set (map (set \<circ> all_leaves \<circ> fst) cs)) \<Longrightarrow> split_children cs f n ori = (False, cs)"
  by (induction t f n ori and cs f n ori rule: split_focused_inner_split_children.induct) auto

lemma reg_ok_new_session: "reg_ok (dm_reg d) \<Longrightarrow> reg_ok (dm_reg (new_session U now sid wid name d))"
proof -
  assume ok: "reg_ok (dm_reg d)"
  let ?s = "\<lparr>ss_id = sid, ss_name = session_default_name U sid name, ss_created_at = now, ss_last_active_at = now,
    ss_panes = [], ss_windows = [default_window wid sid now]\<rparr>"
  have "reg_ok ((dm_reg d)\<lparr>rg_sessions := AList.update sid ?s (rg_sessions (dm_reg d))\<rparr>)"
  proof (rule reg_okI)
    show "distinct (map fst (rg_sessions ((dm_reg d)\<lparr>rg_sessions := AList.update sid ?s (rg_sessions (dm_reg d))\<rparr>)))"
      using ok by (simp add: reg_ok_def distinct_update)
    have s: "session_ok sid ?s" "keys ?s = {}" by (simp_all add: session_ok_def window_ok_def default_window_def keys_def)
    have sub: "set (AList.update sid ?s xs) \<subseteq> insert (sid, ?s) (set xs)" for xs by (rule set_update_subset)
    show "session_ok k s" if "(k, s) \<in> objects ((dm_reg d)\<lparr>rg_sessions := AList.update sid ?s (rg_sessions (dm_reg d))\<rparr>)" for k s
      using that s(1) sub [of "rg_sessions (dm_reg d)"] reg_okD(2) [OF ok, of k s] by (auto simp: objects_def)
    fix k s k' s' i
    assume "(k, s) \<in> set (rg_sessions ((dm_reg d)\<lparr>rg_sessions := AList.update sid ?s (rg_sessions (dm_reg d))\<rparr>))"
      "(k', s') \<in> set (rg_sessions ((dm_reg d)\<lparr>rg_sessions := AList.update sid ?s (rg_sessions (dm_reg d))\<rparr>))"
      "i \<in> keys s" "i \<in> keys s'"
    then show "k = k'"
      using s(2) sub [of "rg_sessions (dm_reg d)"] reg_okD(3) [OF ok, of k s k' s' i] by auto
  qed
  then show ?thesis by (simp add: new_session_def Let_def registry_simps)
qed

lemma reg_ok_register:
  assumes "reg_ok (dm_reg d)" "fresh_pane (pn_id p) (dm_reg d)" "pn_session p = sid"
  shows "reg_ok (dm_reg (open_pane_register U now sid p d))"
proof -
  let ?f = "\<lambda>s. s\<lparr>ss_panes := AList.update (pn_id p) p (ss_panes s), ss_last_active_at := now\<rparr>"
  have add: "session_ok sid (?f s)" if "session_ok sid s" for s
    using that assms(3) set_update_subset [of "pn_id p" p "ss_panes s"]
    by (auto simp: session_ok_def distinct_update)
  have "reg_ok (upd_session sid ?f (dm_reg d))"
  proof (rule reg_ok_upd [where N = "{pn_id p}", OF assms(1)])
    show "keys (?f s) \<subseteq> keys s \<union> {pn_id p}" for s by (auto simp: keys_def dom_update)
    show "{pn_id p} \<inter> keys s = {}" if "(k, s) \<in> set (rg_sessions (dm_reg d))" for k s
      using assms(2) live_object [OF that] by (auto simp: fresh_pane_def)
  qed (use add in auto)
  then show ?thesis
    by (simp add: open_pane_register_def Let_def registry_simps reg_ok_set_layout good_leaf)
qed

lemma spawn_pane_fields:
  "spawn_pty U now sh proc pane req sid wid pn sn d = (Inr p, d') \<Longrightarrow> pn_id p = pane \<and> pn_session p = sid \<and> pn_window p = wid"
  by (auto simp: spawn_pty_def Let_def split: option.splits prod.splits sum.splits)

lemma open_spawn_fields:
  "open_pane_spawn U now sh proc pane sid req d = (Inr p, d') \<Longrightarrow> pn_id p = pane \<and> pn_session p = sid"
  by (auto simp: open_pane_spawn_def dest!: spawn_pane_fields split: option.splits)

lemma reg_ok_open:
  assumes "reg_ok (dm_reg d)" "fresh_pane pane (dm_reg d)"
  shows "reg_ok (dm_reg (snd (open_pane U now sh proc pane sid req d)))"
proof -
  obtain r d1 where sp: "open_pane_spawn U now sh proc pane sid req d = (r, d1)" by fastforce
  then have reg: "dm_reg d1 = dm_reg d" using open_pane_spawn_reg [of U now sh proc pane sid req d] by simp
  show ?thesis
  proof (cases r)
    case (Inr p)
    then show ?thesis
      using reg_ok_register [of d1 p sid] open_spawn_fields [of U now sh proc pane sid req d p d1] sp reg assms
      by (simp add: open_pane_def)
  qed (simp add: open_pane_def sp reg assms)
qed

text \<open>After a new pane is registered, a window's layout is what it was or the leaf of the pane.\<close>

lemma window_of_upd_window:
  assumes "\<And>w. ws_id (f w) = ws_id w"
  shows "window_of wid (upd_window wid' f s) = map_option (\<lambda>w. if ws_id w = wid' then f w else w) (window_of wid s)"
proof -
  have "find (\<lambda>w. ws_id w = wid) (map (\<lambda>w. if ws_id w = wid' then f w else w) ws)
      = map_option (\<lambda>w. if ws_id w = wid' then f w else w) (find (\<lambda>w. ws_id w = wid) ws)" for ws
    using assms by (induction ws) auto
  then show ?thesis by (simp add: window_of_def upd_window_def)
qed

lemma emit_sessions [simp]:
  "rg_sessions (emit_event pane kind st ag reg) = rg_sessions reg"
  "rg_detached (emit_event pane kind st ag reg) = rg_detached reg"
  by (simp_all add: emit_event_def Let_def)

lemma object_upd_session:
  "object_session sid (upd_session sid' f reg) = map_option (\<lambda>s. if sid = sid' then f s else s) (object_session sid reg)"
proof -
  have "map_of (map (\<lambda>(k, s). (k, if k = sid' then f s else s)) xs) sid
      = map_option (\<lambda>s. if sid = sid' then f s else s) (map_of xs sid)" for xs
    by (induction xs) auto
  then show ?thesis by (simp add: object_session_def get_session_def upd_session_def split: option.split)
qed

definition layout_at :: "session_id \<Rightarrow> window_id \<Rightarrow> registry \<Rightarrow> layout_node option" where
  "layout_at sid wid reg = Option.bind (Option.bind (object_session sid reg) (window_of wid)) ws_layout"

lemma layout_at_emit [registry_simps]: "layout_at sid wid (emit_event pane kind st ag reg) = layout_at sid wid reg"
  by (simp add: layout_at_def object_session_def get_session_def cong: option.case_cong)

lemma layout_at_set:
  "layout_at sid wid (set_layout sid wid' tree reg)
   = (if wid' = wid \<and> Option.bind (object_session sid reg) (window_of wid) \<noteq> None then Some tree else layout_at sid wid reg)"
  by (auto simp: layout_at_def set_layout_def object_upd_session window_of_upd_window
      split: option.split Option.bind_split dest: window_of_in)

lemma register_layout:
  assumes "pn_session p = sid"
  shows "layout_at sid wid (dm_reg (open_pane_register U now sid p d))
    \<in> {layout_at sid wid (dm_reg d), Some (Leaf (pn_id p))}"
proof -
  have "layout_at sid wid (upd_session sid (\<lambda>s. s\<lparr>ss_panes := xs s, ss_last_active_at := now\<rparr>) reg) = layout_at sid wid reg" for xs reg
    by (auto simp: layout_at_def object_upd_session window_of_def split: Option.bind_split)
  then show ?thesis by (simp add: open_pane_register_def Let_def registry_simps layout_at_set)
qed

lemma reg_ok_split:
  assumes ok: "reg_ok (dm_reg d)" and fresh: "fresh_pane new (dm_reg d)"
  shows "reg_ok (dm_reg (snd (open_pane_split U now sh proc new parent ori name cwd cmd d)))"
proof (cases "get_pane parent (dm_reg d)")
  case None
  then show ?thesis using ok by (simp add: open_pane_split_def)
next
  case (Some sp)
  obtain s p where sp: "sp = (s, p)" by fastforce
  then obtain k where s: "(k, s) \<in> set (rg_sessions (dm_reg d))" "(parent, p) \<in> set (ss_panes s)"
    using get_pane_in Some by blast
  then have parent: "parent \<noteq> new"
    using fresh live_object [OF s(1)] by (force simp: fresh_pane_def keys_def)
  let ?sid = "ss_id s" and ?wid = "pn_window p"
  obtain r d1 where op: "open_pane U now sh proc new ?sid (split_req ?sid p name cwd cmd) d = (r, d1)" by fastforce
  then have ok1: "reg_ok (dm_reg d1)"
    using reg_ok_open [OF ok fresh, of U now sh proc ?sid "split_req ?sid p name cwd cmd"] by simp
  have "reg_ok (dm_reg (split_layout U ?sid ?wid parent ori (pn_id np) d1))" if r: "r = Inr np" for np
  proof -
    have "\<exists>d0. open_pane_spawn U now sh proc new ?sid (split_req ?sid p name cwd cmd) d = (Inr np, d0)
      \<and> d1 = open_pane_register U now ?sid np d0"
      using op r by (auto simp: open_pane_def split: prod.splits sum.splits)
    then obtain d0 where "open_pane_spawn U now sh proc new ?sid (split_req ?sid p name cwd cmd) d = (Inr np, d0)"
      and d1: "d1 = open_pane_register U now ?sid np d0" by blast
    then have np: "pn_id np = new" "pn_session np = ?sid" and "dm_reg d0 = dm_reg d"
      using open_spawn_fields open_pane_spawn_reg [of U now sh proc new ?sid "split_req ?sid p name cwd cmd" d] by auto
    then have lay: "layout_at ?sid ?wid (dm_reg d1) \<in> {layout_at ?sid ?wid (dm_reg d), Some (Leaf new)}"
      using register_layout [of np ?sid ?wid U now d0] by (simp add: d1)
    have old: "good_layout t \<and> new \<notin> set (all_leaves t)" if "layout_at ?sid ?wid (dm_reg d) = Some t" for t
    proof -
      obtain s' w where "(?sid, s') \<in> objects (dm_reg d)" "window_of ?wid s' = Some w" "ws_layout w = Some t"
        using \<open>layout_at ?sid ?wid (dm_reg d) = Some t\<close> by (auto simp: layout_at_def bind_eq_Some_conv dest: object_session_in)
      then show ?thesis
        using layout_good [OF ok] fresh window_of_in by (fastforce simp: fresh_pane_def)
    qed
    have "good_layout (split_focused (case layout_at ?sid ?wid (dm_reg d1) of Some tr \<Rightarrow> tr | None \<Rightarrow> Leaf parent) parent new ori)"
    proof (cases "layout_at ?sid ?wid (dm_reg d1) = Some (Leaf new)")
      case True
      then show ?thesis using parent by (simp add: split_focused_def split_absent good_leaf)
    next
      case False
      then have "layout_at ?sid ?wid (dm_reg d1) = layout_at ?sid ?wid (dm_reg d)" using lay by simp
      then show ?thesis
        using old parent tree.good_split good_leaf by (cases "layout_at ?sid ?wid (dm_reg d)") auto
    qed
    then show ?thesis
      using ok1 np(1) by (simp add: split_layout_def Let_def registry_simps reg_ok_set_layout layout_at_def)
  qed
  then show ?thesis
    using ok ok1 op Some sp by (cases r) (auto simp: open_pane_split_def Let_def registry_simps split: option.split)
qed

lemma reg_ok_close: "reg_ok (dm_reg d) \<Longrightarrow> reg_ok (dm_reg (snd (close_pane U ko persist pane d)))"
proof (cases "get_pane pane (dm_reg d)")
  case None
  assume "reg_ok (dm_reg d)"
  then show ?thesis using None by (simp add: close_pane_def)
next
  case (Some sp)
  assume ok: "reg_ok (dm_reg d)"
  obtain s p where sp: "sp = (s, p)" by fastforce
  then obtain k where s: "(k, s) \<in> set (rg_sessions (dm_reg d))" using get_pane_in Some by blast
  have del: "reg_ok (upd_session sid (\<lambda>s. s\<lparr>ss_panes := AList.delete pane (ss_panes s)\<rparr>) (dm_reg d))" for sid
    by (rule reg_ok_upd [where N = "{}", OF ok])
      (auto simp: session_ok_def keys_def set_delete distinct_fst_delete)
  have tree: "good_layout (snd (close tr pane))" if "Option.bind (window_of (pn_window p) s) ws_layout = Some tr" for tr
    using that layout_good [OF ok live_object [OF s]] by (auto simp: bind_eq_Some_conv intro: tree.good_close)
  show ?thesis
    using Some sp ok del tree
    by (auto simp: close_pane_def pane_kill_def Let_def registry_simps reg_ok_evict reg_ok_set_layout in_reg_def
        split: option.split if_splits)
qed

lemma reg_ok_remove: "reg_ok reg \<Longrightarrow> reg_ok (remove_pane pane reg)"
proof -
  assume ok: "reg_ok reg"
  let ?rel = "\<lambda>(x :: session_id \<times> session_state) y. fst y = fst x
    \<and> (snd y = snd x \<or> snd y = (snd x)\<lparr>ss_panes := AList.delete pane (ss_panes (snd x))\<rparr>)"
  have rel: "list_all2 ?rel ss (fst (remove_from pane ss))" for ss
    by (induction ss rule: remove_from.induct) (auto simp: Let_def case_prod_unfold list_all2_refl)
  let ?reg = "reg\<lparr>rg_sessions := fst (remove_from pane (rg_sessions reg))\<rparr>"
  have from_old: "\<exists>u. (k, u) \<in> set (rg_sessions reg) \<and> keys s \<subseteq> keys u \<and> (session_ok k u \<longrightarrow> session_ok k s)"
    if "(k, s) \<in> set (rg_sessions ?reg)" for k s
  proof -
    have "(k, s) \<in> set (fst (remove_from pane (rg_sessions reg)))" using that by simp
    then obtain i where i: "i < length (rg_sessions reg)" "(k, s) = fst (remove_from pane (rg_sessions reg)) ! i"
      using list_all2_lengthD [OF rel [of "rg_sessions reg"]] by (metis in_set_conv_nth)
    obtain k' u where u: "rg_sessions reg ! i = (k', u)" by fastforce
    have "?rel (k', u) (k, s)" using list_all2_nthD [OF rel i(1)] i(2) u by simp
    moreover have "(k', u) \<in> set (rg_sessions reg)" using i(1) u nth_mem by force
    ultimately show ?thesis
      by (auto simp: session_ok_def keys_def set_delete distinct_fst_delete intro!: exI [of _ u])
  qed
  have "reg_ok ?reg"
  proof (rule reg_okI)
    have "map fst (fst (remove_from pane ss)) = map fst ss" for ss
      using rel [of ss] by (induction rule: list_all2_induct) auto
    then show "distinct (map fst (rg_sessions ?reg))" using ok by (simp add: reg_ok_def)
    show "session_ok k s" if "(k, s) \<in> objects ?reg" for k s
      using that from_old reg_okD(2) [OF ok] live_object by (fastforce simp: objects_def)
    fix k s k' s' i
    assume "(k, s) \<in> set (rg_sessions ?reg)" "(k', s') \<in> set (rg_sessions ?reg)" "i \<in> keys s" "i \<in> keys s'"
    then show "k = k'" using from_old reg_okD(3) [OF ok] by (meson subsetD)
  qed
  then show ?thesis
    by (simp add: remove_pane_def Let_def case_prod_unfold registry_simps reg_ok_detach split: option.split)
qed

lemma reg_ok_weight: "reg_ok (dm_reg d) \<Longrightarrow> reg_ok (dm_reg (snd (set_pane_weight U pane w d)))"
proof -
  assume ok: "reg_ok (dm_reg d)"
  have "good_layout (set_weight t pane w)"
    if "get_pane pane (dm_reg d) = Some (s, p)" "window_of wid s = Some win" "ws_layout win = Some t" for s p wid win t
    using that layout_good [OF ok] get_pane_in live_object by (meson tree.good_weight)
  then show ?thesis
    using ok by (auto simp: set_pane_weight_def Let_def registry_simps reg_ok_set_layout dest!: run_store_reg
        split: option.split prod.split sum.split)
qed

lemma reg_ok_new_window: "reg_ok (dm_reg d) \<Longrightarrow> reg_ok (dm_reg (snd (new_window U now wid sid name d)))"
proof -
  assume ok: "reg_ok (dm_reg d)"
  have "reg_ok (upd_session sid (\<lambda>s. s\<lparr>ss_windows := ss_windows s @ [w]\<rparr>) (dm_reg d))"
    if "ws_session w = sid" "ws_layout w = None" for w
    by (rule reg_ok_upd [where N = "{}", OF ok]) (use that in \<open>auto simp: session_ok_def window_ok_def keys_def\<close>)
  then show ?thesis using ok by (auto simp: new_window_def Let_def registry_simps split: option.split)
qed

lemma reg_ok_rename_window: "reg_ok (dm_reg d) \<Longrightarrow> reg_ok (dm_reg (snd (reg_rename_window U wid name d)))"
proof -
  assume ok: "reg_ok (dm_reg d)"
  let ?f = "\<lambda>s. upd_window wid (\<lambda>w. w\<lparr>ws_name := name\<rparr>) s"
  let ?reg = "(dm_reg d)\<lparr>rg_sessions := map (\<lambda>(k, s). (k, ?f s)) (rg_sessions (dm_reg d))\<rparr>"
  have keep: "session_ok k (?f s)" if "session_ok k s" for k s
    using that by (rule session_ok_window) (simp add: window_ok_def)
  have "reg_ok ?reg"
  proof (rule reg_okI)
    show "distinct (map fst (rg_sessions ?reg))" using ok by (simp add: reg_ok_def case_prod_unfold comp_def)
    show "session_ok k s" if "(k, s) \<in> objects ?reg" for k s
      using that keep reg_okD(2) [OF ok] by (auto simp: objects_def)
    show "k = k'" if "(k, s) \<in> set (rg_sessions ?reg)" "(k', s') \<in> set (rg_sessions ?reg)" "i \<in> keys s" "i \<in> keys s'" for k s k' s' i
      using that reg_okD(3) [OF ok] by auto
  qed
  then show ?thesis
    using ok by (auto simp: reg_rename_window_def Let_def registry_simps dest!: run_store_reg
        split: option.split prod.split sum.split)
qed

lemma reg_ok_close_window: "reg_ok (dm_reg d) \<Longrightarrow> reg_ok (dm_reg (snd (close_window U ko wid d)))"
proof -
  assume ok: "reg_ok (dm_reg d)"
  have closes: "reg_ok (dm_reg (foldl (\<lambda>d pane. snd (close_pane U ko True pane d)) d panes))" for panes
    using ok by (induction panes arbitrary: d) (simp_all add: reg_ok_close)
  have "reg_ok (upd_session sid (\<lambda>s. s\<lparr>ss_windows := filter (\<lambda>w. ws_id w \<noteq> wid) (ss_windows s)\<rparr>) reg)"
    if "reg_ok reg" for sid reg
    by (rule reg_ok_upd [where N = "{}", OF that]) (auto simp: session_ok_def keys_def)
  then show ?thesis
    using ok closes
    by (auto simp: close_window_def Let_def registry_simps reg_ok_detach split: option.split prod.split)
qed

lemma reg_ok_kill: "reg_ok (dm_reg d) \<Longrightarrow> reg_ok (dm_reg (snd (kill_session ko sid d)))"
proof -
  assume ok: "reg_ok (dm_reg d)"
  have "reg_ok (dm_reg (foldl (\<lambda>d p. in_reg (emit_event (pn_id p) Closed None None) (snd (pane_kill ko p d))) d ps))"
    if "reg_ok (dm_reg d)" for ps and d :: daemon
    using that by (induction ps arbitrary: d) (simp_all add: registry_simps)
  moreover have "reg_ok (dm_reg (in_reg (detach sid) d))" using ok by (simp add: registry_simps reg_ok_detach)
  ultimately show ?thesis using ok by (auto simp: kill_session_def split: option.split)
qed

lemma reg_ok_rename_pane: "reg_ok (dm_reg d) \<Longrightarrow> reg_ok (dm_reg (snd (reg_rename_pane U now pane name d)))"
  by (auto simp: reg_rename_pane_def Let_def registry_simps reg_ok_upd_pane dest!: run_store_reg
      split: option.split prod.split sum.split)

lemma reg_ok_rename_session: "reg_ok (dm_reg d) \<Longrightarrow> reg_ok (dm_reg (snd (rename_session U now sid name d)))"
proof -
  assume ok: "reg_ok (dm_reg d)"
  have "reg_ok (upd_session sid (\<lambda>s. s\<lparr>ss_name := name\<rparr>) (dm_reg d))"
    by (rule reg_ok_upd [where N = "{}", OF ok]) (auto simp: session_ok_def keys_def)
  then show ?thesis
    using ok by (auto simp: rename_session_def Let_def registry_simps dest!: run_store_reg
        split: option.split prod.split sum.split)
qed

lemma reg_ok_tick: "reg_ok reg \<Longrightarrow> reg_ok (snd (engine_tick sh hooks lower fg clk alive reg))"
proof -
  assume ok: "reg_ok reg"
  have "reg_ok (snd (fold (tick_pane sh hooks lower fg clk alive) trs (eff, r)))" if "reg_ok r" for trs eff r
    using that
  proof (induction trs arbitrary: eff r)
    case (Cons tr trs)
    obtain eff' r' where step: "tick_pane sh hooks lower fg clk alive tr (eff, r) = (eff', r')" by fastforce
    then have "reg_ok r'"
      using Cons.prems by (auto simp: tick_pane_def Let_def case_prod_unfold registry_simps reg_ok_upd_pane split: if_splits)
    then show ?case using Cons.IH step by simp
  qed simp
  then show ?thesis using ok by (simp add: engine_tick_def)
qed

section \<open>Reachable registries\<close>

text \<open>Identifiers of new panes are random: they are ones the registry does not hold yet.\<close>

fun op_fresh :: "reg_op \<Rightarrow> registry \<Rightarrow> bool" where
  "op_fresh (ROpen now sh proc pane sid req) reg = fresh_pane pane reg"
| "op_fresh (RRegister now sid p) reg = (fresh_pane (pn_id p) reg \<and> pn_session p = sid)"
| "op_fresh (RSplit now sh proc new parent ori name cwd cmd) reg = fresh_pane new reg"
| "op_fresh _ reg = True"

inductive reg_reachable :: "codec \<Rightarrow> daemon \<Rightarrow> bool" for U where
  start: "dm_reg d = registry_new \<Longrightarrow> reg_reachable U d"
| step: "reg_reachable U d \<Longrightarrow> op_fresh x (dm_reg d) \<Longrightarrow> reg_reachable U (reg_do U x d)"

lemma reg_ok_do: "reg_ok (dm_reg d) \<Longrightarrow> op_fresh x (dm_reg d) \<Longrightarrow> reg_ok (dm_reg (reg_do U x d))"
  by (cases x) (simp_all add: registry_simps reg_ok_new_session reg_ok_open reg_ok_register reg_ok_split reg_ok_close
      reg_ok_weight reg_ok_new_window reg_ok_rename_window reg_ok_close_window reg_ok_kill reg_ok_remove
      reg_ok_rename_pane reg_ok_rename_session reg_ok_tick)

lemma reachable_ok: "reg_reachable U d \<Longrightarrow> reg_ok (dm_reg d)"
proof (induction rule: reg_reachable.induct)
  case (start d)
  then show ?case by (simp add: reg_ok_def objects_def registry_new_def)
qed (rule reg_ok_do)

text \<open>In a well-formed registry the scan finds a pane in the one session that has it.\<close>

lemma get_pane_unique:
  assumes ok: "reg_ok reg" and s: "(k, s) \<in> set (rg_sessions reg)" and p: "(i, p) \<in> set (ss_panes s)"
  shows "get_pane i reg = Some (s, p)"
proof -
  have only: "i \<in> keys u \<longleftrightarrow> u = s" if "(k', u) \<in> set (rg_sessions reg)" for k' u
  proof
    assume "i \<in> keys u"
    then have "k' = k" using reg_okD(3) [OF ok that s] p by (force simp: keys_def)
    then show "u = s" using ok that s by (auto simp: reg_ok_def dest: eq_key_imp_eq_value)
  qed (use p in \<open>force simp: keys_def\<close>)
  have map: "map_of (ss_panes u) i = (if u = s then Some p else None)" if "(k', u) \<in> set (rg_sessions reg)" for k' u
    using only [OF that] reg_okD(1) [OF ok s] p by (auto simp: session_ok_def keys_def map_of_eq_None_iff)
  have "scan_panes i ss = Some (s, p)" if "(k, s) \<in> set ss" "set ss \<subseteq> set (rg_sessions reg)" for ss
    using that
  proof (induction ss)
    case (Cons x ss)
    then show ?case using map [of "fst x" "snd x"] by (cases x) (auto split: if_splits)
  qed simp
  then show ?thesis using s by (simp add: get_pane_def)
qed

text \<open>
  C1. The registry keeps its structure in every state the daemon can reach by any sequence of
  operations, failing ones, exits and state ticks included: a session is stored under its
  own identifier, each of its panes once and under the pane's identifier, and looking a pane
  up finds exactly it; every window belongs to the session and its layout tree, if any, is a
  well formed (every split has two children whose weights sum to 100, no pane occurs twice).
\<close>

theorem registry_structure_invariant:
  assumes "reg_reachable U d" and s: "(sid, s) \<in> set (rg_sessions (dm_reg d))"
  shows "get_session sid (dm_reg d) = Some s \<and> ss_id s = sid \<and> distinct (map fst (ss_panes s))
    \<and> (\<forall>(i, p)\<in>set (ss_panes s). pn_id p = i \<and> pn_session p = sid \<and> get_pane i (dm_reg d) = Some (s, p))
    \<and> (\<forall>w\<in>set (ss_windows s). ws_session w = sid \<and> (\<forall>t. ws_layout w = Some t \<longrightarrow> good_layout t))"
proof -
  have ok: "reg_ok (dm_reg d)" using assms(1) by (rule reachable_ok)
  then have "session_ok sid s" using s by (rule reg_okD(1))
  moreover have "get_session sid (dm_reg d) = Some s" using ok s by (simp add: reg_ok_def get_session_def)
  ultimately show ?thesis
    using get_pane_unique [OF ok s] by (auto simp: session_ok_def window_ok_def)
qed

lemma fresh_pane_code [code]:
  "fresh_pane pane reg \<longleftrightarrow> (\<forall>(k, s)\<in>set (rg_sessions reg @ rg_detached reg). pane \<notin> fst ` set (ss_panes s)
     \<and> (\<forall>w\<in>set (ss_windows s). case ws_layout w of None \<Rightarrow> True | Some t \<Rightarrow> pane \<notin> set (all_leaves t)))"
  by (simp add: fresh_pane_def objects_def keys_def split: option.split cong: ball_cong)

definition demo_req :: open_pane_req where
  "demo_req = \<lparr>or_session = SessionId 1, or_window = WindowId 2, or_shell = Some ''sh'', or_cwd = None, or_cols = 80,
     or_rows = 24, or_env = [], or_name = None\<rparr>"

text \<open>A session with two panes side by side.\<close>

definition demo_two_panes :: "reg_op list" where
  "demo_two_panes =
     [RNewSession 0 (SessionId 1) (WindowId 2) None,
      ROpen 0 None (Some (Some 71)) (PaneId 3) (SessionId 1) demo_req,
      RSplit 0 None (Some (Some 72)) (PaneId 4) (PaneId 3) Horizontal None None None]"

lemma demo_two_panes_reachable: "reg_reachable demo_codec (reg_run demo_codec demo_two_panes demo_daemon)"
proof -
  have 1: "reg_reachable demo_codec (reg_run demo_codec (take 1 demo_two_panes) demo_daemon)"
    using reg_reachable.step [OF reg_reachable.start [of demo_daemon demo_codec], of "demo_two_panes ! 0"]
    by (simp add: demo_two_panes_def demo_daemon_def)
  have "op_fresh (demo_two_panes ! 1) (dm_reg (reg_run demo_codec (take 1 demo_two_panes) demo_daemon))" by code_simp
  from reg_reachable.step [OF 1 this]
  have 2: "reg_reachable demo_codec (reg_run demo_codec (take 2 demo_two_panes) demo_daemon)"
    by (simp add: demo_two_panes_def)
  have "op_fresh (demo_two_panes ! 2) (dm_reg (reg_run demo_codec (take 2 demo_two_panes) demo_daemon))" by code_simp
  from reg_reachable.step [OF 2 this] show ?thesis by (simp add: demo_two_panes_def)
qed

lemma demo_two_panes_state:
  "map fst (rg_sessions (dm_reg (reg_run demo_codec demo_two_panes demo_daemon))) = [SessionId 1]"
  "get_pane (PaneId 3) (dm_reg (reg_run demo_codec demo_two_panes demo_daemon)) \<noteq> None"
  "get_pane (PaneId 4) (dm_reg (reg_run demo_codec demo_two_panes demo_daemon)) \<noteq> None"
  "layout_at (SessionId 1) (WindowId 2) (dm_reg (reg_run demo_codec demo_two_panes demo_daemon))
   = Some (HSplit [(Leaf (PaneId 3), 50), (Leaf (PaneId 4), 50)])"
  by code_simp+

theorem registry_structure_invariant_witness:
  "\<exists>s. get_session (SessionId 1) (dm_reg (reg_run demo_codec demo_two_panes demo_daemon)) = Some s \<and> ss_id s = SessionId 1"
proof -
  obtain s where "(SessionId 1, s) \<in> set (rg_sessions (dm_reg (reg_run demo_codec demo_two_panes demo_daemon)))"
    using demo_two_panes_state(1) by (metis list.set_intros(1) map_eq_Cons_D prod.collapse)
  from registry_structure_invariant [OF demo_two_panes_reachable this] show ?thesis by blast
qed

section \<open>Opening and closing panes\<close>

definition panes_of :: "session_id \<Rightarrow> registry \<Rightarrow> (pane_id \<times> pane_state) list option" where
  "panes_of sid reg = map_option ss_panes (get_session sid reg)"

lemma get_session_upd:
  "get_session sid (upd_session sid' f reg) = map_option (\<lambda>s. if sid = sid' then f s else s) (get_session sid reg)"
proof -
  have "map_of (map (\<lambda>(k, s). (k, if k = sid' then f s else s)) xs) sid
      = map_option (\<lambda>s. if sid = sid' then f s else s) (map_of xs sid)" for xs
    by (induction xs) auto
  then show ?thesis by (simp add: get_session_def upd_session_def)
qed

lemma panes_of_updates [registry_simps]:
  "panes_of k (emit_event pane kind st ag reg) = panes_of k reg"
  "panes_of k (set_layout sid wid tree reg) = panes_of k reg"
  "panes_of k (detach sid reg) = (if k = sid then None else panes_of k reg)"
  "panes_of k (evict_session_if_empty sid reg) = (if k = sid \<and> panes_of k reg = Some [] then None else panes_of k reg)"
proof -
  show "panes_of k (emit_event pane kind st ag reg) = panes_of k reg"
    by (simp add: panes_of_def get_session_def)
  show "panes_of k (set_layout sid wid tree reg) = panes_of k reg"
    by (cases "get_session k reg") (simp_all add: panes_of_def set_layout_def get_session_upd upd_window_def)
  show detach: "panes_of k (detach sid reg) = (if k = sid then None else panes_of k reg)"
    by (simp add: panes_of_def get_session_def detach_def delete_conv')
  show "panes_of k (evict_session_if_empty sid reg) = (if k = sid \<and> panes_of k reg = Some [] then None else panes_of k reg)"
    unfolding evict_session_if_empty_def using detach by (auto simp: panes_of_def split: option.splits)
qed

text \<open>The session and the state of a pane.\<close>

definition locate :: "pane_id \<Rightarrow> registry \<Rightarrow> (session_id \<times> pane_state) option" where
  "locate i reg = map_option (\<lambda>(s, p). (ss_id s, p)) (get_pane i reg)"

lemma locate_eqI:
  "(\<And>k p. locate i reg = Some (k, p) \<longleftrightarrow> locate i reg' = Some (k, p)) \<Longrightarrow>
   map_option snd (get_pane i reg) = map_option snd (get_pane i reg')"
  by (cases "get_pane i reg"; cases "get_pane i reg'") (auto simp: locate_def, blast)

lemma locate_None: "locate i reg = None \<longleftrightarrow> get_pane i reg = None"
  by (simp add: locate_def)

lemma get_pane_panes_of:
  assumes "reg_ok reg"
  shows "locate i reg = Some (k, p)
    \<longleftrightarrow> (\<exists>ps. panes_of k reg = Some ps \<and> (i, p) \<in> set ps)"
proof
  assume "locate i reg = Some (k, p)"
  then obtain s where "get_pane i reg = Some (s, p)" and k: "ss_id s = k" by (auto simp: locate_def)
  then obtain k' where s: "(k', s) \<in> set (rg_sessions reg)" "(i, p) \<in> set (ss_panes s)" using get_pane_in by blast
  moreover have "k' = k" using reg_okD(1) [OF assms s(1)] k by (simp add: session_ok_def)
  ultimately show "\<exists>ps. panes_of k reg = Some ps \<and> (i, p) \<in> set ps"
    using assms by (auto simp: panes_of_def get_session_def reg_ok_def)
next
  assume "\<exists>ps. panes_of k reg = Some ps \<and> (i, p) \<in> set ps"
  then obtain s where s: "get_session k reg = Some s" "(i, p) \<in> set (ss_panes s)" by (auto simp: panes_of_def)
  then have "get_pane i reg = Some (s, p)" using get_pane_unique [OF assms get_session_in] by blast
  moreover have "ss_id s = k" using reg_okD(1) [OF assms get_session_in [OF s(1)]] by (simp add: session_ok_def)
  ultimately show "locate i reg = Some (k, p)" by (simp add: locate_def)
qed

lemma last_sent [simp]:
  "last (rg_sent (emit_event pane kind st ag reg))
   = \<lparr>pe_seq = rg_seq reg + 1, pe_pane_id = pane, pe_kind = kind, pe_state = st, pe_agent = ag\<rparr>"
  by (simp add: emit_event_def Let_def)

lemma register_panes:
  "panes_of k (dm_reg (open_pane_register U now sid p d))
   = (if k = sid then map_option (AList.update (pn_id p) p) (panes_of k (dm_reg d)) else panes_of k (dm_reg d))"
proof -
  have "panes_of k (upd_session sid (\<lambda>s. s\<lparr>ss_panes := AList.update (pn_id p) p (ss_panes s), ss_last_active_at := now\<rparr>) (dm_reg d))
    = (if k = sid then map_option (AList.update (pn_id p) p) (panes_of k (dm_reg d)) else panes_of k (dm_reg d))" for k
    by (cases "get_session k (dm_reg d)") (auto simp: panes_of_def get_session_upd)
  then show ?thesis by (simp add: open_pane_register_def Let_def registry_simps)
qed

lemma register_sent:
  "let e = last (rg_sent (dm_reg (open_pane_register U now sid p d))) in pe_kind e = Spawned \<and> pe_pane_id e = pn_id p"
  by (simp add: open_pane_register_def Let_def registry_simps)

text \<open>
  C10. Opening a pane: when \<open>open_pane\<close> answers with a pane, in a reachable daemon and under an
  identifier not in use, the session exists, lookup finds exactly that pane in that session,
  every other lookup answers as before, and the newest event announces the spawn of the pane.
\<close>

theorem opened_pane_is_found:
  assumes "reg_reachable U d" "fresh_pane pane (dm_reg d)"
    and op: "open_pane U now sh proc pane sid req d = (Inr p, d')"
  shows "(\<exists>s. get_pane pane (dm_reg d') = Some (s, p) \<and> ss_id s = sid \<and> get_session sid (dm_reg d) \<noteq> None)
    \<and> (\<forall>i. i \<noteq> pane \<longrightarrow> map_option snd (get_pane i (dm_reg d')) = map_option snd (get_pane i (dm_reg d)))
    \<and> (pe_kind (last (rg_sent (dm_reg d'))) = Spawned \<and> pe_pane_id (last (rg_sent (dm_reg d'))) = pane)"
proof (rule conjI [OF _ conjI [OF allI [OF impI]]])
  have ok: "reg_ok (dm_reg d)" "reg_ok (dm_reg d')"
    using reachable_ok [OF assms(1)] reg_ok_open [OF reachable_ok [OF assms(1)] assms(2), of U now sh proc sid req] op by simp_all
  obtain d0 where sp: "open_pane_spawn U now sh proc pane sid req d = (Inr p, d0)" and d': "d' = open_pane_register U now sid p d0"
    using op by (auto simp: open_pane_def split: prod.splits sum.splits)
  then have p: "pn_id p = pane" "dm_reg d0 = dm_reg d"
    using open_spawn_fields open_pane_spawn_reg [of U now sh proc pane sid req d] by auto
  obtain s0 where s0: "get_session sid (dm_reg d) = Some s0"
    using sp by (auto simp: open_pane_spawn_def split: option.splits)
  have ps: "panes_of k (dm_reg d') = (if k = sid then Some (AList.update pane p (ss_panes s0)) else panes_of k (dm_reg d))" for k
    using s0 by (simp add: d' register_panes p) (simp add: panes_of_def)
  have "(pane, p) \<in> set (AList.update pane p (ss_panes s0))" by (simp add: update_conv' map_of_SomeD)
  then have "locate pane (dm_reg d') = Some (sid, p)"
    using get_pane_panes_of [OF ok(2)] ps by simp
  then show "\<exists>s. get_pane pane (dm_reg d') = Some (s, p) \<and> ss_id s = sid \<and> get_session sid (dm_reg d) \<noteq> None"
    using s0 by (auto simp: locate_def)
  show "map_option snd (get_pane i (dm_reg d')) = map_option snd (get_pane i (dm_reg d))" if "i \<noteq> pane" for i
  proof -
    have "(i, q) \<in> set (AList.update pane p xs) \<longleftrightarrow> (i, q) \<in> set xs" for q and xs :: "(pane_id \<times> pane_state) list"
      using that by (induction xs) auto
    then have "locate i (dm_reg d') = Some (k, q)
        \<longleftrightarrow> locate i (dm_reg d) = Some (k, q)" for k q
      unfolding get_pane_panes_of [OF ok(1)] get_pane_panes_of [OF ok(2)] ps using s0 by (auto simp: panes_of_def)
    then show ?thesis by (rule locate_eqI)
  qed
  show "pe_kind (last (rg_sent (dm_reg d'))) = Spawned \<and> pe_pane_id (last (rg_sent (dm_reg d'))) = pane"
    using register_sent [of U now sid p d0] by (simp add: d' p(1) Let_def)
qed

theorem opened_pane_is_found_witness:
  "\<exists>p d' s. open_pane demo_codec 5 None (Some (Some 73)) (PaneId 9) (SessionId 1) demo_req
       (reg_run demo_codec demo_two_panes demo_daemon) = (Inr p, d')
     \<and> get_pane (PaneId 9) (dm_reg d') = Some (s, p) \<and> ss_id s = SessionId 1"
proof -
  let ?d = "reg_run demo_codec demo_two_panes demo_daemon"
  let ?r = "open_pane demo_codec 5 None (Some (Some 73)) (PaneId 9) (SessionId 1) demo_req ?d"
  have fresh: "fresh_pane (PaneId 9) (dm_reg ?d)" by code_simp
  have "case fst ?r of Inl e \<Rightarrow> False | Inr p \<Rightarrow> True" by code_simp
  then obtain p where "?r = (Inr p, snd ?r)" by (cases "fst ?r") (auto simp: prod_eq_iff)
  from opened_pane_is_found [OF demo_two_panes_reachable fresh this, THEN conjunct1] this show ?thesis by blast
qed

lemma delete_only:
  assumes "distinct (map fst xs)" "(k, v) \<in> set xs"
  shows "AList.delete k xs = [] \<longleftrightarrow> xs = [(k, v)]"
proof (cases xs)
  case (Cons x ys)
  then show ?thesis using assms by (cases ys) (auto simp: AList.delete_eq filter_empty_conv split: if_splits)
qed (use assms in simp)

lemma close_pane_map:
  assumes "get_pane pane (dm_reg d) = Some (s, p)" "ko (pn_child_pid p)"
  shows "panes_of k (dm_reg (snd (close_pane U ko persist pane d)))
    = (if k = ss_id s
       then Option.bind (panes_of k (dm_reg d)) (\<lambda>ps. if AList.delete pane ps = [] then None else Some (AList.delete pane ps))
       else panes_of k (dm_reg d))"
proof -
  have "panes_of k (upd_session sid (\<lambda>s. s\<lparr>ss_panes := AList.delete pane (ss_panes s)\<rparr>) reg)
    = (if k = sid then map_option (AList.delete pane) (panes_of k reg) else panes_of k reg)" for sid reg
    by (cases "get_session k reg") (auto simp: panes_of_def get_session_upd)
  then show ?thesis
    using assms by (cases "panes_of k (dm_reg d)")
      (auto simp: close_pane_def pane_kill_def Let_def registry_simps in_reg_def split: option.split)
qed

text \<open>
  C11. Closing a pane: when its process takes the signal, \<open>close_pane\<close> succeeds, exactly that
  process is signalled, the pane is found nowhere any more while all others are found as before,
  the newest event announces the close, and the session is dropped exactly if it was its last pane.
\<close>

theorem closed_pane_is_gone:
  assumes "reg_reachable U d" and g: "get_pane pane (dm_reg d) = Some (s, p)" and ko: "ko (pn_child_pid p)"
    and c: "close_pane U ko persist pane d = (r, d')"
  shows "(r = Inr () \<and> dm_signals d' = dm_signals d @ [pn_child_pid p] \<and> get_pane pane (dm_reg d') = None)
    \<and> (\<forall>i. i \<noteq> pane \<longrightarrow> map_option snd (get_pane i (dm_reg d')) = map_option snd (get_pane i (dm_reg d)))
    \<and> (get_session (ss_id s) (dm_reg d') = None \<longleftrightarrow> ss_panes s = [(pane, p)])
    \<and> (pe_kind (last (rg_sent (dm_reg d'))) = Closed \<and> pe_pane_id (last (rg_sent (dm_reg d'))) = pane)"
proof (rule conjI [OF _ conjI [OF allI [OF impI] conjI]])
  have ok: "reg_ok (dm_reg d)" "reg_ok (dm_reg d')"
    using reachable_ok [OF assms(1)] reg_ok_close [OF reachable_ok [OF assms(1)], of U ko persist pane] c by simp_all
  have found: "locate pane (dm_reg d) = Some (ss_id s, p)" using g by (simp add: locate_def)
  then obtain ps where ps: "panes_of (ss_id s) (dm_reg d) = Some ps" "(pane, p) \<in> set ps"
    using get_pane_panes_of [OF ok(1)] by blast
  have mem: "(i, q) \<in> set (AList.delete pane xs) \<longleftrightarrow> i \<noteq> pane \<and> (i, q) \<in> set xs" for i q and xs :: "(pane_id \<times> pane_state) list"
    by (auto simp: set_delete)
  have after: "locate i (dm_reg d') = Some (k, q)
      \<longleftrightarrow> i \<noteq> pane \<and> locate i (dm_reg d) = Some (k, q)" for i k q
  proof (cases "i = pane")
    case True
    have "k = ss_id s" if "panes_of k (dm_reg d) = Some xs" "(pane, q) \<in> set xs" for xs
      using get_pane_panes_of [OF ok(1), of pane k q] that found by auto
    then show ?thesis
      using True close_pane_map [of pane d s p ko k U persist] g ko c ps unfolding get_pane_panes_of [OF ok(2)]
      by (auto simp: mem split: if_splits)
  next
    case False
    then show ?thesis
      using close_pane_map [of pane d s p ko k U persist] g ko c ps unfolding get_pane_panes_of [OF ok(2)] get_pane_panes_of [OF ok(1)]
      by (auto simp: mem split: if_splits) (metis empty_iff list.set(1) mem)+
  qed
  then have gone: "locate pane (dm_reg d') = None" by (metis option.exhaust prod.exhaust)
  then show "r = Inr () \<and> dm_signals d' = dm_signals d @ [pn_child_pid p] \<and> get_pane pane (dm_reg d') = None"
    using c g ko unfolding locate_None
    by (auto simp: close_pane_def pane_kill_def Let_def registry_simps in_reg_def try_store_def run_store_def
        case_prod_unfold split: option.splits)
  show "map_option snd (get_pane i (dm_reg d')) = map_option snd (get_pane i (dm_reg d))" if "i \<noteq> pane" for i
    by (rule locate_eqI) (use after that in simp)
  have "ss_panes s = ps" using ps g get_pane_in get_pane_unique [OF ok(1)] get_session_in
    by (force simp: panes_of_def)
  moreover have "AList.delete pane ps = [] \<longleftrightarrow> ps = [(pane, p)]"
    using delete_only [of ps pane p] ps reg_okD(1) [OF ok(1)] get_session_in
    by (fastforce simp: panes_of_def session_ok_def)
  ultimately show "get_session (ss_id s) (dm_reg d') = None \<longleftrightarrow> ss_panes s = [(pane, p)]"
    using close_pane_map [of pane d s p ko "ss_id s" U persist] g ko c ps(1) by (auto simp: panes_of_def split: if_splits)
  show "pe_kind (last (rg_sent (dm_reg d'))) = Closed \<and> pe_pane_id (last (rg_sent (dm_reg d'))) = pane"
    using c g ko by (auto simp: close_pane_def pane_kill_def Let_def registry_simps)
qed

theorem closed_pane_is_gone_witness:
  "get_pane (PaneId 3) (dm_reg (snd (close_pane demo_codec (\<lambda>_. True) True (PaneId 3)
     (reg_run demo_codec demo_two_panes demo_daemon)))) = None"
proof -
  let ?d = "reg_run demo_codec demo_two_panes demo_daemon"
  obtain s p where g: "get_pane (PaneId 3) (dm_reg ?d) = Some (s, p)" using demo_two_panes_state(2) by auto
  obtain r d' where c: "close_pane demo_codec (\<lambda>_. True) True (PaneId 3) ?d = (r, d')" by fastforce
  from closed_pane_is_gone [OF demo_two_panes_reachable g _ c, THEN conjunct1] c show ?thesis by simp
qed

section \<open>Panes, layouts and windows out of step\<close>

lemma object_detach: "object_session k (detach sid reg) = object_session k reg"
proof -
  have "map_of (filter (\<lambda>(k, s). k = sid) xs @ ys) sid = (case map_of xs sid of Some s \<Rightarrow> Some s | None \<Rightarrow> map_of ys sid)"
    for xs ys :: "(session_id \<times> session_state) list"
    by (induction xs) auto
  moreover have "map_of (filter (\<lambda>(k, s). k = sid) xs @ ys) k = map_of ys k" if "k \<noteq> sid"
    for xs ys :: "(session_id \<times> session_state) list"
    using that by (induction xs) auto
  ultimately show ?thesis
    by (cases "k = sid") (simp_all add: object_session_def get_session_def detach_def delete_conv' split: option.split)
qed

text \<open>The child-wait task changes no layout.\<close>

lemma remove_pane_layout: "layout_at sid wid (remove_pane pane reg) = layout_at sid wid reg"
proof -
  have "map_option ss_windows (map_of (fst (remove_from pane ss)) sid) = map_option ss_windows (map_of ss sid)" for ss
    by (induction ss rule: remove_from.induct) (auto simp: Let_def case_prod_unfold)
  from this [of "rg_sessions reg"]
  have "map_option ss_windows (object_session sid (reg\<lparr>rg_sessions := fst (remove_from pane (rg_sessions reg))\<rparr>))
      = map_option ss_windows (object_session sid reg)"
    by (cases "map_of (rg_sessions reg) sid"; cases "map_of (fst (remove_from pane (rg_sessions reg))) sid")
      (simp_all add: object_session_def get_session_def)
  moreover have "layout_at sid wid r = Option.bind (map_option ss_windows (object_session sid r)) (\<lambda>ws. Option.bind (find (\<lambda>w. ws_id w = wid) ws) ws_layout)" for r
    by (cases "object_session sid r") (simp_all add: layout_at_def window_of_def)
  ultimately show ?thesis
    by (simp add: remove_pane_def Let_def case_prod_unfold registry_simps object_detach split: option.split)
qed

lemma removed_pane_is_gone:
  assumes "reg_ok reg"
  shows "get_pane pane (remove_pane pane reg) = None"
proof -
  have "\<forall>(k, s)\<in>set (fst (remove_from pane ss)). pane \<notin> keys s"
    if "distinct (map fst ss)" "\<And>k s k' s'. (k, s) \<in> set ss \<Longrightarrow> (k', s') \<in> set ss \<Longrightarrow> pane \<in> keys s \<Longrightarrow> pane \<in> keys s' \<Longrightarrow> k = k'" for ss
    using that
  proof (induction ss rule: remove_from.induct)
    case (2 pane sid s rest)
    show ?case
    proof (cases "pane \<in> keys s")
      case True
      have "pane \<notin> keys s'" if "(k, s') \<in> set rest" for k s'
        using "2.prems"(2) [of sid s k s'] "2.prems"(1) True that by force
      then show ?thesis using True by (auto simp: keys_def map_of_eq_None_iff set_delete Let_def)
    next
      case False
      have "\<forall>(k, s)\<in>set (fst (remove_from pane rest)). pane \<notin> keys s"
      proof (rule "2.IH")
        show "\<not> map_of (ss_panes s) pane \<noteq> None" using False by (simp add: keys_def map_of_eq_None_iff)
        show "distinct (map fst rest)" using "2.prems"(1) by simp
        show "k = k'" if "(k, s) \<in> set rest" "(k', s') \<in> set rest" "pane \<in> keys s" "pane \<in> keys s'" for k s k' s'
          using "2.prems"(2) [of k s k' s'] that by simp
      qed
      then show ?thesis using False by (auto simp: keys_def map_of_eq_None_iff case_prod_unfold Let_def)
    qed
  qed simp
  from this [of "rg_sessions reg"] have sub: "\<forall>(k, s)\<in>set (fst (remove_from pane (rg_sessions reg))). pane \<notin> keys s"
    using assms reg_okD(3) [OF assms] by (simp add: reg_ok_def)
  have "set (rg_sessions (remove_pane pane reg)) \<subseteq> set (fst (remove_from pane (rg_sessions reg)))"
    by (auto simp: remove_pane_def Let_def case_prod_unfold detach_def set_delete split: option.splits)
  then have none: "pane \<notin> keys s" if "(k, s) \<in> set (rg_sessions (remove_pane pane reg))" for k s using sub that by blast
  show ?thesis
  proof (rule ccontr)
    assume "get_pane pane (remove_pane pane reg) \<noteq> None"
    then obtain s p where "get_pane pane (remove_pane pane reg) = Some (s, p)" by auto
    then obtain k where "(k, s) \<in> set (rg_sessions (remove_pane pane reg))" "(pane, p) \<in> set (ss_panes s)"
      using get_pane_in by blast
    then show False using none by (force simp: keys_def)
  qed
qed

text \<open>
  C37. A pane whose process exits leaves the registry but not its window's layout: lookup finds
  it nowhere, and the layout still has its leaf, so clients are shown a pane that does not exist.
\<close>

theorem exited_pane_stays_in_layout:
  assumes "reg_reachable U d" and t: "layout_at sid wid (dm_reg d) = Some t" "pane \<in> set (all_leaves t)"
  shows "get_pane pane (remove_pane pane (dm_reg d)) = None
    \<and> (\<exists>t. layout_at sid wid (remove_pane pane (dm_reg d)) = Some t \<and> pane \<in> set (all_leaves t))"
  using t removed_pane_is_gone [OF reachable_ok [OF assms(1)]] by (simp add: remove_pane_layout)

theorem exited_pane_stays_in_layout_witness:
  "let reg = remove_pane (PaneId 4) (dm_reg (reg_run demo_codec demo_two_panes demo_daemon))
   in get_pane (PaneId 4) reg = None \<and> get_session (SessionId 1) reg \<noteq> None
     \<and> (\<exists>t. layout_at (SessionId 1) (WindowId 2) reg = Some t \<and> PaneId 4 \<in> set (all_leaves t))"
proof -
  have "get_session (SessionId 1) (remove_pane (PaneId 4) (dm_reg (reg_run demo_codec demo_two_panes demo_daemon))) \<noteq> None"
    by code_simp
  then show ?thesis
    using exited_pane_stays_in_layout [OF demo_two_panes_reachable demo_two_panes_state(4), of "PaneId 4"]
    by (simp add: Let_def)
qed

lemma register_found:
  assumes "reg_ok (dm_reg d)" "fresh_pane (pn_id p) (dm_reg d)" "pn_session p = sid" "get_session sid (dm_reg d) \<noteq> None"
  shows "\<exists>s. get_pane (pn_id p) (dm_reg (open_pane_register U now sid p d)) = Some (s, p)"
proof -
  obtain s0 where s0: "get_session sid (dm_reg d) = Some s0" using assms(4) by blast
  have "(pn_id p, p) \<in> set (AList.update (pn_id p) p (ss_panes s0))" by (simp add: update_conv' map_of_SomeD)
  then have "locate (pn_id p) (dm_reg (open_pane_register U now sid p d)) = Some (sid, p)"
    using s0 by (simp add: get_pane_panes_of [OF reg_ok_register [OF assms(1-3)]] register_panes) (simp add: panes_of_def)
  then show ?thesis by (auto simp: locate_def)
qed

lemma remove_absent:
  assumes "fresh_pane pane reg"
  shows "remove_pane pane reg = emit_event pane Closed None None reg"
proof -
  have "remove_from pane ss = (ss, None)" if "\<forall>(k, s)\<in>set ss. pane \<notin> keys s" for ss
    using that by (induction ss rule: remove_from.induct) (auto simp: keys_def map_of_eq_None_iff)
  from this [of "rg_sessions reg"] have "remove_from pane (rg_sessions reg) = (rg_sessions reg, None)"
    using assms live_object by (fastforce simp: fresh_pane_def)
  then show ?thesis by (simp add: remove_pane_def)
qed

lemma fresh_emit [registry_simps]: "fresh_pane pane (emit_event i kind st ag reg) = fresh_pane pane reg"
  by (simp add: fresh_pane_def objects_def)

text \<open>
  A process that exits before \<open>open_pane\<close> has registered its pane: the exit finds nothing to
  remove, the registration follows, and the dead pane stays in the registry; no later exit
  will remove it, because there is only one.
\<close>

theorem exit_before_registration_leaves_dead_pane:
  assumes "reg_reachable U d" "fresh_pane pane (dm_reg d)"
    and sp: "open_pane_spawn U now sh proc pane sid req d = (Inr p, d1)"
  shows "\<exists>s. get_pane pane (dm_reg (open_pane_register U now sid p (in_reg (remove_pane pane) d1))) = Some (s, p)"
proof -
  have d1: "dm_reg d1 = dm_reg d" "pn_id p = pane" "pn_session p = sid"
    using open_pane_spawn_reg [of U now sh proc pane sid req d] sp open_spawn_fields [OF sp] by auto
  have "get_session sid (dm_reg d) \<noteq> None" using sp by (auto simp: open_pane_spawn_def split: option.splits)
  then have "get_session sid (dm_reg (in_reg (remove_pane pane) d1)) \<noteq> None"
    using assms(2) by (simp add: registry_simps d1 remove_absent get_session_def)
  moreover have "reg_ok (dm_reg (in_reg (remove_pane pane) d1))" "fresh_pane pane (dm_reg (in_reg (remove_pane pane) d1))"
    using reachable_ok [OF assms(1)] assms(2) by (simp_all add: registry_simps d1 remove_absent)
  ultimately show ?thesis using register_found [of "in_reg (remove_pane pane) d1" p sid U now] d1 by simp
qed

theorem exit_before_registration_leaves_dead_pane_witness:
  "\<exists>p d1 s. open_pane_spawn demo_codec 5 None (Some (Some 73)) (PaneId 9) (SessionId 1) demo_req
       (reg_run demo_codec demo_two_panes demo_daemon) = (Inr p, d1)
     \<and> get_pane (PaneId 9) (dm_reg (open_pane_register demo_codec 5 (SessionId 1) p (in_reg (remove_pane (PaneId 9)) d1))) = Some (s, p)"
proof -
  let ?d = "reg_run demo_codec demo_two_panes demo_daemon"
  let ?r = "open_pane_spawn demo_codec 5 None (Some (Some 73)) (PaneId 9) (SessionId 1) demo_req ?d"
  have fresh: "fresh_pane (PaneId 9) (dm_reg ?d)" by code_simp
  have "case fst ?r of Inl e \<Rightarrow> False | Inr p \<Rightarrow> True" by code_simp
  then obtain p where "?r = (Inr p, snd ?r)" by (cases "fst ?r") (auto simp: prod_eq_iff)
  from exit_before_registration_leaves_dead_pane [OF demo_two_panes_reachable fresh this] this show ?thesis by blast
qed

text \<open>
  Positions of windows are not unique: the position of a new window is the number of
  windows the session has, so closing the first of three windows and opening another one
  gives two windows the same position and the same default name.
\<close>

theorem window_positions_repeat:
  "map (\<lambda>w. (wi_id w, wi_name w, wi_position w))
     (reg_list_windows (SessionId 1) (dm_reg (reg_run demo_codec
        [RNewSession 0 (SessionId 1) (WindowId 2) None, RNewWindow 0 (WindowId 3) (SessionId 1) None,
         RNewWindow 0 (WindowId 4) (SessionId 1) None, RCloseWindow (\<lambda>_. True) (WindowId 2),
         RNewWindow 0 (WindowId 5) (SessionId 1) None] demo_daemon)))
   = [(WindowId 3, ''2'', 1), (WindowId 4, ''3'', 2), (WindowId 5, ''3'', 2)]"
  by code_simp

end
