(* ===== verification/Worker_Registry.thy ===== *)
theory Worker_Registry
  imports Pyre_Proto
begin

text \<open>
  The tables of the supervisor process (\<^verbatim>\<open>crates/pyred/src/supervisor.rs\<close>): the pane event bus,
  the index from panes to worker slots and the registry of live workers. A session is known by
  the text of its identifier. Fresh pane identifiers and clock readings are arguments. Hash
  maps are association lists whose order stands for the iteration order.
\<close>

section \<open>Pane event bus\<close>

record event_bus =
  eb_ring :: "pane_event list"
  eb_seq :: u64
  eb_sent :: "pane_event list"

definition supervisor_event_ring_cap :: nat where
  "supervisor_event_ring_cap = 256"

definition bus_new :: event_bus where
  "bus_new = \<lparr>eb_ring = [], eb_seq = 0, eb_sent = []\<rparr>"

definition bus_push :: "pane_event \<Rightarrow> pane_event list \<Rightarrow> pane_event list" where
  "bus_push ev ring = (if supervisor_event_ring_cap \<le> length ring then tl ring else ring) @ [ev]"

definition bus_emit :: "pane_id \<Rightarrow> pane_event_kind \<Rightarrow> pane_state_kind option \<Rightarrow> event_bus \<Rightarrow> event_bus" where
  "bus_emit pane kind state bus =
     (let seq = eb_seq bus + 1;
          ev = \<lparr>pe_seq = seq, pe_pane_id = pane, pe_kind = kind, pe_state = state, pe_agent = None\<rparr>
      in bus\<lparr>eb_seq := seq, eb_ring := bus_push ev (eb_ring bus), eb_sent := eb_sent bus @ [ev]\<rparr>)"

definition bus_events_after :: "u64 \<Rightarrow> event_bus \<Rightarrow> pane_event list" where
  "bus_events_after after_seq bus = filter (\<lambda>e. after_seq < pe_seq e) (eb_ring bus)"

section \<open>Pane index\<close>

record pane_index =
  px_slots :: "(uuid \<times> string \<times> u32) list"
  px_next :: "(string \<times> u32) list"
  px_dead :: "(string \<times> u32) list"

definition px_empty :: pane_index where
  "px_empty = \<lparr>px_slots = [], px_next = [], px_dead = []\<rparr>"

definition px_register :: "uuid \<Rightarrow> string \<Rightarrow> u32 \<Rightarrow> pane_index \<Rightarrow> pane_index" where
  "px_register pane sid slot px = px\<lparr>px_slots := AList.update pane (sid, slot) (px_slots px)\<rparr>"

definition px_lookup :: "uuid \<Rightarrow> pane_index \<Rightarrow> (string \<times> u32) option" where
  "px_lookup pane px = map_of (px_slots px) pane"

definition px_pane_id_by_slot :: "string \<Rightarrow> u32 \<Rightarrow> pane_index \<Rightarrow> uuid option" where
  "px_pane_id_by_slot sid slot px = map_option fst (find (\<lambda>(p, s, i). s = sid \<and> i = slot) (px_slots px))"

definition px_is_dead :: "string \<Rightarrow> u32 \<Rightarrow> pane_index \<Rightarrow> bool" where
  "px_is_dead sid slot px = ((sid, slot) \<in> set (px_dead px))"

definition px_next_slot :: "string \<Rightarrow> pane_index \<Rightarrow> u32 \<times> pane_index" where
  "px_next_slot sid px =
     (let slot = (case map_of (px_next px) sid of Some n \<Rightarrow> n | None \<Rightarrow> 0)
      in (slot, px\<lparr>px_next := AList.update sid (slot + 1) (px_next px)\<rparr>))"

definition px_remove_session :: "string \<Rightarrow> pane_index \<Rightarrow> pane_index" where
  "px_remove_session sid px =
     \<lparr>px_slots = filter (\<lambda>(p, s, i). s \<noteq> sid) (px_slots px),
      px_next = AList.delete sid (px_next px),
      px_dead = filter (\<lambda>(s, i). s \<noteq> sid) (px_dead px)\<rparr>"

definition px_count :: "string \<Rightarrow> pane_index \<Rightarrow> nat" where
  "px_count sid px = length (filter (\<lambda>(p, s, i). s = sid) (px_slots px))"

definition px_remove_pane_slot :: "string \<Rightarrow> u32 \<Rightarrow> pane_index \<Rightarrow> nat \<times> pane_index" where
  "px_remove_pane_slot sid slot px =
     (let px' = px\<lparr>px_slots := filter (\<lambda>(p, s, i). \<not> (s = sid \<and> i = slot)) (px_slots px),
                   px_dead := List.insert (sid, slot) (px_dead px)\<rparr>
      in (px_count sid px', px'))"

section \<open>Worker registry\<close>

record worker_handle =
  wh_pid :: u32
  wh_sock_path :: string
  wh_stream_sock :: string
  wh_last_heartbeat :: instant

record worker_registry =
  wr_inner :: "(string \<times> worker_handle) list"
  wr_panes :: pane_index

definition wr_new :: worker_registry where
  "wr_new = \<lparr>wr_inner = [], wr_panes = px_empty\<rparr>"

definition wr_insert :: "string \<Rightarrow> worker_handle \<Rightarrow> worker_registry \<Rightarrow> worker_registry" where
  "wr_insert sid h wr = wr\<lparr>wr_inner := AList.update sid h (wr_inner wr)\<rparr>"

definition wr_remove :: "string \<Rightarrow> worker_registry \<Rightarrow> worker_handle option \<times> worker_registry" where
  "wr_remove sid wr =
     (map_of (wr_inner wr) sid,
      wr\<lparr>wr_panes := px_remove_session sid (wr_panes wr), wr_inner := AList.delete sid (wr_inner wr)\<rparr>)"

definition touch_heartbeat :: "instant \<Rightarrow> string \<Rightarrow> worker_registry \<Rightarrow> worker_registry" where
  "touch_heartbeat now sid wr =
     wr\<lparr>wr_inner := map (\<lambda>(k, h). (k, if k = sid then h\<lparr>wh_last_heartbeat := now\<rparr> else h)) (wr_inner wr)\<rparr>"

definition alloc_pane :: "uuid \<Rightarrow> string \<Rightarrow> worker_registry \<Rightarrow> u32 \<times> worker_registry" where
  "alloc_pane pane sid wr =
     (let (slot, px) = px_next_slot sid (wr_panes wr)
      in (slot, wr\<lparr>wr_panes := px_register pane sid slot px\<rparr>))"

text \<open>
  \<open>get_or_alloc_pane_by_slot\<close> reads the index, releases the lock, and registers under a second
  lock: \<open>probe_slot\<close> is the first part, and the whole runs both with nothing in between.
\<close>

datatype slot_probe = Known uuid | Dead | Untracked

definition probe_slot :: "string \<Rightarrow> u32 \<Rightarrow> worker_registry \<Rightarrow> slot_probe" where
  "probe_slot sid slot wr =
     (case px_pane_id_by_slot sid slot (wr_panes wr) of
        Some pane \<Rightarrow> Known pane
      | None \<Rightarrow> if px_is_dead sid slot (wr_panes wr) then Dead else Untracked)"

definition register_slot :: "uuid \<Rightarrow> string \<Rightarrow> u32 \<Rightarrow> worker_registry \<Rightarrow> worker_registry" where
  "register_slot fresh sid slot wr = wr\<lparr>wr_panes := px_register fresh sid slot (wr_panes wr)\<rparr>"

definition get_or_alloc_pane_by_slot :: "uuid \<Rightarrow> string \<Rightarrow> u32 \<Rightarrow> worker_registry \<Rightarrow> uuid option \<times> worker_registry" where
  "get_or_alloc_pane_by_slot fresh sid slot wr =
     (case probe_slot sid slot wr of
        Known pane \<Rightarrow> (Some pane, wr)
      | Dead \<Rightarrow> (None, wr)
      | Untracked \<Rightarrow> (Some fresh, register_slot fresh sid slot wr))"

definition lookup_pane :: "uuid \<Rightarrow> worker_registry \<Rightarrow> (string \<times> u32) option" where
  "lookup_pane pane wr = px_lookup pane (wr_panes wr)"

definition get_stream_sock :: "string \<Rightarrow> worker_registry \<Rightarrow> string option" where
  "get_stream_sock sid wr = map_option wh_stream_sock (map_of (wr_inner wr) sid)"

definition get_ctrl_client :: "string \<Rightarrow> worker_registry \<Rightarrow> worker_handle option" where
  "get_ctrl_client sid wr = map_of (wr_inner wr) sid"

definition stale_sessions :: "instant \<Rightarrow> instant \<Rightarrow> worker_registry \<Rightarrow> string list" where
  "stale_sessions now timeout wr =
     map fst (filter (\<lambda>(k, h). now - wh_last_heartbeat h > timeout) (wr_inner wr))"

definition remove_pane_slot :: "string \<Rightarrow> u32 \<Rightarrow> worker_registry \<Rightarrow> nat \<times> worker_registry" where
  "remove_pane_slot sid slot wr =
     (let (remaining, px) = px_remove_pane_slot sid slot (wr_panes wr) in (remaining, wr\<lparr>wr_panes := px\<rparr>))"

definition pane_count :: "string \<Rightarrow> worker_registry \<Rightarrow> nat" where
  "pane_count sid wr = px_count sid (wr_panes wr)"

definition live_pane_ids :: "string \<Rightarrow> worker_registry \<Rightarrow> pane_id list" where
  "live_pane_ids sid wr = map (PaneId \<circ> fst) (filter (\<lambda>(p, s, i). s = sid) (px_slots (wr_panes wr)))"

definition session_for_pid :: "u32 \<Rightarrow> worker_registry \<Rightarrow> string option" where
  "session_for_pid pid wr = map_option fst (find (\<lambda>(k, h). wh_pid h = pid) (wr_inner wr))"

section \<open>The event bus is a bounded log\<close>

definition bus_push_all :: "pane_event list \<Rightarrow> pane_event list \<Rightarrow> pane_event list" where
  "bus_push_all evs ring = foldl (\<lambda>r e. bus_push e r) ring evs"

lemma bus_push_last_n:
  assumes "length ring \<le> supervisor_event_ring_cap"
  shows "bus_push ev ring = last_n supervisor_event_ring_cap (ring @ [ev])"
proof (cases "supervisor_event_ring_cap \<le> length ring")
  case True
  then have "length ring = supervisor_event_ring_cap" "0 < supervisor_event_ring_cap"
    using assms by (auto simp: supervisor_event_ring_cap_def)
  then show ?thesis by (cases ring) (auto simp: bus_push_def last_n_def)
next
  case False
  then show ?thesis by (simp add: bus_push_def)
qed

lemma bus_push_all_last_n:
  "length ring \<le> supervisor_event_ring_cap \<Longrightarrow> bus_push_all evs ring = last_n supervisor_event_ring_cap (ring @ evs)"
  unfolding bus_push_all_def
proof (induction evs arbitrary: ring)
  case (Cons e evs)
  have "bus_push e ring = last_n supervisor_event_ring_cap (ring @ [e])" using Cons.prems by (rule bus_push_last_n)
  then show ?case
    using Cons.IH [of "bus_push e ring"] last_n_last_n [of supervisor_event_ring_cap "ring @ [e]" evs] by simp
qed simp

interpretation bus: bounded_log bus_push_all id "\<lambda>_. supervisor_event_ring_cap" "\<lambda>ring. length ring \<le> supervisor_event_ring_cap"
  by unfold_locales (simp_all add: bus_push_all_last_n)

end
