(* ===== verification/Supervisor.thy ===== *)
theory Supervisor
  imports Worker_Registry Session_Registry
begin

text \<open>
  The supervisor of \<^verbatim>\<open>crates/pyred/src/supervisor.rs\<close> (hybrid mode): it keeps the worker registry,
  the windows of every session with their layouts, and the event bus, and serves the daemon's RPCs
  by calling the worker of a session. A call to a worker is a parameter with its outcome: nothing
  when the transport or the worker fails, which the code maps to the same error. The text inside
  errors is not modelled. New workers and shut-down workers are recorded in the order they are
  asked for. Each operation is one step, except that \<open>spawn\<close> is cut where it waits for the new
  worker to register.
\<close>

section \<open>State\<close>

record window_meta =
  wm_session_id :: string
  wm_name :: string
  wm_position :: u32
  wm_layout :: "layout_node option"

datatype pyre_error =
    ErrNoSuchSession session_id
  | ErrNoSuchPane pane_id
  | ErrSpawnFailed
  | ErrIo

record supervisor =
  su_registry :: worker_registry
  su_store :: store
  su_pending :: "string list"
  su_focus_queue :: "pane_id list"
  su_bus :: event_bus
  su_window_store :: "(window_id \<times> window_meta) list"
  su_session_windows :: "(string \<times> window_id list) list"
  su_pane_window :: "(pane_id \<times> window_id) list"
  su_spawn_cwds :: "(string \<times> string) list"
  su_finalize :: "(string \<times> u32) list"
  su_launched :: "string list"
  su_shutdowns :: "string list"

definition session_key :: "codec \<Rightarrow> session_id \<Rightarrow> string" where
  "session_key U session = cd_show U (session_uuid session)"

definition sup_run :: "'a io \<Rightarrow> supervisor \<Rightarrow> (store_error + 'a) \<times> supervisor" where
  "sup_run m s = (let (r, st) = m (su_store s) in (r, s\<lparr>su_store := st\<rparr>))"

definition sup_try :: "unit io \<Rightarrow> supervisor \<Rightarrow> supervisor" where
  "sup_try m s = snd (sup_run m s)"

definition sup_emit :: "pane_id \<Rightarrow> pane_event_kind \<Rightarrow> pane_state_kind option \<Rightarrow> supervisor \<Rightarrow> supervisor" where
  "sup_emit pane kind state s = s\<lparr>su_bus := bus_emit pane kind state (su_bus s)\<rparr>"

definition in_workers :: "(worker_registry \<Rightarrow> worker_registry) \<Rightarrow> supervisor \<Rightarrow> supervisor" where
  "in_workers f s = s\<lparr>su_registry := f (su_registry s)\<rparr>"

text \<open>\<open>entry(k).or_insert(v)\<close>: the first value stays.\<close>

definition or_insert :: "'k \<Rightarrow> 'v \<Rightarrow> ('k \<times> 'v) list \<Rightarrow> ('k \<times> 'v) list" where
  "or_insert k v m = (case map_of m k of Some _ \<Rightarrow> m | None \<Rightarrow> AList.update k v m)"

definition windows_of :: "string \<Rightarrow> supervisor \<Rightarrow> window_id list" where
  "windows_of key s = (case map_of (su_session_windows s) key of Some ws \<Rightarrow> ws | None \<Rightarrow> [])"

definition set_windows :: "string \<Rightarrow> window_id list \<Rightarrow> supervisor \<Rightarrow> supervisor" where
  "set_windows key ws s = s\<lparr>su_session_windows := AList.update key ws (su_session_windows s)\<rparr>"

definition set_meta_layout :: "window_id \<Rightarrow> layout_node \<Rightarrow> supervisor \<Rightarrow> supervisor" where
  "set_meta_layout wid tree s =
     s\<lparr>su_window_store := map (\<lambda>(k, m). (k, if k = wid then m\<lparr>wm_layout := Some tree\<rparr> else m)) (su_window_store s)\<rparr>"

section \<open>Windows\<close>

definition add_window_row :: "string \<Rightarrow> window_id \<times> string \<times> u32 \<Rightarrow> supervisor \<Rightarrow> supervisor" where
  "add_window_row key row s =
     (let (wid, name, pos) = row
      in s\<lparr>su_window_store := or_insert wid
              \<lparr>wm_session_id = key, wm_name = name, wm_position = pos, wm_layout = None\<rparr> (su_window_store s)\<rparr>)"

definition get_or_create_default_window ::
  "codec \<Rightarrow> instant \<Rightarrow> window_id \<Rightarrow> string \<Rightarrow> session_id \<Rightarrow> supervisor \<Rightarrow> window_id option \<times> supervisor" where
  "get_or_create_default_window U now new key session s =
     (case windows_of key s of
        wid # _ \<Rightarrow> (Some wid, s)
      | [] \<Rightarrow>
          (let (rows, s1) = sup_run (list_windows U session) s
           in case rows of
                Inr ((wid, name, pos) # _) \<Rightarrow>
                  (Some wid, set_windows key (wid # windows_of key s1) (add_window_row key (wid, name, pos) s1))
              | _ \<Rightarrow>
                  (case sup_run (upsert_window U new session ''1'' 0 (timestamp_millis (int now))) s1 of
                     (Inl e, s2) \<Rightarrow> (None, s2)
                   | (Inr _, s2) \<Rightarrow>
                       (Some new,
                        set_windows key (windows_of key s2 @ [new])
                          (s2\<lparr>su_window_store := AList.update new
                                \<lparr>wm_session_id = key, wm_name = ''1'', wm_position = 0, wm_layout = None\<rparr>
                                (su_window_store s2)\<rparr>)))))"

definition warm_windows :: "string \<Rightarrow> (window_id \<times> string \<times> u32) list \<Rightarrow> supervisor \<Rightarrow> supervisor" where
  "warm_windows key rows s =
     foldl (\<lambda>s row. add_window_row key row
              (if fst row \<in> set (windows_of key s) then s else set_windows key (windows_of key s @ [fst row]) s))
       (set_windows key (windows_of key s) s) rows"

fun window_infos :: "codec \<Rightarrow> instant \<Rightarrow> session_id \<Rightarrow> window_id list \<Rightarrow> supervisor \<Rightarrow> window_info list \<times> supervisor" where
  "window_infos U now session [] s = ([], s)"
| "window_infos U now session (wid # wids) s =
     (case map_of (su_window_store s) wid of
        None \<Rightarrow> window_infos U now session wids s
      | Some meta \<Rightarrow>
          (let (r, s1) = sup_run (get_window_name U wid) s;
               name = (case r of Inr (Some n) \<Rightarrow> if n \<noteq> [] then n else wm_name meta | _ \<Rightarrow> wm_name meta);
               info = \<lparr>wi_id = wid, wi_session = session, wi_name = name, wi_position = wm_position meta,
                       wi_pane_count = of_nat (length (filter (\<lambda>w. w = wid) (map snd (su_pane_window s1)))),
                       wi_created_at = now\<rparr>;
               (rest, s2) = window_infos U now session wids s1
           in (info # rest, s2)))"

definition sup_list_windows ::
  "codec \<Rightarrow> instant \<Rightarrow> session_id \<Rightarrow> supervisor \<Rightarrow> (pyre_error + window_info list) \<times> supervisor" where
  "sup_list_windows U now session s =
     (let key = session_key U session
      in case windows_of key s of
           [] \<Rightarrow>
             (case sup_run (list_windows U session) s of
                (Inl e, s1) \<Rightarrow> (Inl ErrIo, s1)
              | (Inr rows, s1) \<Rightarrow>
                  (let (infos, s2) = window_infos U now session (map fst rows) (warm_windows key rows s1) in (Inr infos, s2)))
         | wids \<Rightarrow> (let (infos, s1) = window_infos U now session wids s in (Inr infos, s1)))"

definition sup_new_window ::
  "codec \<Rightarrow> instant \<Rightarrow> window_id \<Rightarrow> session_id \<Rightarrow> string option \<Rightarrow> supervisor \<Rightarrow> (pyre_error + window_id) \<times> supervisor" where
  "sup_new_window U now new session name s =
     (let key = session_key U session;
          pos = (of_nat (length (windows_of key s)) :: u32);
          nm = (case name of Some n \<Rightarrow> n | None \<Rightarrow> show_nat (unat (pos + 1)))
      in case sup_run (upsert_window U new session nm pos (timestamp_millis (int now))) s of
           (Inl e, s1) \<Rightarrow> (Inl ErrIo, s1)
         | (Inr _, s1) \<Rightarrow>
             (Inr new,
              set_windows key (windows_of key s1 @ [new])
                (s1\<lparr>su_window_store := AList.update new
                      \<lparr>wm_session_id = key, wm_name = nm, wm_position = pos, wm_layout = None\<rparr> (su_window_store s1)\<rparr>)))"

definition sup_rename_window :: "codec \<Rightarrow> window_id \<Rightarrow> string \<Rightarrow> supervisor \<Rightarrow> (pyre_error + unit) \<times> supervisor" where
  "sup_rename_window U wid name s =
     (let s1 = s\<lparr>su_window_store := map (\<lambda>(k, m). (k, if k = wid then m\<lparr>wm_name := name\<rparr> else m)) (su_window_store s)\<rparr>
      in case sup_run (rename_window U wid name) s1 of
           (Inl e, s2) \<Rightarrow> (Inl ErrIo, s2)
         | (Inr _, s2) \<Rightarrow> (Inr (), s2))"

text \<open>The close calls to the workers change nothing here; their outcomes are ignored.\<close>

definition sup_close_window :: "codec \<Rightarrow> window_id \<Rightarrow> supervisor \<Rightarrow> (pyre_error + unit) \<times> supervisor" where
  "sup_close_window U wid s =
     (case sup_run (list_panes_for_window U wid) s of
        (Inl e, s1) \<Rightarrow> (Inl ErrIo, s1)
      | (Inr panes, s1) \<Rightarrow>
          (let s2 = s1\<lparr>su_pane_window := foldl (\<lambda>m p. AList.delete p m) (su_pane_window s1) panes\<rparr>;
               owner = map_option wm_session_id (map_of (su_window_store s2) wid);
               s3 = s2\<lparr>su_window_store := AList.delete wid (su_window_store s2)\<rparr>;
               s4 = (case owner of
                       Some key \<Rightarrow>
                         (case map_of (su_session_windows s3) key of
                            Some ws \<Rightarrow> set_windows key (filter (\<lambda>w. w \<noteq> wid) ws) s3
                          | None \<Rightarrow> s3)
                     | None \<Rightarrow> s3)
           in case sup_run (delete_window U wid) s4 of
                (Inl e, s5) \<Rightarrow> (Inl ErrIo, s5)
              | (Inr _, s5) \<Rightarrow> (Inr (), s5)))"

section \<open>Panes\<close>

text \<open>\<open>spawn\<close> up to the wait for the worker; \<open>launch_ok\<close> is the outcome of starting the process.\<close>

definition sup_spawn_begin ::
  "codec \<Rightarrow> instant \<Rightarrow> session_id \<Rightarrow> uuid \<Rightarrow> bool \<Rightarrow> spawn_req \<Rightarrow> supervisor \<Rightarrow> (pyre_error + u32) \<times> supervisor" where
  "sup_spawn_begin U now session pane launch_ok req s =
     (let key = session_key U session;
          s1 = sup_try (upsert_session U (timestamp_millis (int now)) session
                 (case sr_name req of Some n \<Rightarrow> n | None \<Rightarrow> key)) s;
          (slot, wr) = alloc_pane pane key (su_registry s1);
          s2 = s1\<lparr>su_registry := wr, su_pending := List.insert key (su_pending s1)\<rparr>
      in if launch_ok
         then (Inr slot, s2\<lparr>su_launched := su_launched s2 @ [key]\<rparr>)
         else (Inl ErrSpawnFailed, s2\<lparr>su_pending := remove1 key (su_pending s2)\<rparr>))"

datatype registration = Registered | ChannelClosed | TimedOut

definition sup_spawn_finish ::
  "codec \<Rightarrow> instant \<Rightarrow> window_id \<Rightarrow> registration \<Rightarrow> unit option \<Rightarrow> session_id \<Rightarrow> uuid \<Rightarrow> spawn_req \<Rightarrow> supervisor
   \<Rightarrow> (pyre_error + session_id \<times> pane_id \<times> window_id) \<times> supervisor" where
  "sup_spawn_finish U now win outcome open_rpc session pane req s =
     (let key = session_key U session; ms = timestamp_millis (int now); p = PaneId pane
      in case outcome of
           ChannelClosed \<Rightarrow> (Inl ErrSpawnFailed, s)
         | TimedOut \<Rightarrow> (Inl ErrSpawnFailed, s\<lparr>su_pending := remove1 key (su_pending s)\<rparr>)
         | Registered \<Rightarrow>
             if get_ctrl_client key (su_registry s) = None then (Inl ErrSpawnFailed, s)
             else if open_rpc = None then (Inl ErrSpawnFailed, s)
             else
               (let s1 = (case sr_cwd req of
                            Some c \<Rightarrow> s\<lparr>su_spawn_cwds := AList.update key c (su_spawn_cwds s)\<rparr> | None \<Rightarrow> s);
                    s2 = sup_try (upsert_window U win session ''1'' 0 ms) s1;
                    s3 = sup_try (assign_pane_window U ms p session win) s2;
                    s4 = s3\<lparr>su_window_store := AList.update win
                              \<lparr>wm_session_id = key, wm_name = ''1'', wm_position = 0, wm_layout = Some (Leaf p)\<rparr>
                              (su_window_store s3)\<rparr>;
                    s5 = set_windows key (windows_of key s4 @ [win]) s4;
                    s6 = s5\<lparr>su_pane_window := AList.update p win (su_pane_window s5)\<rparr>
                in (Inr (session, p, win), sup_emit p Spawned (Some Running) s6)))"

text \<open>
  \<open>open_pane\<close>. \<open>WindowId::default()\<close> draws a new random identifier (\<open>dflt\<close>); the code compares the
  requested window with it to recognise a request without a window.
\<close>

definition sup_open_pane ::
  "codec \<Rightarrow> instant \<Rightarrow> uuid \<Rightarrow> window_id \<Rightarrow> window_id \<Rightarrow> window_id \<Rightarrow> unit option \<Rightarrow> open_pane_req \<Rightarrow> supervisor
   \<Rightarrow> (pyre_error + pane_id) \<times> supervisor" where
  "sup_open_pane U now pane dflt new1 new2 open_rpc req s =
     (let session = or_session req; key = session_key U session; p = PaneId pane
      in if get_ctrl_client key (su_registry s) = None then (Inl (ErrNoSuchSession session), s)
         else
           (let (slot, wr) = alloc_pane pane key (su_registry s); s1 = s\<lparr>su_registry := wr\<rparr>
            in if open_rpc = None then (Inl ErrIo, s1)
               else
                 (let (target, s2) =
                        (if or_window req \<noteq> dflt then (or_window req, s1)
                         else (case get_or_create_default_window U now new1 key session s1 of
                                 (Some w, s') \<Rightarrow> (w, s') | (None, s') \<Rightarrow> (new2, s')));
                      s3 = sup_try (assign_pane_window U (timestamp_millis (int now)) p session target) s2;
                      s4 = s3\<lparr>su_pane_window := AList.update p target (su_pane_window s3)\<rparr>;
                      s5 = (if target \<in> set (windows_of key s4) then s4
                            else
                              (let pos = (of_nat (length (windows_of key s4)) :: u32);
                                   s' = set_windows key (windows_of key s4 @ [target]) s4
                               in s'\<lparr>su_window_store := or_insert target
                                       \<lparr>wm_session_id = key, wm_name = show_nat (unat (pos + 1)), wm_position = pos,
                                        wm_layout = Some (Leaf p)\<rparr> (su_window_store s')\<rparr>))
                  in (Inr p, sup_emit p Spawned (Some Running) s5))))"

text \<open>The layout of a pane's window after the pane is gone, and its row; used by both ways a pane closes.\<close>

definition collapse_layout :: "codec \<Rightarrow> pane_id \<Rightarrow> window_id option \<Rightarrow> supervisor \<Rightarrow> supervisor" where
  "collapse_layout U pane window s =
     (case Option.bind window (\<lambda>w. Option.bind (map_of (su_window_store s) w) (\<lambda>m. map_option (Pair w) (wm_layout m))) of
        None \<Rightarrow> s
      | Some (w, tree) \<Rightarrow>
          (let tree' = snd (close tree pane)
           in sup_emit pane LayoutChanged None
                (sup_try (upsert_window_layout U w (layout_text U tree')) (set_meta_layout w tree' s))))"

definition sup_close_pane :: "codec \<Rightarrow> unit option \<Rightarrow> pane_id \<Rightarrow> supervisor \<Rightarrow> (pyre_error + unit) \<times> supervisor" where
  "sup_close_pane U close_rpc pane s =
     (case lookup_pane (pane_uuid pane) (su_registry s) of
        None \<Rightarrow> (Inl (ErrNoSuchPane pane), s)
      | Some (key, slot) \<Rightarrow>
          if get_ctrl_client key (su_registry s) = None then (Inl (ErrNoSuchPane pane), s)
          else if close_rpc = None then (Inl ErrIo, s)
          else
            (let window = map_of (su_pane_window s) pane;
                 s1 = s\<lparr>su_pane_window := AList.delete pane (su_pane_window s)\<rparr>
             in (Inr (), collapse_layout U pane window s1)))"

definition sup_kill :: "codec \<Rightarrow> unit option \<Rightarrow> session_id \<Rightarrow> supervisor \<Rightarrow> (pyre_error + unit) \<times> supervisor" where
  "sup_kill U shutdown_rpc session s =
     (let key = session_key U session; (handle, wr) = wr_remove key (su_registry s); s1 = s\<lparr>su_registry := wr\<rparr>
      in case handle of
           None \<Rightarrow> (Inr (), s1)
         | Some h \<Rightarrow>
             (let s2 = s1\<lparr>su_shutdowns := su_shutdowns s1 @ [key]\<rparr>
              in if shutdown_rpc = None then (Inl ErrIo, s2) else (Inr (), s2)))"

definition close_session_window :: "codec \<Rightarrow> supervisor \<Rightarrow> window_id \<Rightarrow> supervisor" where
  "close_session_window U s wid =
     (let (r, s1) = sup_run (list_panes_for_window U wid) s;
          panes = (case r of Inr ps \<Rightarrow> ps | Inl e \<Rightarrow> []);
          s2 = s1\<lparr>su_pane_window := foldl (\<lambda>m p. AList.delete p m) (su_pane_window s1) panes,
                  su_window_store := AList.delete wid (su_window_store s1)\<rparr>
      in sup_try (delete_window U wid) s2)"

definition sup_close_session :: "codec \<Rightarrow> session_id \<Rightarrow> supervisor \<Rightarrow> (pyre_error + unit) \<times> supervisor" where
  "sup_close_session U session s =
     (let key = session_key U session; wids = windows_of key s;
          (handle, wr) = wr_remove key (su_registry s);
          s1 = s\<lparr>su_registry := wr\<rparr>;
          s2 = (case handle of Some h \<Rightarrow> s1\<lparr>su_shutdowns := su_shutdowns s1 @ [key]\<rparr> | None \<Rightarrow> s1);
          s3 = foldl (close_session_window U) s2 wids
      in (Inr (), s3\<lparr>su_session_windows := AList.delete key (su_session_windows s3)\<rparr>))"

section \<open>Calls forwarded to a worker\<close>

text \<open>
  The shape shared by \<open>capture_pane\<close>, \<open>set_pane_state\<close>, \<open>mark_pane_seen\<close>, \<open>send_keys\<close> and
  \<open>resize_pane\<close>: find the slot, find the worker, call it. \<open>rpc\<close> is the outcome of the call to
  that worker for that slot.
\<close>

definition forward_pane :: "(string \<Rightarrow> u32 \<Rightarrow> 'a option) \<Rightarrow> pane_id \<Rightarrow> supervisor \<Rightarrow> pyre_error + 'a" where
  "forward_pane rpc pane s =
     (case lookup_pane (pane_uuid pane) (su_registry s) of
        None \<Rightarrow> Inl (ErrNoSuchPane pane)
      | Some (key, slot) \<Rightarrow>
          if get_ctrl_client key (su_registry s) = None then Inl (ErrNoSuchPane pane)
          else (case rpc key slot of None \<Rightarrow> Inl ErrIo | Some v \<Rightarrow> Inr v))"

definition sup_attach :: "codec \<Rightarrow> (string \<Rightarrow> u32 \<Rightarrow> unit option) \<Rightarrow> session_id \<Rightarrow> supervisor \<Rightarrow> pyre_error + (session_id \<times> u16 \<times> u16)" where
  "sup_attach U rpc session s =
     (if get_ctrl_client (session_key U session) (su_registry s) = None then Inl (ErrNoSuchSession session)
      else if rpc (session_key U session) 0 = None then Inl ErrIo
      else Inr (session, 80, 24))"

definition sup_inspect_pid :: "pane_id \<Rightarrow> supervisor \<Rightarrow> pyre_error + u32" where
  "sup_inspect_pid pane s =
     (case lookup_pane (pane_uuid pane) (su_registry s) of
        None \<Rightarrow> Inl (ErrNoSuchPane pane)
      | Some (key, slot) \<Rightarrow>
          Inr (case map_of (wr_inner (su_registry s)) key of Some h \<Rightarrow> wh_pid h | None \<Rightarrow> 0))"

definition sup_rename_session :: "codec \<Rightarrow> instant \<Rightarrow> session_id \<Rightarrow> string \<Rightarrow> supervisor \<Rightarrow> (pyre_error + unit) \<times> supervisor" where
  "sup_rename_session U now session name s =
     (case sup_run (upsert_session U (timestamp_millis (int now)) session name) s of
        (Inl e, s1) \<Rightarrow> (Inl ErrIo, s1) | (Inr _, s1) \<Rightarrow> (Inr (), s1))"

definition sup_rename_pane :: "codec \<Rightarrow> instant \<Rightarrow> pane_id \<Rightarrow> string \<Rightarrow> supervisor \<Rightarrow> (pyre_error + unit) \<times> supervisor" where
  "sup_rename_pane U now pane name s =
     (case lookup_pane (pane_uuid pane) (su_registry s) of
        None \<Rightarrow> (Inl (ErrNoSuchPane pane), s)
      | Some (key, slot) \<Rightarrow>
          (case cd_parse U key of
             None \<Rightarrow> (Inl ErrIo, s)
           | Some u \<Rightarrow>
               (case sup_run (rename_pane U (timestamp_millis (int now)) pane (SessionId u) name) s of
                  (Inl e, s1) \<Rightarrow> (Inl ErrIo, s1) | (Inr _, s1) \<Rightarrow> (Inr (), s1))))"

definition request_focus :: "pane_id \<Rightarrow> supervisor \<Rightarrow> bool \<times> supervisor" where
  "request_focus pane s = (True, s\<lparr>su_focus_queue := su_focus_queue s @ [pane]\<rparr>)"

definition take_focus_request :: "supervisor \<Rightarrow> pane_id option \<times> supervisor" where
  "take_focus_request s =
     (case su_focus_queue s of
        [] \<Rightarrow> (None, s)
      | p # ps \<Rightarrow> (Some p, s\<lparr>su_focus_queue := ps\<rparr>))"

section \<open>Listing\<close>

text \<open>\<open>slots\<close> and \<open>info\<close> are the answers of the worker of a session; \<open>fresh\<close> draws pane identifiers.\<close>

definition worker_sessions :: "codec \<Rightarrow> supervisor \<Rightarrow> (string \<times> uuid) list" where
  "worker_sessions U s =
     List.map_filter (\<lambda>(key, h). map_option (Pair key) (cd_parse U key)) (wr_inner (su_registry s))"

fun session_infos ::
  "codec \<Rightarrow> instant \<Rightarrow> (string \<Rightarrow> u32 list option) \<Rightarrow> (string \<times> uuid) list \<Rightarrow> supervisor \<Rightarrow> session_info list \<times> supervisor" where
  "session_infos U now slots [] s = ([], s)"
| "session_infos U now slots ((key, u) # rest) s =
     (let cnt = (case slots key of Some xs \<Rightarrow> of_nat (length xs) | None \<Rightarrow> 0);
          (r, s1) = sup_run (get_session_name U (SessionId u)) s;
          name = (case r of Inr (Some n) \<Rightarrow> if n \<noteq> [] then n else key | _ \<Rightarrow> key);
          (infos, s2) = session_infos U now slots rest s1
      in (\<lparr>si_id = SessionId u, si_name = name, si_pane_count = cnt, si_created_at = now, si_last_active_at = now\<rparr> # infos, s2))"

definition sup_list_sessions :: "codec \<Rightarrow> instant \<Rightarrow> (string \<Rightarrow> u32 list option) \<Rightarrow> supervisor \<Rightarrow> session_info list \<times> supervisor" where
  "sup_list_sessions U now slots s = session_infos U now slots (worker_sessions U s) s"

definition overlay_name :: "codec \<Rightarrow> pane_info \<Rightarrow> supervisor \<Rightarrow> pane_info \<times> supervisor" where
  "overlay_name U info s =
     (let (r, s1) = sup_run (get_pane_name U (pi_id info)) s
      in (case r of Inr (Some n) \<Rightarrow> info\<lparr>pi_name := Some n\<rparr> | _ \<Rightarrow> info, s1))"

text \<open>One slot of a session: the pane's identity and information, if the slot is not dead and the worker answers.\<close>

definition slot_info ::
  "codec \<Rightarrow> uuid \<Rightarrow> (string \<Rightarrow> u32 \<Rightarrow> pane_info option) \<Rightarrow> string \<Rightarrow> session_id \<Rightarrow> u32 \<Rightarrow> supervisor
   \<Rightarrow> pane_info option \<times> supervisor" where
  "slot_info U fresh info key session slot s =
     (let (pane, wr) = get_or_alloc_pane_by_slot fresh key slot (su_registry s); s1 = s\<lparr>su_registry := wr\<rparr>
      in case (pane, info key slot) of
           (Some p, Some i) \<Rightarrow>
             (let (i', s2) = overlay_name U (i\<lparr>pi_id := PaneId p, pi_session := session\<rparr>) s1 in (Some i', s2))
         | _ \<Rightarrow> (None, s1))"

definition assign_window ::
  "codec \<Rightarrow> instant \<Rightarrow> window_id \<Rightarrow> window_id \<Rightarrow> string \<Rightarrow> session_id \<Rightarrow> pane_id \<Rightarrow> supervisor \<Rightarrow> window_id \<times> supervisor" where
  "assign_window U now new dflt key session pane s =
     (case map_of (su_pane_window s) pane of
        Some w \<Rightarrow> (w, s)
      | None \<Rightarrow>
          (case get_or_create_default_window U now new key session s of
             (Some w, s1) \<Rightarrow>
               (let s2 = sup_try (assign_pane_window U (timestamp_millis (int now)) pane session w) s1
                in (w, s2\<lparr>su_pane_window := AList.update pane w (su_pane_window s2)\<rparr>))
           | (None, s1) \<Rightarrow> (dflt, s1)))"

fun pane_infos ::
  "codec \<Rightarrow> instant \<Rightarrow> (u32 \<Rightarrow> uuid) \<Rightarrow> (u32 \<Rightarrow> window_id) \<Rightarrow> (u32 \<Rightarrow> window_id) \<Rightarrow> (string \<Rightarrow> u32 \<Rightarrow> pane_info option)
   \<Rightarrow> string \<Rightarrow> session_id \<Rightarrow> u32 list \<Rightarrow> supervisor \<Rightarrow> pane_info list \<times> supervisor" where
  "pane_infos U now fresh new dflt info key session [] s = ([], s)"
| "pane_infos U now fresh new dflt info key session (slot # slots) s =
     (case slot_info U (fresh slot) info key session slot s of
        (None, s1) \<Rightarrow> pane_infos U now fresh new dflt info key session slots s1
      | (Some i, s1) \<Rightarrow>
          (let (w, s2) = assign_window U now (new slot) (dflt slot) key session (pi_id i) s1;
               (rest, s3) = pane_infos U now fresh new dflt info key session slots s2
           in (i\<lparr>pi_window := w\<rparr> # rest, s3)))"

definition sup_list_panes ::
  "codec \<Rightarrow> instant \<Rightarrow> (u32 \<Rightarrow> uuid) \<Rightarrow> (u32 \<Rightarrow> window_id) \<Rightarrow> (u32 \<Rightarrow> window_id) \<Rightarrow> (string \<Rightarrow> u32 list option)
   \<Rightarrow> (string \<Rightarrow> u32 \<Rightarrow> pane_info option) \<Rightarrow> session_id \<Rightarrow> supervisor \<Rightarrow> (pyre_error + pane_info list) \<times> supervisor" where
  "sup_list_panes U now fresh new dflt slots info session s =
     (let key = session_key U session
      in if get_ctrl_client key (su_registry s) = None then (Inl (ErrNoSuchSession session), s)
         else
           (case slots key of
              None \<Rightarrow> (Inl ErrIo, s)
            | Some xs \<Rightarrow>
                (let (infos, s1) = pane_infos U now fresh new dflt info key session xs s in (Inr infos, s1))))"

fun slot_infos ::
  "codec \<Rightarrow> (string \<Rightarrow> u32 \<Rightarrow> uuid) \<Rightarrow> (string \<Rightarrow> u32 \<Rightarrow> pane_info option) \<Rightarrow> string \<Rightarrow> session_id \<Rightarrow> u32 list \<Rightarrow> supervisor
   \<Rightarrow> pane_info list \<times> supervisor" where
  "slot_infos U fresh info key session [] s = ([], s)"
| "slot_infos U fresh info key session (slot # slots) s =
     (let (i, s1) = slot_info U (fresh key slot) info key session slot s;
          (rest, s2) = slot_infos U fresh info key session slots s1
      in (case i of Some x \<Rightarrow> x # rest | None \<Rightarrow> rest, s2))"

fun all_pane_infos ::
  "codec \<Rightarrow> (string \<Rightarrow> u32 \<Rightarrow> uuid) \<Rightarrow> (string \<Rightarrow> u32 list option) \<Rightarrow> (string \<Rightarrow> u32 \<Rightarrow> pane_info option)
   \<Rightarrow> (string \<times> uuid) list \<Rightarrow> supervisor \<Rightarrow> pane_info list \<times> supervisor" where
  "all_pane_infos U fresh slots info [] s = ([], s)"
| "all_pane_infos U fresh slots info ((key, u) # rest) s =
     (case slots key of
        None \<Rightarrow> all_pane_infos U fresh slots info rest s
      | Some xs \<Rightarrow>
          (let (here, s1) = slot_infos U fresh info key (SessionId u) xs s;
               (more, s2) = all_pane_infos U fresh slots info rest s1
           in (here @ more, s2)))"

definition sup_list_all_panes ::
  "codec \<Rightarrow> (string \<Rightarrow> u32 \<Rightarrow> uuid) \<Rightarrow> (string \<Rightarrow> u32 list option) \<Rightarrow> (string \<Rightarrow> u32 \<Rightarrow> pane_info option) \<Rightarrow> supervisor
   \<Rightarrow> pane_info list \<times> supervisor" where
  "sup_list_all_panes U fresh slots info s = all_pane_infos U fresh slots info (worker_sessions U s) s"

section \<open>Layouts\<close>

definition window_single_leaf_fallback ::
  "uuid \<Rightarrow> (string \<Rightarrow> u32 list option) \<Rightarrow> session_id \<Rightarrow> string \<Rightarrow> supervisor \<Rightarrow> (pyre_error + layout_node) \<times> supervisor" where
  "window_single_leaf_fallback fresh slots session key s =
     (if get_ctrl_client key (su_registry s) = None then (Inl (ErrNoSuchSession session), s)
      else
        (case slots key of
           None \<Rightarrow> (Inl ErrIo, s)
         | Some [] \<Rightarrow> (Inl (ErrNoSuchSession session), s)
         | Some (slot # _) \<Rightarrow>
             (let (pane, wr) = get_or_alloc_pane_by_slot fresh key slot (su_registry s); s1 = s\<lparr>su_registry := wr\<rparr>
              in case pane of
                   Some p \<Rightarrow> (Inr (Leaf (PaneId p)), s1)
                 | None \<Rightarrow> (Inl (ErrNoSuchSession session), s1))))"

definition window_live_panes :: "window_id \<Rightarrow> string \<Rightarrow> supervisor \<Rightarrow> pane_id list" where
  "window_live_panes wid key s =
     filter (\<lambda>p. map_of (su_pane_window s) p = Some wid) (live_pane_ids key (su_registry s))"

definition prune_ghosts :: "pane_id list \<Rightarrow> layout_node \<Rightarrow> layout_node" where
  "prune_ghosts ghosts tree = foldl (\<lambda>t g. snd (close t g)) tree ghosts"

text \<open>The lazy reconciliation of a window's tree with the panes that are alive in it.\<close>

definition reconcile_layout :: "codec \<Rightarrow> window_id \<Rightarrow> string \<Rightarrow> layout_node \<Rightarrow> supervisor \<Rightarrow> layout_node \<times> supervisor" where
  "reconcile_layout U wid key tree s =
     (let live = window_live_panes wid key s;
          ghosts = filter (\<lambda>p. p \<notin> set live) (all_leaves tree)
      in if live \<noteq> [] \<and> ghosts \<noteq> []
         then (let tree' = prune_ghosts ghosts tree
               in (tree', sup_try (upsert_window_layout U wid (layout_text U tree')) (set_meta_layout wid tree' s)))
         else (tree, s))"

definition sup_get_window_layout ::
  "codec \<Rightarrow> uuid \<Rightarrow> (string \<Rightarrow> u32 list option) \<Rightarrow> window_id \<Rightarrow> supervisor \<Rightarrow> (pyre_error + layout_node) \<times> supervisor" where
  "sup_get_window_layout U fresh slots wid s =
     (case map_of (su_window_store s) wid of
        None \<Rightarrow> (Inl (ErrNoSuchSession (SessionId 0)), s)
      | Some meta \<Rightarrow>
          (let key = wm_session_id meta
           in case cd_parse U key of
                None \<Rightarrow> (Inl ErrIo, s)
              | Some u \<Rightarrow>
                  (case wm_layout meta of
                     Some tree \<Rightarrow> (let (t, s1) = reconcile_layout U wid key tree s in (Inr t, s1))
                   | None \<Rightarrow>
                       (let (r, s1) = sup_run (get_window_layout_json U wid) s
                        in case (case r of Inr (Some json) \<Rightarrow> cd_layout_parse U json | _ \<Rightarrow> None) of
                             Some tree \<Rightarrow>
                               (let (t, s2) = reconcile_layout U wid key tree (set_meta_layout wid tree s1) in (Inr t, s2))
                           | None \<Rightarrow> window_single_leaf_fallback fresh slots (SessionId u) key s1))))"

definition sup_get_session_layout ::
  "codec \<Rightarrow> uuid \<Rightarrow> (string \<Rightarrow> u32 list option) \<Rightarrow> session_id \<Rightarrow> supervisor \<Rightarrow> (pyre_error + layout_node) \<times> supervisor" where
  "sup_get_session_layout U fresh slots session s =
     (let key = session_key U session
      in case windows_of key s of
           wid # _ \<Rightarrow> sup_get_window_layout U fresh slots wid s
         | [] \<Rightarrow>
             (case sup_run (list_windows U session) s of
                (Inl e, s1) \<Rightarrow> (Inl ErrIo, s1)
              | (Inr [], s1) \<Rightarrow> window_single_leaf_fallback fresh slots session key s1
              | (Inr ((wid, name, pos) # _), s1) \<Rightarrow>
                  (let s2 = add_window_row key (wid, name, pos) s1;
                       s3 = set_windows key
                              (if wid \<in> set (windows_of key s2) then windows_of key s2 else windows_of key s2 @ [wid]) s2
                   in sup_get_window_layout U fresh slots wid s3)))"

definition sup_open_pane_split ::
  "codec \<Rightarrow> instant \<Rightarrow> uuid \<Rightarrow> window_id \<Rightarrow> window_id \<Rightarrow> unit option \<Rightarrow> pane_id \<Rightarrow> orient \<Rightarrow> supervisor
   \<Rightarrow> (pyre_error + pane_id) \<times> supervisor" where
  "sup_open_pane_split U now pane new1 new2 open_rpc parent ori s =
     (case lookup_pane (pane_uuid parent) (su_registry s) of
        None \<Rightarrow> (Inl (ErrNoSuchPane parent), s)
      | Some (key, _) \<Rightarrow>
          (case cd_parse U key of
             None \<Rightarrow> (Inl (ErrNoSuchPane parent), s)
           | Some u \<Rightarrow>
               if get_ctrl_client key (su_registry s) = None then (Inl (ErrNoSuchPane parent), s)
               else
                 (let (slot, wr) = alloc_pane pane key (su_registry s); s1 = s\<lparr>su_registry := wr\<rparr>; p = PaneId pane
                  in if open_rpc = None then (Inl ErrSpawnFailed, s1)
                     else
                       (let (target, s2) =
                              (case map_of (su_pane_window s1) parent of
                                 Some w \<Rightarrow> (w, s1)
                               | None \<Rightarrow> (case get_or_create_default_window U now new1 key (SessionId u) s1 of
                                           (Some w, s') \<Rightarrow> (w, s') | (None, s') \<Rightarrow> (new2, s')));
                            s3 = s2\<lparr>su_window_store := or_insert target
                                   \<lparr>wm_session_id = key, wm_name = ''1'', wm_position = 0, wm_layout = Some (Leaf parent)\<rparr>
                                   (su_window_store s2)\<rparr>;
                            tree = (case Option.bind (map_of (su_window_store s3) target) wm_layout of
                                      Some t \<Rightarrow> t | None \<Rightarrow> Leaf parent);
                            tree' = split_focused tree parent p ori;
                            s4 = sup_try (upsert_window_layout U target (layout_text U tree')) (set_meta_layout target tree' s3);
                            s5 = sup_try (assign_pane_window U (timestamp_millis (int now)) p (SessionId u) target) s4;
                            s6 = s5\<lparr>su_pane_window := AList.update p target (su_pane_window s5)\<rparr>
                        in (Inr p, sup_emit p LayoutChanged None (sup_emit p Spawned (Some Running) s6))))))"

definition sup_set_pane_weight :: "codec \<Rightarrow> pane_id \<Rightarrow> u16 \<Rightarrow> supervisor \<Rightarrow> (pyre_error + unit) \<times> supervisor" where
  "sup_set_pane_weight U pane weight s =
     (case map_of (su_pane_window s) pane of
        None \<Rightarrow> (Inl (ErrNoSuchPane pane), s)
      | Some wid \<Rightarrow>
          (case Option.bind (map_of (su_window_store s) wid) wm_layout of
             None \<Rightarrow> (Inl (ErrNoSuchPane pane), s)
           | Some tree \<Rightarrow>
               (let tree' = set_weight tree pane weight
                in case sup_run (upsert_window_layout U wid (layout_text U tree')) (set_meta_layout wid tree' s) of
                     (Inl e, s1) \<Rightarrow> (Inl ErrIo, s1)
                   | (Inr _, s1) \<Rightarrow> (Inr (), sup_emit pane LayoutChanged None s1))))"

section \<open>Calls from the workers\<close>

text \<open>\<open>register_worker\<close>, once the control connection back to the worker stands.\<close>

definition register_worker :: "instant \<Rightarrow> string \<Rightarrow> u32 \<Rightarrow> string \<Rightarrow> string \<Rightarrow> supervisor \<Rightarrow> supervisor" where
  "register_worker now key pid sock stream_sock s =
     (let h = \<lparr>wh_pid = pid, wh_sock_path = sock, wh_stream_sock = stream_sock, wh_last_heartbeat = now\<rparr>
      in (in_workers (wr_insert key h) s)\<lparr>su_pending := remove1 key (su_pending s)\<rparr>)"

definition finalize_cap :: nat where
  "finalize_cap = 256"

definition pane_closed :: "codec \<Rightarrow> uuid \<Rightarrow> string \<Rightarrow> u32 \<Rightarrow> supervisor \<Rightarrow> supervisor" where
  "pane_closed U fresh key slot s =
     (let (pane, wr) = get_or_alloc_pane_by_slot fresh key slot (su_registry s);
          (remaining, wr1) = remove_pane_slot key slot wr;
          wr2 = (if remaining = 0 then snd (wr_remove key wr1) else wr1);
          s1 = s\<lparr>su_registry := wr2\<rparr>;
          s2 = (case pane of
                  None \<Rightarrow> s1
                | Some u \<Rightarrow>
                    (let p = PaneId u; window = map_of (su_pane_window s1) p;
                         s' = s1\<lparr>su_pane_window := AList.delete p (su_pane_window s1)\<rparr>
                     in sup_emit p Closed None (collapse_layout U p window s')))
      in if length (su_finalize s2) < finalize_cap then s2\<lparr>su_finalize := su_finalize s2 @ [(key, slot)]\<rparr> else s2)"

definition pane_state_changed :: "uuid \<Rightarrow> string \<Rightarrow> u32 \<Rightarrow> pane_state_kind \<Rightarrow> supervisor \<Rightarrow> supervisor" where
  "pane_state_changed fresh key slot state s =
     (let (pane, wr) = get_or_alloc_pane_by_slot fresh key slot (su_registry s); s1 = s\<lparr>su_registry := wr\<rparr>
      in case pane of
           None \<Rightarrow> s1
         | Some u \<Rightarrow> sup_emit (PaneId u) StateChanged (Some state) s1)"

definition heartbeat :: "instant \<Rightarrow> string \<Rightarrow> supervisor \<Rightarrow> supervisor" where
  "heartbeat now key s = in_workers (touch_heartbeat now key) s"

section \<open>Watching the workers\<close>

definition heartbeat_timeout :: instant where
  "heartbeat_timeout = from_secs 15"

definition respawn :: "supervisor \<Rightarrow> string \<Rightarrow> supervisor" where
  "respawn s key = (in_workers (\<lambda>wr. snd (wr_remove key wr)) s)\<lparr>su_launched := su_launched s @ [key]\<rparr>"

text \<open>One round of \<open>heartbeat_monitor\<close>.\<close>

definition heartbeat_monitor :: "instant \<Rightarrow> supervisor \<Rightarrow> supervisor" where
  "heartbeat_monitor now s = foldl respawn s (stale_sessions now heartbeat_timeout (su_registry s))"

text \<open>The reaper: one exited child.\<close>

definition sigchld :: "u32 \<Rightarrow> supervisor \<Rightarrow> supervisor" where
  "sigchld pid s =
     (case session_for_pid pid (su_registry s) of
        None \<Rightarrow> s
      | Some key \<Rightarrow>
          if pane_count key (su_registry s) = 0 then in_workers (\<lambda>wr. snd (wr_remove key wr)) s
          else respawn s key)"

definition gc_stale_sessions :: "(string \<Rightarrow> u32 list option) \<Rightarrow> (string \<Rightarrow> bool) \<Rightarrow> supervisor \<Rightarrow> string list \<times> supervisor" where
  "gc_stale_sessions slots shutdown_ok s =
     (let stale = map fst (filter (\<lambda>(k, h). slots k = Some []) (wr_inner (su_registry s)))
      in foldl (\<lambda>(evicted, s) key.
           (case wr_remove key (su_registry s) of
              (None, wr) \<Rightarrow> (evicted, s\<lparr>su_registry := wr\<rparr>)
            | (Some h, wr) \<Rightarrow>
                (if shutdown_ok key then evicted @ [key] else evicted,
                 s\<lparr>su_registry := wr, su_shutdowns := su_shutdowns s @ [key]\<rparr>)))
         ([], s) stale)"

section \<open>Start-up\<close>

text \<open>
  Reattaching: persisted sessions with panes in their shard get a worker, those without lose
  their shard directory unless a worker has registered meanwhile. \<open>rows\<close> is the pane count of a
  shard (nothing if it cannot be read), \<open>launch_ok\<close> and \<open>registers\<close> the outcomes per session.
\<close>

definition partition_shards :: "codec \<Rightarrow> (string \<Rightarrow> nat option) \<Rightarrow> session_id list \<Rightarrow> string list \<times> string list" where
  "partition_shards U rows persisted =
     (let keys = map (session_key U) persisted
      in (filter (\<lambda>k. \<exists>n\<in>set_option (rows k). 0 < n) keys, filter (\<lambda>k. rows k = Some 0) keys))"

definition reattach_one :: "(string \<Rightarrow> bool) \<Rightarrow> (string \<Rightarrow> registration) \<Rightarrow> supervisor \<Rightarrow> string \<Rightarrow> supervisor" where
  "reattach_one launch_ok registers s key =
     (let s1 = s\<lparr>su_pending := List.insert key (su_pending s)\<rparr>
      in if \<not> launch_ok key then s1\<lparr>su_pending := remove1 key (su_pending s1)\<rparr>
         else
           (let s2 = s1\<lparr>su_launched := su_launched s1 @ [key]\<rparr>
            in if registers key = TimedOut then s2\<lparr>su_pending := remove1 key (su_pending s2)\<rparr> else s2))"

definition reattach ::
  "codec \<Rightarrow> (string \<Rightarrow> nat option) \<Rightarrow> (string \<Rightarrow> bool) \<Rightarrow> (string \<Rightarrow> registration) \<Rightarrow> supervisor \<Rightarrow> string list \<times> supervisor" where
  "reattach U rows launch_ok registers s =
     (let (r, s1) = sup_run (list_session_ids U) s;
          persisted = (case r of Inr xs \<Rightarrow> xs | Inl e \<Rightarrow> []);
          (live, stale) = partition_shards U rows persisted;
          removed = filter (\<lambda>k. get_ctrl_client k (su_registry s1) = None) stale
      in (removed, foldl (reattach_one launch_ok registers) s1 live))"

end
