(* ===== verification/Supervisor_Laws.thy ===== *)
theory Supervisor_Laws
  imports Supervisor Layout_Weights
begin

text \<open>
  Laws of the supervisor: which workers are started again and which are not, what a crash, a
  failed request and late messages do to the pane index, how a window's layout is reconciled
  with the live panes, and what is reattached and pruned at start-up.
\<close>

section \<open>Lookup in the registry\<close>

lemma wr_remove_inner [registry_simps]:
  "wr_inner (snd (wr_remove key wr)) = AList.delete key (wr_inner wr)"
  "wr_panes (snd (wr_remove key wr)) = px_remove_session key (wr_panes wr)"
  by (simp_all add: wr_remove_def)

lemma get_ctrl_remove [registry_simps]:
  "get_ctrl_client k (snd (wr_remove key wr)) = (if k = key then None else get_ctrl_client k wr)"
  by (simp add: get_ctrl_client_def registry_simps delete_conv')

lemma px_lookup_remove:
  assumes "distinct (map fst (px_slots px))"
  shows "px_lookup p (px_remove_session key px)
    = (case px_lookup p px of Some (k, i) \<Rightarrow> if k = key then None else Some (k, i) | None \<Rightarrow> None)"
proof -
  have "map_of (filter (\<lambda>(p, s, i). s \<noteq> key) xs) p
      = (case map_of xs p of Some (k, i) \<Rightarrow> if k = key then None else Some (k, i) | None \<Rightarrow> None)"
    if "distinct (map fst xs)" for xs :: "(uuid \<times> string \<times> u32) list"
    using that by (induction xs) (auto simp: map_of_eq_None_iff image_iff split: option.splits)
  then show ?thesis using assms by (simp add: px_lookup_def px_remove_session_def)
qed

lemma sup_try_fields [registry_simps]:
  "su_registry (sup_try m s) = su_registry s" "su_launched (sup_try m s) = su_launched s"
  "su_session_windows (sup_try m s) = su_session_windows s" "su_window_store (sup_try m s) = su_window_store s"
  "su_pane_window (sup_try m s) = su_pane_window s" "su_shutdowns (sup_try m s) = su_shutdowns s"
  "su_bus (sup_try m s) = su_bus s"
  by (simp_all add: sup_try_def sup_run_def Let_def case_prod_unfold)

lemma sup_run_fields [registry_simps]:
  "su_registry (snd (sup_run m s)) = su_registry s" "su_launched (snd (sup_run m s)) = su_launched s"
  "su_session_windows (snd (sup_run m s)) = su_session_windows s" "su_window_store (snd (sup_run m s)) = su_window_store s"
  "su_pane_window (snd (sup_run m s)) = su_pane_window s" "su_shutdowns (snd (sup_run m s)) = su_shutdowns s"
  by (simp_all add: sup_run_def Let_def case_prod_unfold)

lemma sup_emit_fields [registry_simps]:
  "su_registry (sup_emit p k st s) = su_registry s" "su_launched (sup_emit p k st s) = su_launched s"
  "su_window_store (sup_emit p k st s) = su_window_store s" "su_pane_window (sup_emit p k st s) = su_pane_window s"
  "su_session_windows (sup_emit p k st s) = su_session_windows s"
  by (simp_all add: sup_emit_def)

lemma set_meta_fields [registry_simps]:
  "su_registry (set_meta_layout w t s) = su_registry s" "su_launched (set_meta_layout w t s) = su_launched s"
  "su_pane_window (set_meta_layout w t s) = su_pane_window s" "su_session_windows (set_meta_layout w t s) = su_session_windows s"
  "su_registry (set_windows key ws s) = su_registry s" "su_launched (set_windows key ws s) = su_launched s"
  by (simp_all add: set_meta_layout_def set_windows_def)

lemma collapse_fields [registry_simps]:
  "su_registry (collapse_layout U p w s) = su_registry s" "su_launched (collapse_layout U p w s) = su_launched s"
  by (auto simp: collapse_layout_def Let_def registry_simps split: option.split prod.split)

lemma map_of_if: "map_of (map (\<lambda>(k, m). (k, if k = w then f m else m)) xs) w = map_option f (map_of xs w)"
  by (induction xs) auto

section \<open>A small supervisor\<close>

text \<open>One worker with two live panes; the layout of its window still shows a third.\<close>

definition demo_sup :: supervisor where
  "demo_sup =
     \<lparr>su_registry =
        \<lparr>wr_inner = [(''x'', \<lparr>wh_pid = 40, wh_sock_path = ''/c'', wh_stream_sock = ''/s'', wh_last_heartbeat = 0\<rparr>)],
         wr_panes = \<lparr>px_slots = [(1, ''x'', 0), (3, ''x'', 2)], px_next = [(''x'', 3)], px_dead = [(''x'', 1)]\<rparr>\<rparr>,
      su_store = empty_store, su_pending = [], su_focus_queue = [], su_bus = bus_new,
      su_window_store = [(WindowId 2, \<lparr>wm_session_id = ''x'', wm_name = ''1'', wm_position = 0, wm_layout = Some demo_layout\<rparr>)],
      su_session_windows = [(''x'', [WindowId 2])],
      su_pane_window = [(PaneId 1, WindowId 2), (PaneId 3, WindowId 2)],
      su_spawn_cwds = [], su_finalize = [], su_launched = [], su_shutdowns = []\<rparr>"

lemma demo_key: "session_key demo_codec (SessionId 1) = ''x''"
  by (simp add: session_key_def demo_codec_def)

section \<open>Who is started again\<close>




lemma sigchld_unknown: "session_for_pid pid (su_registry s) = None \<Longrightarrow> sigchld pid s = s"
  by (simp add: sigchld_def)

lemma session_for_pid_remove:
  assumes "\<forall>(k, h)\<in>set (wr_inner wr). wh_pid h = pid \<longrightarrow> k = key"
  shows "session_for_pid pid (snd (wr_remove key wr)) = None"
proof -
  have "find (\<lambda>(k, h). wh_pid h = pid) (AList.delete key (wr_inner wr)) = None"
    using assms by (auto simp: find_None_iff set_delete)
  then show ?thesis by (simp add: session_for_pid_def registry_simps)
qed

lemma close_session_registry: "su_registry (snd (sup_close_session U session s)) = snd (wr_remove (session_key U session) (su_registry s))"
proof -
  have "su_registry (foldl (close_session_window U) s ws) = su_registry s" for ws s
    by (induction ws arbitrary: s) (simp_all add: close_session_window_def Let_def case_prod_unfold registry_simps)
  then show ?thesis by (simp add: sup_close_session_def Let_def wr_remove_def split: option.split)
qed

lemma kill_registry: "su_registry (snd (sup_kill U rpc session s)) = snd (wr_remove (session_key U session) (su_registry s))"
  by (simp add: sup_kill_def Let_def wr_remove_def split: option.split)

lemma pane_closed_registry:
  "su_registry (pane_closed U fresh key slot s)
   = (let wr = snd (get_or_alloc_pane_by_slot fresh key slot (su_registry s)); (n, wr1) = remove_pane_slot key slot wr
      in if n = 0 then snd (wr_remove key wr1) else wr1)"
  by (simp add: pane_closed_def Let_def case_prod_unfold registry_simps split: option.split)

lemma get_or_alloc_inner [registry_simps]:
  "wr_inner (snd (get_or_alloc_pane_by_slot fresh key slot wr)) = wr_inner wr"
  "wr_inner (snd (remove_pane_slot key slot wr)) = wr_inner wr"
  by (simp_all add: get_or_alloc_pane_by_slot_def register_slot_def remove_pane_slot_def case_prod_unfold Let_def split: slot_probe.split)

text \<open>
  C14. Sessions that end on purpose are not started again: after \<open>close_session\<close>, \<open>kill\<close> or the
  close of the last pane, the exit of the session's worker process changes nothing, in
  particular no new worker is started, whatever the pane index held for the session.
\<close>

theorem voluntary_end_is_not_respawned:
  assumes "\<forall>(k, h)\<in>set (wr_inner (su_registry s)). wh_pid h = pid \<longrightarrow> k = session_key U session"
    and "s' \<in> {snd (sup_close_session U session s), snd (sup_kill U rpc session s)}
      \<or> (s' = pane_closed U fresh (session_key U session) slot s
         \<and> fst (remove_pane_slot (session_key U session) slot
              (snd (get_or_alloc_pane_by_slot fresh (session_key U session) slot (su_registry s)))) = 0)"
  shows "sigchld pid s' = s'"
proof -
  let ?key = "session_key U session"
  obtain wr where reg: "su_registry s' = snd (wr_remove ?key wr)" and inner: "wr_inner wr = wr_inner (su_registry s)"
    using assms(2) by (auto simp: close_session_registry kill_registry pane_closed_registry Let_def case_prod_unfold registry_simps)
  have "session_for_pid pid (su_registry s') = None"
    unfolding reg by (rule session_for_pid_remove) (use assms(1) inner in simp)
  then show ?thesis by (rule sigchld_unknown)
qed

theorem voluntary_end_is_not_respawned_witness:
  "sigchld 40 (snd (sup_close_session demo_codec (SessionId 1) demo_sup)) = snd (sup_close_session demo_codec (SessionId 1) demo_sup)"
proof -
  have "\<forall>(k, h)\<in>set (wr_inner (su_registry demo_sup)). wh_pid h = 40 \<longrightarrow> k = session_key demo_codec (SessionId 1)"
    by (simp add: demo_key) (simp add: demo_sup_def)
  from voluntary_end_is_not_respawned [OF this] show ?thesis by blast
qed

section \<open>What a crash does to pane identities\<close>

lemma count_update_absent:
  assumes "\<forall>(p, s, i)\<in>set xs. s \<noteq> key"
  shows "length (filter (\<lambda>(p, s, i). s = key) (AList.update f (key, slot) xs)) = 1"
proof -
  have none: "length (filter (\<lambda>(p, s, i). s = key) ys) = 0" if "\<forall>(p, s, i)\<in>set ys. s \<noteq> key" for ys :: "('a \<times> 'b \<times> 'c) list"
    using that by (induction ys) auto
  show ?thesis using assms by (induction xs) (auto simp: none)
qed

lemma slot_after_remove:
  assumes px: "wr_panes wr = px_remove_session key px"
  shows "get_or_alloc_pane_by_slot f key slot wr = (Some f, register_slot f key slot wr)"
    and "pane_count key (register_slot f key slot wr) = 1"
    and "lookup_pane f (register_slot f key slot wr) = Some (key, slot)"
proof -
  have "find (\<lambda>(p, s, i). s = key \<and> i = slot) (filter (\<lambda>(p, s, i). s \<noteq> key) xs) = None" for xs :: "(uuid \<times> string \<times> u32) list"
    by (auto simp: find_None_iff)
  then show "get_or_alloc_pane_by_slot f key slot wr = (Some f, register_slot f key slot wr)"
    by (simp add: get_or_alloc_pane_by_slot_def probe_slot_def px_pane_id_by_slot_def px_is_dead_def px px_remove_session_def)
  show "pane_count key (register_slot f key slot wr) = 1"
    using count_update_absent [of "px_slots (wr_panes wr)" key f slot]
    by (auto simp: pane_count_def px_count_def register_slot_def px_register_def px px_remove_session_def)
  show "lookup_pane f (register_slot f key slot wr) = Some (key, slot)"
    by (simp add: lookup_pane_def px_lookup_def register_slot_def px_register_def update_conv')
qed

lemma alloc_after_remove:
  assumes px: "wr_panes wr = px_remove_session key px"
  shows "fst (alloc_pane g key (register_slot f key 0 wr)) = 0"
    and "lookup_pane u (snd (alloc_pane g key (register_slot f key 0 wr)))
      = (if u = g \<or> u = f then Some (key, 0) else lookup_pane u wr)"
  by (simp_all add: alloc_pane_def register_slot_def px_next_slot_def px_register_def lookup_pane_def px_lookup_def
      px px_remove_session_def delete_conv' update_conv' Let_def)

text \<open>
  C38. A worker crash takes the identities of its panes away: the exit of a worker that still has
  panes starts a new worker, but every pane of the session becomes unknown while windows and
  layouts keep showing it. When the new worker has restored its panes and reports on slot 0
  under a new identifier, the next pane opened in the session is given slot 0 as well, so two
  panes share one slot.
\<close>

theorem crash_orphans_panes_and_reuses_slots:
  assumes "distinct (map fst (px_slots (wr_panes (su_registry s))))" and "session_for_pid pid (su_registry s) = Some key"
    and "pane_count key (su_registry s) \<noteq> 0"
    and s1: "s1 = sigchld pid s" and s2: "s2 = pane_state_changed f key 0 st (register_worker now key pid' sock stream s1)"
  shows "su_launched s1 = su_launched s @ [key]
    \<and> (\<forall>u slot. lookup_pane u (su_registry s) = Some (key, slot) \<longrightarrow> lookup_pane u (su_registry s1) = None)
    \<and> su_window_store s1 = su_window_store s \<and> su_pane_window s1 = su_pane_window s
    \<and> fst (alloc_pane g key (su_registry s2)) = 0
    \<and> lookup_pane f (snd (alloc_pane g key (su_registry s2))) = lookup_pane g (snd (alloc_pane g key (su_registry s2)))"
proof -
  have s1': "s1 = respawn s key" using assms(2,3) s1 by (simp add: sigchld_def)
  have "lookup_pane u (su_registry s1) = None" if "lookup_pane u (su_registry s) = Some (key, slot)" for u slot
    using that px_lookup_remove [OF assms(1), of u key]
    by (simp add: s1' respawn_def in_workers_def lookup_pane_def registry_simps)
  moreover have wr: "wr_panes (su_registry (register_worker now key pid' sock stream s1)) = px_remove_session key (wr_panes (su_registry s))"
    by (simp add: register_worker_def s1' respawn_def in_workers_def wr_insert_def wr_remove_def Let_def)
  moreover have "su_registry s2 = register_slot f key 0 (su_registry (register_worker now key pid' sock stream s1))"
    using slot_after_remove(1) [OF wr, of f 0] by (simp add: s2 pane_state_changed_def registry_simps)
  ultimately show ?thesis
    using alloc_after_remove [OF wr] s1' by (simp add: respawn_def in_workers_def)
qed

theorem crash_orphans_panes_and_reuses_slots_witness:
  "lookup_pane 1 (su_registry (sigchld 40 demo_sup)) = None \<and> su_launched (sigchld 40 demo_sup) = [''x'']"
proof -
  have "distinct (map fst (px_slots (wr_panes (su_registry demo_sup))))" "session_for_pid 40 (su_registry demo_sup) = Some ''x''"
    "pane_count ''x'' (su_registry demo_sup) \<noteq> 0" "lookup_pane 1 (su_registry demo_sup) = Some (''x'', 0)"
    "su_launched demo_sup = []"
    by (simp_all add: demo_sup_def session_for_pid_def pane_count_def px_count_def lookup_pane_def px_lookup_def)
  with crash_orphans_panes_and_reuses_slots [of demo_sup 40 "''x''", OF _ _ _ refl refl] show ?thesis by fastforce
qed

section \<open>Late messages of a closed pane\<close>

lemma closed_slot_is_dead: "probe_slot key slot (snd (remove_pane_slot key slot wr)) = Dead"
proof -
  have "find (\<lambda>(p, s, i). s = key \<and> i = slot) (filter (\<lambda>(p, s, i). \<not> (s = key \<and> i = slot)) xs) = None" for xs :: "(uuid \<times> string \<times> u32) list"
    by (auto simp: find_None_iff)
  then show ?thesis
    by (simp add: probe_slot_def remove_pane_slot_def px_remove_pane_slot_def px_pane_id_by_slot_def px_is_dead_def Let_def)
qed

text \<open>
  Messages that arrive after a pane was closed: while the session has other panes the slot
  stays dead and a late state report changes nothing, as the code intends. When the closed pane
  was the last one, the dead mark goes with the session's entry, and the late report enters
  the closed slot in the pane index again, under a new identifier.
\<close>

theorem late_report_of_closed_pane:
  "let key = session_key U session;
       wr = snd (get_or_alloc_pane_by_slot f1 key slot (su_registry s));
       s1 = pane_closed U f1 key slot s;
       s2 = pane_state_changed f2 key slot st s1
   in if fst (remove_pane_slot key slot wr) = 0
      then lookup_pane f2 (su_registry s2) = Some (key, slot) \<and> pane_count key (su_registry s2) = 1
        \<and> get_ctrl_client key (su_registry s2) = None
      else s2 = s1"
proof -
  define key wr s1 s2 where "key = session_key U session" and "wr = snd (get_or_alloc_pane_by_slot f1 key slot (su_registry s))"
    and "s1 = pane_closed U f1 key slot s" and "s2 = pane_state_changed f2 key slot st s1"
  let ?r = "remove_pane_slot key slot wr"
  have reg: "su_registry s1 = (if fst ?r = 0 then snd (wr_remove key (snd ?r)) else snd ?r)"
    by (simp add: s1_def pane_closed_registry wr_def [symmetric] Let_def case_prod_unfold)
  have "s2 = s1" if "fst ?r \<noteq> 0"
  proof -
    have "get_or_alloc_pane_by_slot f2 key slot (su_registry s1) = (None, su_registry s1)"
      using that closed_slot_is_dead [of key slot wr] by (simp add: reg get_or_alloc_pane_by_slot_def)
    then show ?thesis by (simp add: s2_def pane_state_changed_def)
  qed
  moreover have "lookup_pane f2 (su_registry s2) = Some (key, slot) \<and> pane_count key (su_registry s2) = 1
      \<and> get_ctrl_client key (su_registry s2) = None" if "fst ?r = 0"
  proof -
    have px: "wr_panes (su_registry s1) = px_remove_session key (wr_panes (snd ?r))"
      using that by (simp add: reg registry_simps)
    have s2: "su_registry s2 = register_slot f2 key slot (su_registry s1)"
      using slot_after_remove(1) [OF px] by (simp add: s2_def pane_state_changed_def registry_simps)
    have "get_ctrl_client key (su_registry s1) = None" using that by (simp add: reg registry_simps)
    then show ?thesis using slot_after_remove(2,3) [OF px, of f2 slot] s2 by (simp add: get_ctrl_client_def register_slot_def)
  qed
  ultimately show ?thesis unfolding key_def wr_def s1_def s2_def by (simp add: Let_def)
qed

section \<open>Reconciling a layout with the live panes\<close>

lemma binary_has_leaves: "is_binary t \<Longrightarrow> all_leaves t \<noteq> []"
  by (induction t rule: is_binary.induct) (auto simp: length_Suc_conv numeral_2_eq_2 list_all_iff, blast+)

lemma all_leaves_nonempty: "good_layout t \<Longrightarrow> all_leaves t \<noteq> []"
  by (simp add: good_layout_def binary_has_leaves)

lemma close_all_leaves: "all_leaves (prune_ghosts gs t) = foldl (\<lambda>ps g. close_list g ps) (all_leaves t) gs"
  by (induction gs arbitrary: t) (simp_all add: prune_ghosts_def close_panes)

lemma good_prune: "good_layout t \<Longrightarrow> good_layout (prune_ghosts gs t)"
  by (induction gs arbitrary: t) (simp_all add: prune_ghosts_def tree.good_close)

lemma foldl_close_list:
  assumes "x \<in> set ps" "x \<notin> set gs"
  shows "foldl (\<lambda>ps g. close_list g ps) ps gs = filter (\<lambda>p. p \<notin> set gs) ps"
  using assms
proof (induction gs arbitrary: ps)
  case (Cons g gs)
  have "close_list g ps = filter (\<lambda>p. p \<noteq> g) ps"
    using Cons.prems by (cases ps) (auto simp: close_list_def)
  then show ?case using Cons.IH [of "filter (\<lambda>p. p \<noteq> g) ps"] Cons.prems by (auto intro!: filter_cong)
qed simp

lemma foldl_close_list_all:
  assumes "distinct ps" "ps \<noteq> []"
  shows "foldl (\<lambda>ps g. close_list g ps) ps ps = [last ps]"
proof -
  obtain ys z where ps: "ps = ys @ [z]" using assms(2) by (metis rev_exhaust)
  have "foldl (\<lambda>ps g. close_list g ps) ps ys = filter (\<lambda>p. p \<notin> set ys) ps"
    by (rule foldl_close_list [of z]) (use assms(1) ps in auto)
  also have "\<dots> = [z]" using assms(1) by (simp add: ps filter_empty_conv)
  finally show ?thesis by (simp add: ps close_list_def)
qed

text \<open>
  C15. The layout a client is shown: on a window with live panes, reconciliation removes from a
  well-formed tree exactly the leaves of panes that are no longer alive in that window and
  keeps the order of the others and the tree's invariant; only a tree of ghosts alone keeps
  one leaf, its last. The pruned tree is also what the supervisor remembers from then on.
\<close>

theorem reconcile_removes_exactly_the_ghosts:
  assumes "good_layout tree" and "window_live_panes wid key s \<noteq> []" and "reconcile_layout U wid key tree s = (t, s')"
    and "map_of (su_window_store s) wid = Some m" and "wm_layout m = Some tree"
  shows "good_layout t
    \<and> all_leaves t = (let live = filter (\<lambda>p. p \<in> set (window_live_panes wid key s)) (all_leaves tree)
                       in if live = [] then [last (all_leaves tree)] else live)
    \<and> map_option wm_layout (map_of (su_window_store s') wid) = Some (Some t)"
proof -
  let ?live = "window_live_panes wid key s"
  let ?ghosts = "filter (\<lambda>p. p \<notin> set ?live) (all_leaves tree)"
  have leaves: "all_leaves (prune_ghosts ?ghosts tree) =
      (if filter (\<lambda>p. p \<in> set ?live) (all_leaves tree) = [] then [last (all_leaves tree)] else filter (\<lambda>p. p \<in> set ?live) (all_leaves tree))"
  proof (cases "filter (\<lambda>p. p \<in> set ?live) (all_leaves tree) = []")
    case True
    then have "?ghosts = all_leaves tree" by (auto simp: filter_empty_conv filter_id_conv)
    then show ?thesis using True assms(1) foldl_close_list_all [of "all_leaves tree"]
      all_leaves_nonempty [OF assms(1)] by (simp add: close_all_leaves good_layout_def)
  next
    case False
    then obtain x where "x \<in> set (all_leaves tree)" "x \<in> set ?live" by (auto simp: filter_empty_conv)
    then show ?thesis using False foldl_close_list [of x "all_leaves tree" ?ghosts]
      by (auto simp: close_all_leaves intro!: filter_cong)
  qed
  show ?thesis
  proof (cases "?ghosts = []")
    case True
    then have "t = tree" "s' = s" using assms(2,3) by (simp_all add: reconcile_layout_def Let_def)
    moreover have "filter (\<lambda>p. p \<in> set ?live) (all_leaves tree) = all_leaves tree"
      using True by (auto simp: filter_empty_conv filter_id_conv)
    ultimately show ?thesis using assms(1,4,5) all_leaves_nonempty [OF assms(1)] by simp
  next
    case False
    then have t: "t = prune_ghosts ?ghosts tree" and s': "su_window_store s' = su_window_store (set_meta_layout wid t s)"
      using assms(2,3) by (auto simp: reconcile_layout_def Let_def registry_simps)
    have "map_option wm_layout (map_of (su_window_store s') wid) = Some (Some t)"
      using assms(4) by (simp add: s' set_meta_layout_def map_of_if)
    then show ?thesis using leaves good_prune [OF assms(1)] by (simp add: t)
  qed
qed

theorem reconcile_removes_exactly_the_ghosts_witness:
  "all_leaves (fst (reconcile_layout demo_codec (WindowId 2) ''x'' demo_layout demo_sup)) = [PaneId 1, PaneId 3]"
proof -
  have live: "window_live_panes (WindowId 2) ''x'' demo_sup = [PaneId 1, PaneId 3]"
    by (simp add: window_live_panes_def live_pane_ids_def demo_sup_def)
  obtain t s' where r: "reconcile_layout demo_codec (WindowId 2) ''x'' demo_layout demo_sup = (t, s')" by fastforce
  have "all_leaves demo_layout = [PaneId 1, PaneId 2, PaneId 3]" by (simp add: demo_layout_def split_focused_def)
  moreover have "map_of (su_window_store demo_sup) (WindowId 2)
      = Some \<lparr>wm_session_id = ''x'', wm_name = ''1'', wm_position = 0, wm_layout = Some demo_layout\<rparr>" by (simp add: demo_sup_def)
  ultimately show ?thesis
    using reconcile_removes_exactly_the_ghosts [OF reachable_good [OF demo_reachable] _ r] live r by (simp add: Let_def)
qed

section \<open>One slot, one pane\<close>

text \<open>
  The steps that change the pane index: a pane is opened, a slot reported by a worker is looked
  up, a slot is closed, a session ends. \<open>named_first\<close> says that a report names a slot that the
  supervisor has handed out before, which is what a worker that was not restarted does.
\<close>

datatype index_step = Alloc uuid string | Report uuid string u32 | CloseSlot string u32 | EndSession string

fun index_do :: "index_step \<Rightarrow> worker_registry \<Rightarrow> worker_registry" where
  "index_do (Alloc p k) wr = snd (alloc_pane p k wr)"
| "index_do (Report p k i) wr = snd (get_or_alloc_pane_by_slot p k i wr)"
| "index_do (CloseSlot k i) wr = snd (remove_pane_slot k i wr)"
| "index_do (EndSession k) wr = snd (wr_remove k wr)"

fun named_first :: "index_step \<Rightarrow> worker_registry \<Rightarrow> bool" where
  "named_first (Alloc p k) wr \<longleftrightarrow> px_lookup p (wr_panes wr) = None \<and> map_of (px_next (wr_panes wr)) k \<noteq> Some (-1)"
| "named_first (Report p k i) wr \<longleftrightarrow> probe_slot k i wr \<noteq> Untracked"
| "named_first _ wr \<longleftrightarrow> True"

inductive index_reachable :: "worker_registry \<Rightarrow> bool" where
  start: "index_reachable wr_new"
| step: "index_reachable wr \<Longrightarrow> named_first op wr \<Longrightarrow> index_reachable (index_do op wr)"

definition index_ok :: "pane_index \<Rightarrow> bool" where
  "index_ok px \<longleftrightarrow> distinct (map fst (px_slots px)) \<and> distinct (map snd (px_slots px))
     \<and> (\<forall>(p, k, i)\<in>set (px_slots px). \<exists>n. map_of (px_next px) k = Some n \<and> i < n)"

lemma update_new: "k \<notin> fst ` set xs \<Longrightarrow> AList.update k v xs = xs @ [(k, v)]"
  by (induction xs) auto

lemma pane_by_slot_iff:
  assumes "distinct (map snd (px_slots px))"
  shows "px_pane_id_by_slot k i px = Some p \<longleftrightarrow> (p, k, i) \<in> set (px_slots px)"
proof -
  have "map_option fst (find (\<lambda>(p, s, j). s = k \<and> j = i) xs) = Some p \<longleftrightarrow> (p, k, i) \<in> set xs"
    if "distinct (map snd xs)" for xs :: "(uuid \<times> string \<times> u32) list"
    using that by (induction xs) (auto simp: image_iff)
  then show ?thesis using assms by (simp add: px_pane_id_by_slot_def)
qed

lemma index_ok_alloc:
  assumes "index_ok (wr_panes wr)" and "px_lookup p (wr_panes wr) = None" and "map_of (px_next (wr_panes wr)) k \<noteq> Some (-1)"
  shows "index_ok (wr_panes (snd (alloc_pane p k wr)))"
proof -
  let ?px = "wr_panes wr"
  define n where "n = (case map_of (px_next ?px) k of Some n \<Rightarrow> n | None \<Rightarrow> 0)"
  have "n \<noteq> -1" using assms(3) by (auto simp: n_def split: option.splits)
  then have "unat (n + 1) = Suc (unat n)" using unatSuc [of n] by (metis add.commute add.inverse_inverse add_eq_0_iff)
  then have step: "x < n \<Longrightarrow> x < n + 1" "n < n + 1" for x by (simp_all add: word_less_nat_alt)
  have new: "p \<notin> fst ` set (px_slots ?px)" using assms(2) by (simp add: px_lookup_def map_of_eq_None_iff)
  have below: "\<exists>m. map_of (px_next ?px) j = Some m \<and> i < m" if "(q, j, i) \<in> set (px_slots ?px)" for q j i
    using assms(1) that by (auto simp: index_ok_def)
  then have mine: "i < n" if "(q, k, i) \<in> set (px_slots ?px)" for q i
    using that by (fastforce simp: n_def)
  then have "(k, n) \<notin> snd ` set (px_slots ?px)" by force
  moreover have "distinct (map fst (px_slots ?px))" "distinct (map snd (px_slots ?px))"
    using assms(1) by (simp_all add: index_ok_def)
  ultimately show ?thesis
    using new step mine below
    by (auto simp: index_ok_def alloc_pane_def px_next_slot_def px_register_def Let_def n_def [symmetric] update_new update_conv')
qed

lemma index_ok_filter:
  assumes "index_ok px" and "\<And>p k i. Q (p, k, i) \<Longrightarrow> map_of nxt k = map_of (px_next px) k"
  shows "index_ok \<lparr>px_slots = filter Q (px_slots px), px_next = nxt, px_dead = d\<rparr>"
  using assms by (auto simp: index_ok_def distinct_map_filter)

lemma index_ok_do: "index_ok (wr_panes wr) \<Longrightarrow> named_first op wr \<Longrightarrow> index_ok (wr_panes (index_do op wr))"
proof (cases op)
  case (Report p k i)
  moreover assume "index_ok (wr_panes wr)" "named_first op wr"
  ultimately show ?thesis by (auto simp: get_or_alloc_pane_by_slot_def split: slot_probe.splits)
next
  case (CloseSlot k i)
  moreover assume "index_ok (wr_panes wr)"
  ultimately show ?thesis
    by (auto simp: remove_pane_slot_def px_remove_pane_slot_def index_ok_def distinct_map_filter Let_def)
next
  case (EndSession k)
  moreover assume "index_ok (wr_panes wr)"
  ultimately show ?thesis
    by (auto simp: registry_simps px_remove_session_def delete_conv' intro!: index_ok_filter)
qed (simp add: index_ok_alloc)

lemma index_reachable_ok: "index_reachable wr \<Longrightarrow> index_ok (wr_panes wr)"
  by (induction rule: index_reachable.induct) (simp_all add: index_ok_do, simp add: index_ok_def wr_new_def px_empty_def)

text \<open>
  C12. As long as workers report only slots that were handed out, every pane has a slot of its
  own: looking a pane up and looking its slot up are inverse to each other in every reachable
  index, so requests never reach another pane's terminal, and the next slot handed out in any session is not in use.
\<close>

theorem slots_identify_panes:
  assumes "index_reachable wr"
  shows "(px_lookup p (wr_panes wr) = Some (k, i) \<longleftrightarrow> px_pane_id_by_slot k i (wr_panes wr) = Some p)
    \<and> px_pane_id_by_slot k (fst (px_next_slot k (wr_panes wr))) (wr_panes wr) = None"
proof -
  let ?px = "wr_panes wr"
  have ok: "distinct (map fst (px_slots ?px))" "distinct (map snd (px_slots ?px))"
    and below: "\<And>q j i. (q, j, i) \<in> set (px_slots ?px) \<Longrightarrow> \<exists>m. map_of (px_next ?px) j = Some m \<and> i < m"
    using index_reachable_ok [OF assms] by (auto simp: index_ok_def)
  have by_slot: "px_pane_id_by_slot k i ?px = Some p \<longleftrightarrow> (p, k, i) \<in> set (px_slots ?px)" for p i
    using ok(2) by (rule pane_by_slot_iff)
  have "px_lookup p ?px = Some (k, i) \<longleftrightarrow> (p, k, i) \<in> set (px_slots ?px)"
    using ok(1) by (auto simp: px_lookup_def dest: map_of_SomeD)
  moreover have "px_pane_id_by_slot k (fst (px_next_slot k ?px)) ?px = None"
  proof (rule ccontr)
    assume "px_pane_id_by_slot k (fst (px_next_slot k ?px)) ?px \<noteq> None"
    then obtain q where "(q, k, fst (px_next_slot k ?px)) \<in> set (px_slots ?px)" using by_slot by blast
    from below [OF this] show False by (auto simp: px_next_slot_def Let_def)
  qed
  ultimately show ?thesis using by_slot by blast
qed

theorem slots_identify_panes_witness:
  "px_pane_id_by_slot ''x'' 0 (wr_panes (index_do (Alloc 7 ''x'') wr_new)) = Some 7"
proof -
  have "named_first (Alloc 7 ''x'') wr_new" by (simp add: wr_new_def px_empty_def px_lookup_def)
  from slots_identify_panes [OF index_reachable.step [OF index_reachable.start this], THEN conjunct1, of 7 "''x''" 0]
  show ?thesis
    by (simp add: alloc_pane_def px_next_slot_def px_register_def px_lookup_def wr_new_def px_empty_def)
qed

section \<open>A failed open\<close>

lemma remove_other_slot_count:
  assumes "lookup_pane p wr = Some (key, i)" and "i \<noteq> slot"
  shows "fst (remove_pane_slot key slot wr) \<noteq> 0"
proof -
  have "(p, key, i) \<in> set (px_slots (wr_panes wr))"
    using assms(1) by (simp add: lookup_pane_def px_lookup_def map_of_SomeD)
  then show ?thesis using assms(2)
    by (auto simp: remove_pane_slot_def px_remove_pane_slot_def px_count_def Let_def filter_empty_conv intro!: bexI [of _ "(p, key, i)"])
qed

lemma get_or_alloc_lookup:
  "p \<noteq> f \<Longrightarrow> lookup_pane p (snd (get_or_alloc_pane_by_slot f key slot wr)) = lookup_pane p wr"
  by (simp add: get_or_alloc_pane_by_slot_def register_slot_def lookup_pane_def px_lookup_def px_register_def update_conv'
      split: slot_probe.split)

text \<open>
  A failed \<open>open_pane\<close> keeps the slot it took: the client gets an error, but the pane stays in
  the index, so closing any other pane of the session never counts as closing the last one, and
  a worker that exits after that is started again.
\<close>

lemma failed_open_keeps_its_slot:
  assumes worker: "get_ctrl_client (session_key U (or_session req)) (su_registry s) = Some h"
    and slot: "slot \<noteq> fst (px_next_slot (session_key U (or_session req)) (wr_panes (su_registry s)))" and "p \<noteq> f"
    and s1: "sup_open_pane U now p dflt new1 new2 None req s = (r, s1)"
    and s2: "s2 = pane_closed U f (session_key U (or_session req)) slot s1"
  shows "r = Inl ErrIo \<and> get_ctrl_client (session_key U (or_session req)) (su_registry s2) = Some h
    \<and> pane_count (session_key U (or_session req)) (su_registry s2) \<noteq> 0"
proof -
  let ?key = "session_key U (or_session req)"
  let ?i = "fst (px_next_slot ?key (wr_panes (su_registry s)))"
  have r: "r = Inl ErrIo" and reg: "su_registry s1 = snd (alloc_pane p ?key (su_registry s))"
    using s1 worker by (auto simp: sup_open_pane_def Let_def case_prod_unfold)
  have inner: "wr_inner (su_registry s1) = wr_inner (su_registry s)"
    and found: "lookup_pane p (su_registry s1) = Some (?key, ?i)"
    by (simp_all add: reg alloc_pane_def case_prod_unfold Let_def lookup_pane_def px_lookup_def px_register_def update_conv')
  let ?wr = "snd (get_or_alloc_pane_by_slot f ?key slot (su_registry s1))"
  have n: "fst (remove_pane_slot ?key slot ?wr) \<noteq> 0"
    using remove_other_slot_count [of p ?wr ?key ?i slot] found slot get_or_alloc_lookup [OF assms(3)] by simp
  have "su_registry s2 = snd (remove_pane_slot ?key slot ?wr)"
    using n by (simp add: s2 pane_closed_registry Let_def case_prod_unfold)
  moreover have "pane_count ?key (snd (remove_pane_slot ?key slot ?wr)) = fst (remove_pane_slot ?key slot ?wr)"
    by (simp add: pane_count_def remove_pane_slot_def px_remove_pane_slot_def Let_def)
  ultimately show ?thesis
    using n r worker inner by (simp add: get_ctrl_client_def registry_simps)
qed

section \<open>Start-up\<close>

lemma reattach_one_launched: "su_launched (reattach_one lok reg s key) = su_launched s @ (if lok key then [key] else [])"
  by (simp add: reattach_one_def Let_def)

lemma reattach_launched: "su_launched (foldl (reattach_one lok reg) s keys) = su_launched s @ filter lok keys"
  by (induction keys arbitrary: s) (simp_all add: reattach_one_launched)

text \<open>
  Reattaching starts a worker for exactly the stored sessions whose shard holds panes (if the
  process can be started), in the order they are stored, and removes only shards that were read
  and found empty and have no worker; a shard that cannot be read is left alone.
\<close>

lemma reattach_starts_and_prunes:
  assumes "list_session_ids U (su_store s) = (Inr ids, st)" and "reattach U rows lok reg s = (removed, s')"
  shows "su_launched s' = su_launched s @ filter (\<lambda>k. lok k \<and> (\<exists>n. rows k = Some n \<and> 0 < n)) (map (session_key U) ids)
    \<and> (\<forall>k\<in>set removed. rows k = Some 0 \<and> get_ctrl_client k (su_registry s) = None)"
proof -
  have run: "sup_run (list_session_ids U) s = (Inr ids, s\<lparr>su_store := st\<rparr>)" using assms(1) by (simp add: sup_run_def)
  have "(\<exists>n\<in>set_option (rows k). 0 < n) = (\<exists>n. rows k = Some n \<and> 0 < n)" for k by auto
  then show ?thesis
    using assms(2) by (auto simp: reattach_def run partition_shards_def reattach_launched Let_def conj_commute)
qed

section \<open>Windows without a layout\<close>

text \<open>
  A new window has no layout, and opening a pane in it does not give it one: asked for the
  layout of the window, the supervisor answers with the first pane of the session, which is
  shown in another window, and not with the pane that was opened in it.
\<close>

lemma new_window_shows_another_windows_pane:
  "let s1 = snd (sup_new_window demo_codec 0 (WindowId 9) (SessionId 1) None demo_sup);
       req = \<lparr>or_session = SessionId 1, or_window = WindowId 9, or_shell = None, or_cwd = None, or_cols = 80,
         or_rows = 24, or_env = [], or_name = None\<rparr>;
       s2 = snd (sup_open_pane demo_codec 0 7 (WindowId 11) (WindowId 12) (WindowId 13) (Some ()) req s1)
   in map_of (su_pane_window s2) (PaneId 7) = Some (WindowId 9) \<and> map_of (su_pane_window s2) (PaneId 1) = Some (WindowId 2)
     \<and> fst (sup_get_window_layout demo_codec 8 (\<lambda>_. Some [0, 2, 3]) (WindowId 9) s2) = Inr (Leaf (PaneId 1))"
  by code_simp

end
