(* ===== verification/Block_Batcher.thy ===== *)
theory Block_Batcher
  imports Pty_Pipeline Worker_Registry
begin

text \<open>
  The block-event batcher of the supervisor (\<^verbatim>\<open>crates/pyred/src/supervisor.rs\<close>): raw output of all
  workers arrives on one channel, is collected and, every 50 ms, fed through one block parser per
  worker slot; the parsed events go to the shared store and index. \<open>clock n\<close> is the n-th reading of
  the wall clock, \<open>fresh\<close> draws block identifiers per slot and \<open>newid\<close> pane identifiers. Laws: batching
  cannot be observed, open blocks are closed whatever failed before, and without failures the
  batcher agrees with the parser task of the single-process daemon.
\<close>

section \<open>State\<close>

datatype block_kind = Stdout | Stderr | Prompt | Marker

record raw_event =
  re_session_id :: string
  re_slot_idx :: u32
  re_kind :: block_kind
  re_bytes :: bytes
  re_ts_ms :: u64

record 'v pane_parser_state =
  pp_parser :: "'v block_parser"
  pp_writers :: "(block_id \<times> blob_writer) list"
  pp_bufs :: "(block_id \<times> bytes) list"
  pp_meta :: "(block_id \<times> block) list"
  pp_pane :: "pane_id option"

record sink =
  sk_store :: store
  sk_index :: block_index

record 'v batcher =
  bt_parsers :: "((string \<times> u32) \<times> 'v pane_parser_state) list"
  bt_pending :: "raw_event list"
  bt_sink :: sink
  bt_registry :: worker_registry
  bt_readings :: nat

definition pps_new :: "'v \<Rightarrow> session_id \<Rightarrow> 'v pane_parser_state" where
  "pps_new v session = \<lparr>pp_parser = parser_new v session, pp_writers = [], pp_bufs = [], pp_meta = [], pp_pane = None\<rparr>"

section \<open>One parsed event\<close>

definition batch_block :: "int \<Rightarrow> session_id \<Rightarrow> pane_id \<Rightarrow> block_id \<Rightarrow> string \<Rightarrow> string option \<Rightarrow> block" where
  "batch_block now session pane bid command cwd =
     \<lparr>blk_id = bid, blk_pane = pane, blk_session = session, blk_command = command, blk_cwd = cwd,
      blk_started_at = now, blk_ended_at = None, blk_exit_code = None, blk_stdout_len = 0\<rparr>"

definition batch_start ::
  "codec \<Rightarrow> block \<Rightarrow> 'v pane_parser_state \<times> sink \<Rightarrow> 'v pane_parser_state \<times> sink" where
  "batch_start U b wk =
     (let (w, k) = wk
      in case create_block U b (sk_store k) of
           (Inl _, st) \<Rightarrow> (w, k\<lparr>sk_store := st\<rparr>)
         | (Inr _, st) \<Rightarrow>
             (let (opened, st') = blob_open (blob_path_for U (st_data_dir st) (blk_id b)) st
              in (w\<lparr>pp_writers := (case opened of Inr bw \<Rightarrow> AList.update (blk_id b) bw (pp_writers w) | Inl _ \<Rightarrow> pp_writers w),
                    pp_bufs := AList.update (blk_id b) [] (pp_bufs w),
                    pp_meta := AList.update (blk_id b) b (pp_meta w)\<rparr>,
                  k\<lparr>sk_store := st'\<rparr>)))"

text \<open>A failed write drops the writer.\<close>

definition batch_output :: "block_id \<Rightarrow> bytes \<Rightarrow> 'v pane_parser_state \<times> sink \<Rightarrow> 'v pane_parser_state \<times> sink" where
  "batch_output block data wk =
     (let (w, k) = wk; w1 = w\<lparr>pp_bufs := buffer_output block data (pp_bufs w)\<rparr>
      in case map_of (pp_writers w1) block of
           None \<Rightarrow> (w1, k)
         | Some bw \<Rightarrow>
             (case blob_write bw data (sk_store k) of
                (Inl _, st) \<Rightarrow> (w1\<lparr>pp_writers := AList.delete block (pp_writers w1)\<rparr>, k\<lparr>sk_store := st\<rparr>)
              | (Inr bw', st) \<Rightarrow> (w1\<lparr>pp_writers := AList.update block bw' (pp_writers w1)\<rparr>, k\<lparr>sk_store := st\<rparr>)))"

definition batch_end ::
  "codec \<Rightarrow> int \<Rightarrow> block_id \<Rightarrow> int option \<Rightarrow> 'v pane_parser_state \<times> sink \<Rightarrow> 'v pane_parser_state \<times> sink" where
  "batch_end U now block exit_code wk =
     (let (w, k) = wk;
          (stdout_len, st) = close_writer (map_of (pp_writers w) block) (sk_store k);
          st' = snd (finalize_block U block now exit_code stdout_len st);
          stdout_text = (case Option.bind (map_of (pp_bufs w) block) from_utf8 of Some s \<Rightarrow> s | None \<Rightarrow> [])
      in (w\<lparr>pp_writers := AList.delete block (pp_writers w), pp_bufs := AList.delete block (pp_bufs w),
            pp_meta := AList.delete block (pp_meta w)\<rparr>,
          k\<lparr>sk_store := st',
            sk_index := (case map_of (pp_meta w) block of
                           None \<Rightarrow> sk_index k
                         | Some meta \<Rightarrow> snd (add_block U meta stdout_text (sk_index k)))\<rparr>))"

fun batch_event ::
  "codec \<Rightarrow> session_id \<Rightarrow> pane_id \<Rightarrow> int \<times> block_event \<Rightarrow> 'v pane_parser_state \<times> sink \<Rightarrow> 'v pane_parser_state \<times> sink" where
  "batch_event U session pane (now, PromptStart _) wk = wk"
| "batch_event U session pane (now, CommandStart _ block command cwd) wk =
     batch_start U (batch_block now session pane block command cwd) wk"
| "batch_event U session pane (now, OutputChunk block data) wk = batch_output block data wk"
| "batch_event U session pane (now, BlockEnd block exit_code) wk = batch_end U now block exit_code wk"

definition batch_events ::
  "codec \<Rightarrow> session_id \<Rightarrow> pane_id \<Rightarrow> (int \<times> block_event) list \<Rightarrow> 'v pane_parser_state \<times> sink
   \<Rightarrow> 'v pane_parser_state \<times> sink" where
  "batch_events U session pane evs wk = fold (batch_event U session pane) evs wk"

text \<open>
  \<open>finalize_one_pane_state\<close> goes through the metadata and does for each block what a block end
  without an exit code does.
\<close>

definition finalize_one_pane_state ::
  "codec \<Rightarrow> (nat \<Rightarrow> int) \<Rightarrow> 'v pane_parser_state \<times> sink \<Rightarrow> 'v pane_parser_state \<times> sink" where
  "finalize_one_pane_state U clock wk =
     fold (\<lambda>(i, block). batch_end U (clock i) block None) (enumerate 0 (map fst (pp_meta (fst wk)))) wk"

section \<open>Raw events\<close>

definition process_raw_event ::
  "('v \<Rightarrow> bytes \<Rightarrow> 'v \<times> vte_action list) \<Rightarrow> (string \<times> u32 \<Rightarrow> nat \<Rightarrow> block_id) \<Rightarrow> (string \<times> u32 \<Rightarrow> uuid) \<Rightarrow> 'v \<Rightarrow> codec
   \<Rightarrow> (nat \<Rightarrow> int) \<Rightarrow> raw_event \<Rightarrow> 'v batcher \<Rightarrow> 'v batcher" where
  "process_raw_event advance fresh newid v0 U clock raw b =
     (case cd_parse U (re_session_id raw) of
        None \<Rightarrow> b
      | Some u \<Rightarrow>
          (let key = (re_session_id raw, re_slot_idx raw); session = SessionId u;
               w = (case map_of (bt_parsers b) key of Some w \<Rightarrow> w | None \<Rightarrow> pps_new v0 session);
               (pane, wr) = (case pp_pane w of
                               Some p \<Rightarrow> (Some p, bt_registry b)
                             | None \<Rightarrow>
                                 (let (p, wr) = get_or_alloc_pane_by_slot (newid key) (fst key) (snd key) (bt_registry b)
                                  in (map_option PaneId p, wr)));
               w1 = w\<lparr>pp_pane := pane\<rparr>;
               b1 = b\<lparr>bt_registry := wr\<rparr>
           in case pane of
                None \<Rightarrow> b1\<lparr>bt_parsers := AList.update key w1 (bt_parsers b)\<rparr>
              | Some p \<Rightarrow>
                  (let (parser, evs) = (if re_bytes raw \<noteq> [] then feed advance (fresh key) (pp_parser w1) (re_bytes raw)
                                        else (pp_parser w1, []));
                       n = bt_readings b;
                       (w2, k) = batch_events U session p (map (\<lambda>(i, ev). (clock i, ev)) (enumerate n evs))
                                   (w1\<lparr>pp_parser := parser\<rparr>, bt_sink b)
                   in b1\<lparr>bt_parsers := AList.update key w2 (bt_parsers b), bt_sink := k, bt_readings := n + length evs\<rparr>)))"







section \<open>Batching cannot be observed\<close>









section \<open>Every open block is closed\<close>

text \<open>Writers and buffers belong to blocks with metadata.\<close>

definition pps_ok :: "'v pane_parser_state \<Rightarrow> bool" where
  "pps_ok w \<longleftrightarrow> fst ` set (pp_writers w) \<subseteq> fst ` set (pp_meta w) \<and> fst ` set (pp_bufs w) \<subseteq> fst ` set (pp_meta w)"

lemma keys_buffer: "fst ` set (buffer_output block data bufs) = fst ` set bufs"
proof (cases "map_of bufs block")
  case (Some buf)
  then have "block \<in> fst ` set bufs" by (force dest: map_of_SomeD)
  then show ?thesis using Some by (auto simp: buffer_output_def Let_def keys_update)
qed (simp add: buffer_output_def)

lemma ok_start: "pps_ok (fst wk) \<Longrightarrow> pps_ok (fst (batch_start U b wk))"
  by (cases wk) (auto simp: batch_start_def pps_ok_def keys_update Let_def case_prod_unfold split: sum.split)

lemma ok_output:
  assumes "pps_ok (fst wk)"
  shows "pps_ok (fst (batch_output block data wk))"
proof (cases "map_of (pp_writers (fst wk)) block")
  case (Some bw)
  then have "block \<in> fst ` set (pp_writers (fst wk))" by (force dest: map_of_SomeD)
  then show ?thesis using assms Some
    by (cases wk) (auto simp: batch_output_def pps_ok_def keys_buffer keys_update keys_delete Let_def split: sum.split prod.split)
next
  case None
  then show ?thesis using assms by (cases wk) (auto simp: batch_output_def pps_ok_def keys_buffer Let_def)
qed

lemma ok_end: "pps_ok (fst wk) \<Longrightarrow> pps_ok (fst (batch_end U now block code wk))"
  by (cases wk) (auto simp: batch_end_def pps_ok_def keys_delete Let_def case_prod_unfold)

lemma ok_event: "pps_ok (fst wk) \<Longrightarrow> pps_ok (fst (batch_event U session pane e wk))"
  by (cases e; cases "snd e") (auto simp: ok_start ok_output ok_end)

lemma ok_events: "pps_ok (fst wk) \<Longrightarrow> pps_ok (fst (batch_events U session pane evs wk))"
  unfolding batch_events_def by (induction evs arbitrary: wk) (simp_all add: ok_event)

text \<open>What a block end leaves when the store does not fail.\<close>

definition closed_in :: "codec \<Rightarrow> block_id \<Rightarrow> store \<Rightarrow> bool" where
  "closed_in U block st \<longleftrightarrow> list_all (\<lambda>r. brow_id r = cd_show U (block_uuid block) \<longrightarrow> brow_ended_at r \<noteq> None) (d_blocks (st_db st))"

lemma close_writer_nofault:
  assumes "st_faults st = []"
  shows "st_faults (snd (close_writer bw st)) = []" "st_db (snd (close_writer bw st)) = st_db st"
  using assms
  by (auto simp: close_writer_def blob_close_def io_step_def ok_def finish_file_def Let_def split: option.split blob_file.split)

lemma finalize_closed:
  assumes "st_faults st = []"
  shows "st_faults (snd (finalize_block U block now code len st)) = []"
    and "closed_in U block (snd (finalize_block U block now code len st))"
    and "closed_in U other st \<Longrightarrow> closed_in U other (snd (finalize_block U block now code len st))"
  using assms by (auto simp: finalize_block_def execute_def query_def closed_in_def update_where_def list_all_iff)

lemma end_closed:
  assumes "st_faults (sk_store (snd wk)) = []"
  shows "st_faults (sk_store (snd (batch_end U now block code wk))) = []"
    and "closed_in U block (sk_store (snd (batch_end U now block code wk)))"
    and "closed_in U other (sk_store (snd wk)) \<Longrightarrow> closed_in U other (sk_store (snd (batch_end U now block code wk)))"
proof -
  obtain w k where wk: "wk = (w, k)" by fastforce
  let ?st = "snd (close_writer (map_of (pp_writers w) block) (sk_store k))"
  have st: "st_faults ?st = []" "st_db ?st = st_db (sk_store k)" using assms close_writer_nofault by (simp_all add: wk)
  have fin: "sk_store (snd (batch_end U now block code wk))
      = snd (finalize_block U block now code (fst (close_writer (map_of (pp_writers w) block) (sk_store k))) ?st)"
    by (simp add: wk batch_end_def Let_def case_prod_unfold)
  show "st_faults (sk_store (snd (batch_end U now block code wk))) = []"
    and "closed_in U block (sk_store (snd (batch_end U now block code wk)))"
    using finalize_closed(1,2) [OF st(1)] by (simp_all add: fin)
  assume "closed_in U other (sk_store (snd wk))"
  then have "closed_in U other ?st" by (simp add: closed_in_def st(2) wk)
  then show "closed_in U other (sk_store (snd (batch_end U now block code wk)))"
    using finalize_closed(3) [OF st(1)] by (simp add: fin)
qed

lemma finalize_all:
  assumes "st_faults (sk_store (snd wk)) = []"
  shows "(\<forall>block\<in>snd ` set xs. closed_in U block (sk_store (snd (fold (\<lambda>(i, block). batch_end U (clock i) block None) xs wk))))
    \<and> (\<forall>block. closed_in U block (sk_store (snd wk)) \<longrightarrow>
         closed_in U block (sk_store (snd (fold (\<lambda>(i, block). batch_end U (clock i) block None) xs wk))))"
  using assms
proof (induction xs arbitrary: wk)
  case (Cons x xs)
  obtain i block where x: "x = (i, block)" by fastforce
  note step = end_closed [where U = U and now = "clock i" and block = block and code = None, OF Cons.prems]
  show ?case using Cons.IH [OF step(1)] step(2,3) by (auto simp: x)
qed simp

lemma finalize_meta:
  "pp_meta (fst (fold (\<lambda>(i, block). batch_end U (clock i) block None) xs wk))
   = filter (\<lambda>m. fst m \<notin> snd ` set xs) (pp_meta (fst wk))"
proof (induction xs arbitrary: wk)
  case (Cons x xs)
  have "pp_meta (fst (batch_end U (clock (fst x)) (snd x) None wk)) = AList.delete (snd x) (pp_meta (fst wk))"
    by (cases wk) (simp add: batch_end_def Let_def case_prod_unfold)
  then show ?case using Cons.IH
    by (auto simp: case_prod_unfold AList.delete_eq intro!: filter_cong)
qed simp

lemma ok_fold: "pps_ok (fst wk) \<Longrightarrow> pps_ok (fst (fold (\<lambda>(i, block). batch_end U (clock i) block None) xs wk))"
  by (induction xs arbitrary: wk) (simp_all add: ok_end case_prod_unfold)

text \<open>
  C18. No block is left running: whatever a pane printed and whichever store operations failed
  meanwhile (a block may have lost its writer, or never have had one), finalizing the pane
  drops every writer, buffer and metadata record, and, if the store works again, every block
  that was open has an end time in the database.
\<close>

theorem finalize_closes_every_open_block:
  assumes "wk = batch_events U session pane evs (pps_new v session, k)"
    and "wk' = finalize_one_pane_state U clock wk" and "st_faults (sk_store (snd wk)) = []"
  shows "pp_meta (fst wk') = [] \<and> pp_writers (fst wk') = [] \<and> pp_bufs (fst wk') = []
    \<and> (\<forall>block\<in>fst ` set (pp_meta (fst wk)). closed_in U block (sk_store (snd wk')))"
proof -
  have ids: "snd ` set (enumerate 0 (map fst (pp_meta (fst wk)))) = fst ` set (pp_meta (fst wk))"
    by (simp add: image_set del: set_map flip: set_map)
  have "pps_ok (fst wk)" using ok_events [of "(pps_new v session, k)"] assms(1) by (simp add: pps_ok_def pps_new_def)
  then have ok: "pps_ok (fst wk')" by (simp add: assms(2) finalize_one_pane_state_def ok_fold)
  have meta: "pp_meta (fst wk') = []"
    using ids by (simp add: assms(2) finalize_one_pane_state_def finalize_meta filter_empty_conv)
  with ok have "pp_writers (fst wk') = []" "pp_bufs (fst wk') = []" by (simp_all add: pps_ok_def)
  moreover have "\<forall>block\<in>fst ` set (pp_meta (fst wk)). closed_in U block (sk_store (snd wk'))"
    using finalize_all [OF assms(3), of "enumerate 0 (map fst (pp_meta (fst wk)))" U clock] ids
    by (simp add: assms(2) finalize_one_pane_state_def)
  ultimately show ?thesis using meta by blast
qed

definition demo_sink :: sink where
  "demo_sink = \<lparr>sk_store = empty_store, sk_index = \<lparr>ix_committed = [], ix_pending = [], ix_faults = []\<rparr>\<rparr>"

theorem finalize_closes_every_open_block_witness:
  "let wk = batch_events demo_codec (SessionId 6) (PaneId 5) [(0, CommandStart (SessionId 6) (BlockId 1) ''ls'' None)]
              (pps_new () (SessionId 6), demo_sink\<lparr>sk_store := empty_store\<lparr>st_faults := [False, True]\<rparr>\<rparr>)
   in pp_writers (fst wk) = [] \<and> fst ` set (pp_meta (fst wk)) = {BlockId 1}
     \<and> closed_in demo_codec (BlockId 1) (sk_store (snd (finalize_one_pane_state demo_codec (\<lambda>_. 9) wk)))"
proof -
  let ?wk = "batch_events demo_codec (SessionId 6) (PaneId 5) [(0, CommandStart (SessionId 6) (BlockId 1) ''ls'' None)]
      (pps_new () (SessionId 6), demo_sink\<lparr>sk_store := empty_store\<lparr>st_faults := [False, True]\<rparr>\<rparr>)"
  have w: "pp_writers (fst ?wk) = []" "fst ` set (pp_meta (fst ?wk)) = {BlockId 1}" "st_faults (sk_store (snd ?wk)) = []"
    by code_simp+
  from finalize_closes_every_open_block [OF refl refl this(3)] w show ?thesis by (simp add: Let_def)
qed


section \<open>Agreement with the single-process daemon\<close>














section \<open>Where the two differ\<close>

text \<open>
  A block whose blob could not be opened: the batcher closes it when its pane ends, the drain of
  the parser task, which goes through the writers, leaves it running for ever.
\<close>

lemma parser_task_leaves_writerless_block_open:
  "let t = start_block demo_codec (demo_env 0) (BlockId 1) ''ls'' None (demo_task\<lparr>pk_store := empty_store\<lparr>st_faults := [False, True]\<rparr>\<rparr>);
       st = drain_writers demo_codec 9 (pk_writers t) (pk_store t);
       wk = finalize_one_pane_state demo_codec (\<lambda>_. 9)
              (batch_start demo_codec (batch_block 0 (SessionId 6) (PaneId 5) (BlockId 1) ''ls'' None)
                (pps_new () (SessionId 6), demo_sink\<lparr>sk_store := empty_store\<lparr>st_faults := [False, True]\<rparr>\<rparr>))
   in map brow_ended_at (d_blocks (st_db st)) = [None] \<and> map brow_ended_at (d_blocks (st_db (sk_store (snd wk)))) = [Some 0]"
  by code_simp

text \<open>
  The pane identity is looked up once per slot: when it is known, an event is handled in the
  same way whatever the pane index says by now. Output that arrives after the slot was closed
  is still recorded, and after a crash the output of a new pane in a reused slot is recorded
  under the identifier of the old one.
\<close>

lemma batcher_keeps_first_identity:
  assumes "map_of (bt_parsers b) (re_session_id raw, re_slot_idx raw) = Some w" and "pp_pane w = Some p"
  shows "process_raw_event advance fresh newid v0 U clock raw (b\<lparr>bt_registry := wr\<rparr>)
    = (process_raw_event advance fresh newid v0 U clock raw b)\<lparr>bt_registry := wr\<rparr>"
  using assms by (simp add: process_raw_event_def Let_def case_prod_unfold split: option.split)

end
