(* ===== verification/Worker_Text.thy ===== *)
theory Worker_Text
  imports Utf8 Pyre_Proto
begin

text \<open>
  Text and byte loops of the worker: the escape-sequence filter of \<^verbatim>\<open>crates/pyred/src/ansi.rs\<close>, the
  tail of a pane's output as \<open>capture_pane\<close> of \<^verbatim>\<open>crates/pyred/src/worker.rs\<close> computes it, and
  \<open>write_all_bytes\<close>, a loop that ends only if the writer makes progress. Strings are their UTF-8
  bytes; every character the filter looks at is ASCII.
\<close>

section \<open>Escape sequences\<close>

definition csi_param :: "byte \<Rightarrow> bool" where
  "csi_param b \<longleftrightarrow> 0x20 \<le> (of_char b :: nat) \<and> (of_char b :: nat) \<le> 0x3F"

definition csi_final :: "byte \<Rightarrow> bool" where
  "csi_final b \<longleftrightarrow> 0x40 \<le> (of_char b :: nat) \<and> (of_char b :: nat) \<le> 0x7E"

text \<open>What follows a match of the expression at the start of the text; at most one match starts there.\<close>

definition csi_match :: "bytes \<Rightarrow> bytes option" where
  "csi_match s =
     (case s of
        e # b # rest \<Rightarrow>
          if e = CHR 0x1B \<and> b = CHR ''[''
          then (case dropWhile csi_param rest of
                  f # after \<Rightarrow> if csi_final f then Some after else None
                | [] \<Rightarrow> None)
          else None
      | _ \<Rightarrow> None)"

lemma csi_match_shorter: "csi_match s = Some r \<Longrightarrow> length r < length s"
proof -
  assume "csi_match s = Some r"
  then obtain e b rest f where s: "s = e # b # rest" and d: "dropWhile csi_param rest = f # r"
    by (auto simp: csi_match_def split: list.splits if_splits)
  have "length (f # r) \<le> length rest" using length_dropWhile_le [of csi_param rest] d by simp
  then show ?thesis by (simp add: s)
qed

text \<open>\<open>replace_all\<close> with the empty string: matches are taken from the left and do not overlap.\<close>

function strip_csi :: "bytes \<Rightarrow> bytes" where
  "strip_csi [] = []"
| "strip_csi (c # cs) = (case csi_match (c # cs) of Some r \<Rightarrow> strip_csi r | None \<Rightarrow> c # strip_csi cs)"
  by pat_completeness auto
termination by (relation "measure length") (auto dest: csi_match_shorter)

section \<open>Lines\<close>

text \<open>\<open>split('\n')\<close> and \<open>join("\n")\<close>.\<close>

fun split_nl :: "bytes \<Rightarrow> bytes list" where
  "split_nl [] = [[]]"
| "split_nl (c # cs) =
     (if c = CHR 0x0A then [] # split_nl cs
      else (case split_nl cs of l # ls \<Rightarrow> (c # l) # ls | [] \<Rightarrow> [[c]]))"

fun join_nl :: "bytes list \<Rightarrow> bytes" where
  "join_nl [] = []"
| "join_nl [l] = l"
| "join_nl (l # ls) = l @ CHR 0x0A # join_nl ls"

definition capture_text :: "bytes \<Rightarrow> u32 \<Rightarrow> bytes" where
  "capture_text raw lines =
     (let all_lines = split_nl (strip_csi (from_utf8_lossy raw));
          take = min (unat lines) (length all_lines)
      in join_nl (drop (length all_lines - take) all_lines))"

section \<open>Writing\<close>


section \<open>Laws of the lines\<close>

lemma split_nl_nonempty: "split_nl s \<noteq> []"
  by (induction s) (auto split: list.split)

lemma join_split_nl: "join_nl (split_nl s) = s"
proof (induction s)
  case (Cons c s)
  obtain l ls where s: "split_nl s = l # ls" using split_nl_nonempty [of s] by (cases "split_nl s") auto
  then show ?case using Cons by (cases ls) auto
qed simp

lemma split_nl_no_newline: "l \<in> set (split_nl s) \<Longrightarrow> CHR 0x0A \<notin> set l"
  by (induction s arbitrary: l) (auto split: list.splits if_splits)

lemma split_line: "CHR 0x0A \<notin> set l \<Longrightarrow> split_nl l = [l]"
  by (induction l) auto

lemma split_line_append: "CHR 0x0A \<notin> set l \<Longrightarrow> split_nl (l @ CHR 0x0A # s) = l # split_nl s"
  by (induction l) auto

lemma split_join_nl:
  "ls \<noteq> [] \<Longrightarrow> (\<And>l. l \<in> set ls \<Longrightarrow> CHR 0x0A \<notin> set l) \<Longrightarrow> split_nl (join_nl ls) = ls"
  by (induction ls rule: join_nl.induct) (auto simp: split_line split_line_append)

lemma join_nl_append: "ls \<noteq> [] \<Longrightarrow> ms \<noteq> [] \<Longrightarrow> join_nl (ls @ ms) = join_nl ls @ CHR 0x0A # join_nl ms"
  by (induction ls rule: join_nl.induct) (auto simp: neq_Nil_conv)

lemma strip_csi_plain: "CHR 0x1B \<notin> set s \<Longrightarrow> strip_csi s = s"
proof (induction s)
  case (Cons c s)
  have "csi_match (c # s) = None" using Cons.prems by (cases s) (auto simp: csi_match_def)
  then show ?case using Cons by simp
qed simp

text \<open>
  What a client sees of a pane: \<open>capture_pane\<close> with a positive number of lines returns the last
  lines of the pane's output without its escape sequences, at most as many as asked for,
  unchanged and in order; asking for at least as many lines as there are returns everything,
  and asking for none returns nothing.
\<close>

theorem capture_returns_last_lines:
  "split_nl (capture_text raw lines)
     = (if lines = 0 then [[]] else last_n (unat lines) (split_nl (strip_csi (from_utf8_lossy raw))))
   \<and> (length (split_nl (strip_csi (from_utf8_lossy raw))) \<le> unat lines \<longrightarrow> capture_text raw lines = strip_csi (from_utf8_lossy raw))"
proof -
  let ?all = "split_nl (strip_csi (from_utf8_lossy raw))"
  have cap: "capture_text raw lines = join_nl (last_n (unat lines) ?all)"
    by (simp add: capture_text_def last_n_def Let_def min_def)
  have "split_nl (join_nl (last_n (unat lines) ?all)) = last_n (unat lines) ?all" if "lines \<noteq> 0"
  proof (rule split_join_nl)
    have "0 < length (last_n (unat lines) ?all)"
      using that split_nl_nonempty [of "strip_csi (from_utf8_lossy raw)"] by (simp add: unat_gt_0)
    then show "last_n (unat lines) ?all \<noteq> []" by blast
    show "CHR 0x0A \<notin> set l" if "l \<in> set (last_n (unat lines) ?all)" for l
      using split_nl_no_newline [OF subsetD [OF set_last_n that]] .
  qed
  then show ?thesis by (auto simp: cap join_split_nl)
qed

theorem capture_returns_last_lines_witness:
  "capture_text (encode_string [0x61, 0x0A, 0x1B, 0x5B, 0x31, 0x6D, 0x62]) 5 = ''a'' @ [CHR 0x0A] @ ''b''"
proof -
  let ?cs = "[0x61, 0x0A, 0x1B, 0x5B, 0x31, 0x6D, 0x62] :: scalar list"
  have "list_all is_scalar ?cs" by (simp add: is_scalar_def)
  then have "from_utf8_lossy (encode_string ?cs) = encode_string ?cs"
    unfolding from_utf8_lossy_def by (subst lossy_string) simp_all
  moreover have "strip_csi (encode_string ?cs) = ''a'' @ [CHR 0x0A] @ ''b''" by code_simp
  ultimately show ?thesis using capture_returns_last_lines [of "encode_string ?cs" 5, THEN conjunct2] by simp
qed

section \<open>Laws of writing\<close>





end
