(* ===== verification/Worker.thy ===== *)
theory Worker
  imports Worker_Text Ring_Buffer State_Tracker Block_Batcher
begin

text \<open>
  The worker process of a session (\<^verbatim>\<open>crates/pyred/src/worker.rs\<close>) and the read-only view of its shard
  (\<^verbatim>\<open>crates/pyred/src/shard.rs\<close>). A worker owns the panes of one session, keeps a row per pane in the
  session's shard so that a restarted worker can open them again, sends output and state changes
  to the supervisor and serves its requests. What the terminal, the process table and the
  supervisor answer is a parameter; messages to the supervisor, signals and queued input are
  recorded in order. Statements on the shard may fail, one outcome per statement.
\<close>

section \<open>Environment\<close>

record worker_env =
  we_session_id :: string
  we_worker_sock :: string
  we_supervisor_sock :: string

datatype env_error = MissingVar string | EmptyVar string

definition require_var :: "(string \<Rightarrow> string option) \<Rightarrow> string \<Rightarrow> env_error + string" where
  "require_var var name =
     (case var name of
        None \<Rightarrow> Inl (MissingVar name)
      | Some v \<Rightarrow> if v = [] then Inl (EmptyVar name) else Inr v)"

definition from_env :: "(string \<Rightarrow> string option) \<Rightarrow> env_error + worker_env" where
  "from_env var =
     (case require_var var ''PYRE_SESSION_ID'' of
        Inl e \<Rightarrow> Inl e
      | Inr session_id \<Rightarrow>
          (case require_var var ''PYRE_WORKER_SOCK'' of
             Inl e \<Rightarrow> Inl e
           | Inr worker_sock \<Rightarrow>
               (case require_var var ''PYRE_SUPERVISOR_SOCK'' of
                  Inl e \<Rightarrow> Inl e
                | Inr supervisor_sock \<Rightarrow>
                    Inr \<lparr>we_session_id = session_id, we_worker_sock = worker_sock, we_supervisor_sock = supervisor_sock\<rparr>)))"

section \<open>State\<close>

record pane_handle =
  ph_shell :: string
  ph_cwd :: string
  ph_cols :: u16
  ph_rows :: u16
  ph_created_at :: instant
  ph_child_pid :: u32
  ph_pty_size :: "u16 \<times> u16"
  ph_input :: "bytes list"
  ph_ring_buf :: ring_buf
  ph_output :: "bytes list"
  ph_tracker :: tracker

datatype worker_msg =
    MsgBlockEvent raw_event
  | MsgPaneClosed u32
  | MsgStateChanged u32 pane_state_kind

datatype rpc_error = UnknownSlot u32 | Internal

record worker =
  wk_session_id :: string
  wk_panes :: "(u32 \<times> pane_handle) list"
  wk_shard :: "(u32 \<times> string \<times> string) list"
  wk_faults :: "bool list"
  wk_outbox :: "worker_msg list"
  wk_signals :: "u32 list"
  wk_shutdown :: bool

definition worker_ring_capacity :: nat where
  "worker_ring_capacity = 256 * 1024"

section \<open>The shard\<close>

definition shard_exec :: "((u32 \<times> string \<times> string) list \<Rightarrow> (u32 \<times> string \<times> string) list) \<Rightarrow> worker \<Rightarrow> bool \<times> worker" where
  "shard_exec f w =
     (case wk_faults w of
        True # fs \<Rightarrow> (False, w\<lparr>wk_faults := fs\<rparr>)
      | False # fs \<Rightarrow> (True, w\<lparr>wk_faults := fs, wk_shard := f (wk_shard w)\<rparr>)
      | [] \<Rightarrow> (True, w\<lparr>wk_shard := f (wk_shard w)\<rparr>))"

definition shard_upsert_pane :: "u32 \<Rightarrow> string \<Rightarrow> string \<Rightarrow> worker \<Rightarrow> bool \<times> worker" where
  "shard_upsert_pane slot shell cwd = shard_exec (AList.update slot (shell, cwd))"

definition shard_delete_pane :: "u32 \<Rightarrow> worker \<Rightarrow> bool \<times> worker" where
  "shard_delete_pane slot = shard_exec (filter (\<lambda>(i, _). i \<noteq> slot))"

definition shard_load_panes :: "worker \<Rightarrow> (u32 \<times> string \<times> string) list option \<times> worker" where
  "shard_load_panes w =
     (let (fine, w') = shard_exec id w in (if fine then Some (wk_shard w') else None, w'))"

section \<open>Panes\<close>

text \<open>
  \<open>open_pane\<close>. \<open>child\<close> is the process id the terminal's shell got (0 if unknown), nothing if the
  terminal or the process could not be started.
\<close>

definition worker_open_pane ::
  "instant \<Rightarrow> instant \<Rightarrow> u32 option \<Rightarrow> u32 \<Rightarrow> string \<Rightarrow> string \<Rightarrow> u16 \<Rightarrow> u16 \<Rightarrow> worker \<Rightarrow> (rpc_error + unit) \<times> worker" where
  "worker_open_pane now wall child slot shell cwd cols rows w =
     (let (cols, rows) = (if cols = 0 \<or> rows = 0 then (80, 24) else (cols, rows))
      in case child of
           None \<Rightarrow> (Inl Internal, w)
         | Some pid \<Rightarrow>
             (let h = \<lparr>ph_shell = shell, ph_cwd = cwd, ph_cols = (if cols = 0 then 80 else cols),
                       ph_rows = (if rows = 0 then 24 else rows), ph_created_at = wall, ph_child_pid = pid,
                       ph_pty_size = (cols, rows), ph_input = [], ph_ring_buf = ring_new worker_ring_capacity,
                       ph_output = [], ph_tracker = tracker_new now pid\<rparr>;
                  w1 = w\<lparr>wk_panes := AList.update slot h (wk_panes w)\<rparr>;
                  (fine, w2) = shard_upsert_pane slot shell cwd w1
              in (if fine then Inr () else Inl Internal, w2)))"

text \<open>
  One chunk in the reader thread: ring, subscribers, supervisor. The thread outlives the removal
  of its pane and goes on reporting what it reads.
\<close>

definition worker_read_chunk :: "u64 \<Rightarrow> u32 \<Rightarrow> bytes \<Rightarrow> worker \<Rightarrow> worker" where
  "worker_read_chunk ts slot chunk w =
     (let ev = \<lparr>re_session_id = wk_session_id w, re_slot_idx = slot, re_kind = Stdout, re_bytes = chunk, re_ts_ms = ts\<rparr>;
          panes = (case map_of (wk_panes w) slot of
                     None \<Rightarrow> wk_panes w
                   | Some h \<Rightarrow> AList.update slot (h\<lparr>ph_ring_buf := push chunk (ph_ring_buf h), ph_output := ph_output h @ [chunk]\<rparr>)
                                (wk_panes w))
      in w\<lparr>wk_panes := panes, wk_outbox := wk_outbox w @ [MsgBlockEvent ev]\<rparr>)"

definition worker_close_pane :: "u32 \<Rightarrow> worker \<Rightarrow> (rpc_error + unit) \<times> worker" where
  "worker_close_pane slot w =
     (case map_of (wk_panes w) slot of
        None \<Rightarrow> (Inr (), w)
      | Some h \<Rightarrow>
          (let w1 = w\<lparr>wk_panes := AList.delete slot (wk_panes w), wk_signals := wk_signals w @ [ph_child_pid h]\<rparr>;
               (fine, w2) = shard_delete_pane slot w1
           in if \<not> fine then (Inl Internal, w2)
              else
                (let w3 = w2\<lparr>wk_outbox := wk_outbox w2 @ [MsgPaneClosed slot]\<rparr>
                 in (Inr (), if wk_panes w3 = [] then w3\<lparr>wk_shutdown := True\<rparr> else w3))))"

text \<open>\<open>fresh_pane\<close> and \<open>fresh_window\<close> are the identifiers the code fills in for the supervisor to replace.\<close>

definition worker_pane_info ::
  "codec \<Rightarrow> instant \<Rightarrow> instant \<Rightarrow> pane_id \<Rightarrow> window_id \<Rightarrow> u32 \<Rightarrow> worker \<Rightarrow> rpc_error + pane_info" where
  "worker_pane_info U wall tick fresh_pane fresh_window slot w =
     (case map_of (wk_panes w) slot of
        None \<Rightarrow> Inl (UnknownSlot slot)
      | Some h \<Rightarrow>
          (case cd_parse U (wk_session_id w) of
             None \<Rightarrow> Inl Internal
           | Some u \<Rightarrow>
               (let t = ph_tracker h
                in Inr \<lparr>pi_id = fresh_pane, pi_session = SessionId u, pi_window = fresh_window, pi_cols = ph_cols h,
                        pi_rows = ph_rows h, pi_shell = ph_shell h, pi_created_at = ph_created_at h, pi_closed_at = None,
                        pi_state = t_state t, pi_state_reason = t_reason t,
                        pi_last_activity = wall - (tick - t_last_output_at t), pi_foreground_cmd = t_foreground_cmd t,
                        pi_root_pid = t_root_pid t, pi_agent = t_agent t, pi_seen = t_seen t, pi_name = None\<rparr>)))"

definition update_tracker :: "u32 \<Rightarrow> (tracker \<Rightarrow> tracker) \<Rightarrow> worker \<Rightarrow> (rpc_error + unit) \<times> worker" where
  "update_tracker slot f w =
     (case map_of (wk_panes w) slot of
        None \<Rightarrow> (Inl Internal, w)
      | Some h \<Rightarrow> (Inr (), w\<lparr>wk_panes := AList.update slot (h\<lparr>ph_tracker := f (ph_tracker h)\<rparr>) (wk_panes w)\<rparr>))"

definition parse_u64 :: "bytes \<Rightarrow> u64 option" where
  "parse_u64 s =
     (let ds = (if s \<noteq> [] \<and> hd s = CHR ''+'' then tl s else s)
      in if ds = [] then None
         else case parse_digits 0 ds of
                None \<Rightarrow> None
              | Some n \<Rightarrow> if n < 2 ^ 64 then Some (of_nat n) else None)"

definition worker_set_pane_state ::
  "(string \<Rightarrow> string option) \<Rightarrow> instant \<Rightarrow> u32 \<Rightarrow> pane_state_kind \<Rightarrow> string \<Rightarrow> worker \<Rightarrow> (rpc_error + unit) \<times> worker" where
  "worker_set_pane_state var now slot state reason w =
     (let secs = (case Option.bind (var ''PYRE_OVERRIDE_WINDOW_SECS'') parse_u64 of Some n \<Rightarrow> n | None \<Rightarrow> 30)
      in update_tracker slot (set_override now state reason secs) w)"

definition worker_mark_pane_seen :: "u32 \<Rightarrow> worker \<Rightarrow> (rpc_error + unit) \<times> worker" where
  "worker_mark_pane_seen slot w = update_tracker slot mark_seen w"

text \<open>One tick of the worker's state engine, pane by pane.\<close>

definition worker_tick_pane ::
  "(bytes \<Rightarrow> bytes) \<Rightarrow> (u32 \<Rightarrow> bytes option) \<Rightarrow> (nat \<Rightarrow> instant) \<Rightarrow> (u32 \<Rightarrow> bool) \<Rightarrow> worker \<Rightarrow> u32 \<Rightarrow> worker" where
  "worker_tick_pane lower foreground clk pid_alive w slot =
     (case map_of (wk_panes w) slot of
        None \<Rightarrow> w
      | Some h \<Rightarrow>
          (let (changed, t) = tick_tracker lower foreground clk pid_alive (ph_tracker h);
               w1 = w\<lparr>wk_panes := AList.update slot (h\<lparr>ph_tracker := t\<rparr>) (wk_panes w)\<rparr>
           in if changed then w1\<lparr>wk_outbox := wk_outbox w1 @ [MsgStateChanged slot (t_state t)]\<rparr> else w1))"

definition worker_engine_tick ::
  "(bytes \<Rightarrow> bytes) \<Rightarrow> (u32 \<Rightarrow> bytes option) \<Rightarrow> (nat \<Rightarrow> instant) \<Rightarrow> (u32 \<Rightarrow> bool) \<Rightarrow> worker \<Rightarrow> worker" where
  "worker_engine_tick lower foreground clk pid_alive w =
     foldl (worker_tick_pane lower foreground clk pid_alive) w (map fst (wk_panes w))"

section \<open>Requests of the supervisor\<close>

text \<open>\<open>shutdown\<close>, after its grace period.\<close>

definition worker_shutdown :: "worker \<Rightarrow> worker" where
  "worker_shutdown w =
     (foldl (\<lambda>w slot. snd (worker_close_pane slot w)) w (map fst (wk_panes w)))\<lparr>wk_shutdown := True\<rparr>"

definition worker_attach_pane :: "u32 \<Rightarrow> worker \<Rightarrow> rpc_error + unit" where
  "worker_attach_pane slot w = Inr ()"

definition worker_resize_pane :: "bool \<Rightarrow> u32 \<Rightarrow> u16 \<Rightarrow> u16 \<Rightarrow> worker \<Rightarrow> (rpc_error + unit) \<times> worker" where
  "worker_resize_pane pty_ok slot cols rows w =
     (case map_of (wk_panes w) slot of
        None \<Rightarrow> (Inl (UnknownSlot slot), w)
      | Some h \<Rightarrow>
          if pty_ok then (Inr (), w\<lparr>wk_panes := AList.update slot (h\<lparr>ph_pty_size := (cols, rows)\<rparr>) (wk_panes w)\<rparr>)
          else (Inl Internal, w))"

definition worker_send_keys :: "bool \<Rightarrow> u32 \<Rightarrow> bytes \<Rightarrow> worker \<Rightarrow> (rpc_error + unit) \<times> worker" where
  "worker_send_keys channel_open slot bs w =
     (case map_of (wk_panes w) slot of
        None \<Rightarrow> (Inl (UnknownSlot slot), w)
      | Some h \<Rightarrow>
          if channel_open then (Inr (), w\<lparr>wk_panes := AList.update slot (h\<lparr>ph_input := ph_input h @ [bs]\<rparr>) (wk_panes w)\<rparr>)
          else (Inl Internal, w))"

definition worker_capture_pane :: "u32 \<Rightarrow> u32 \<Rightarrow> worker \<Rightarrow> rpc_error + bytes" where
  "worker_capture_pane slot lines w =
     (case map_of (wk_panes w) slot of
        None \<Rightarrow> Inl (UnknownSlot slot)
      | Some h \<Rightarrow> Inr (capture_text (snapshot (ph_ring_buf h)) lines))"

definition worker_list_panes :: "worker \<Rightarrow> u32 list" where
  "worker_list_panes w = map fst (wk_panes w)"

definition worker_pane_cwd :: "(u32 \<Rightarrow> string option) \<Rightarrow> u32 \<Rightarrow> worker \<Rightarrow> rpc_error + string option" where
  "worker_pane_cwd proc_cwd slot w =
     Inr (case map_of (wk_panes w) slot of None \<Rightarrow> None | Some h \<Rightarrow> proc_cwd (ph_child_pid h))"

section \<open>Start-up\<close>

text \<open>\<open>run\<close>: a new worker on an existing shard opens the panes it finds there.\<close>

definition worker_new :: "string \<Rightarrow> (u32 \<times> string \<times> string) list \<Rightarrow> bool list \<Rightarrow> worker" where
  "worker_new session shard faults =
     \<lparr>wk_session_id = session, wk_panes = [], wk_shard = shard, wk_faults = faults, wk_outbox = [], wk_signals = [],
      wk_shutdown = False\<rparr>"

definition worker_recover :: "instant \<Rightarrow> instant \<Rightarrow> (u32 \<Rightarrow> u32 option) \<Rightarrow> worker \<Rightarrow> worker" where
  "worker_recover now wall child w =
     (let (rows, w1) = shard_load_panes w
      in foldl (\<lambda>w (slot, shell, cwd). snd (worker_open_pane now wall (child slot) slot shell cwd 80 24 w)) w1
           (case rows of Some rs \<Rightarrow> rs | None \<Rightarrow> []))"

section \<open>The shard seen from outside\<close>

text \<open>
  What \<open>shard_pane_count\<close> can meet: no database file, a file that cannot be opened, a query that
  fails, or a number of rows.
\<close>

datatype shard_file = NoFile | OpenFails | QueryFails | PaneRows int

definition shard_pane_count :: "shard_file \<Rightarrow> unit + u64" where
  "shard_pane_count f =
     (case f of
        NoFile \<Rightarrow> Inr 0
      | OpenFails \<Rightarrow> Inr 0
      | QueryFails \<Rightarrow> Inr 0
      | PaneRows n \<Rightarrow> Inr (word_of_int (max n 0)))"

datatype remove_outcome = Removed | NotFound | OtherError

definition remove_dir_if_exists :: "remove_outcome \<Rightarrow> unit + unit" where
  "remove_dir_if_exists r = (case r of Removed \<Rightarrow> Inr () | NotFound \<Rightarrow> Inr () | OtherError \<Rightarrow> Inl ())"

text \<open>\<open>Path::join\<close>: an absolute path replaces what it is joined to.\<close>

definition path_join :: "string \<Rightarrow> string \<Rightarrow> string" where
  "path_join a b =
     (if b \<noteq> [] \<and> hd b = CHR ''/'' then b
      else if a = [] \<or> last a = CHR ''/'' then a @ b
      else a @ ''/'' @ b)"

definition state_home :: "string option \<Rightarrow> string option \<Rightarrow> string" where
  "state_home xdg home =
     (case xdg of
        Some p \<Rightarrow> p
      | None \<Rightarrow> path_join (path_join (case home of Some h \<Rightarrow> h | None \<Rightarrow> ''/tmp'') ''.local'') ''state'')"

definition sessions_dir :: "string option \<Rightarrow> string option \<Rightarrow> string" where
  "sessions_dir xdg home = path_join (path_join (state_home xdg home) ''pyre'') ''sessions''"

definition shard_dir :: "string option \<Rightarrow> string option \<Rightarrow> string \<Rightarrow> string" where
  "shard_dir xdg home session = path_join (sessions_dir xdg home) session"

definition shard_db_path :: "string option \<Rightarrow> string option \<Rightarrow> string \<Rightarrow> string" where
  "shard_db_path xdg home session = path_join (shard_dir xdg home session) ''state.db''"

end
