(* ===== verification/Worker_Laws.thy ===== *)
theory Worker_Laws
  imports Worker Supervisor_Laws
begin

text \<open>
  Laws of the worker: its shard mirrors its panes, so that a restarted worker opens them again;
  what its state engine misses; and what failing statements on the shard and unreadable shards
  lead to, together with the supervisor.
\<close>

section \<open>Runs of a worker\<close>

datatype worker_op =
    WOpen instant instant "u32 option" u32 string string u16 u16
  | WChunk u64 u32 bytes
  | WClose u32
  | WOverride instant u32 pane_state_kind string
  | WSeen u32
  | WTick "u32 \<Rightarrow> bytes option" "nat \<Rightarrow> instant" "u32 \<Rightarrow> bool"
  | WResize bool u32 u16 u16
  | WKeys bool u32 bytes

fun worker_do :: "(string \<Rightarrow> string option) \<Rightarrow> (bytes \<Rightarrow> bytes) \<Rightarrow> worker \<Rightarrow> worker_op \<Rightarrow> worker" where
  "worker_do var lower w (WOpen now wall child slot shell cwd cols rows) = snd (worker_open_pane now wall child slot shell cwd cols rows w)"
| "worker_do var lower w (WChunk ts slot bs) = worker_read_chunk ts slot bs w"
| "worker_do var lower w (WClose slot) = snd (worker_close_pane slot w)"
| "worker_do var lower w (WOverride now slot st reason) = snd (worker_set_pane_state var now slot st reason w)"
| "worker_do var lower w (WSeen slot) = snd (worker_mark_pane_seen slot w)"
| "worker_do var lower w (WTick fg clk alive) = worker_engine_tick lower fg clk alive w"
| "worker_do var lower w (WResize fine slot cols rows) = snd (worker_resize_pane fine slot cols rows w)"
| "worker_do var lower w (WKeys fine slot bs) = snd (worker_send_keys fine slot bs w)"

definition worker_run :: "(string \<Rightarrow> string option) \<Rightarrow> (bytes \<Rightarrow> bytes) \<Rightarrow> worker_op list \<Rightarrow> worker \<Rightarrow> worker" where
  "worker_run var lower ops w = foldl (worker_do var lower) w ops"

section \<open>The shard mirrors the panes\<close>

definition pane_spec :: "u32 \<Rightarrow> worker \<Rightarrow> (string \<times> string) option" where
  "pane_spec slot w = map_option (\<lambda>h. (ph_shell h, ph_cwd h)) (map_of (wk_panes w) slot)"

definition mirrors :: "worker \<Rightarrow> bool" where
  "mirrors w \<longleftrightarrow> wk_faults w = [] \<and> distinct (map fst (wk_shard w)) \<and> (\<forall>slot. map_of (wk_shard w) slot = pane_spec slot w)"



text \<open>A change of a handle that keeps its shell and directory keeps the mirror.\<close>

lemma mirrors_update [simp]:
  "map_of (wk_panes w) slot = Some h \<Longrightarrow> ph_shell h' = ph_shell h \<Longrightarrow> ph_cwd h' = ph_cwd h \<Longrightarrow>
   mirrors (w\<lparr>wk_panes := AList.update slot h' (wk_panes w)\<rparr>) = mirrors w"
proof -
  assume "map_of (wk_panes w) slot = Some h" "ph_shell h' = ph_shell h" "ph_cwd h' = ph_cwd h"
  then have "pane_spec k (w\<lparr>wk_panes := AList.update slot h' (wk_panes w)\<rparr>) = pane_spec k w" for k
    by (simp add: pane_spec_def update_conv')
  then show ?thesis by (simp add: mirrors_def)
qed

lemma mirrors_outbox [simp]:
  "mirrors (w\<lparr>wk_outbox := msgs\<rparr>) = mirrors w" "mirrors (w\<lparr>wk_shutdown := b\<rparr>) = mirrors w" "mirrors (w\<lparr>wk_signals := sg\<rparr>) = mirrors w"
  by (simp_all add: mirrors_def pane_spec_def)












section \<open>What the state engine of a worker misses\<close>

text \<open>A tracker nothing but ticks has happened to.\<close>

definition untouched :: "instant \<Rightarrow> u32 \<Rightarrow> tracker \<Rightarrow> bool" where
  "untouched t0 pid t \<longleftrightarrow> t_last_output_at t = t0 \<and> t_last_marker t = None \<and> t_override_until t = None \<and> t_root_pid t = pid"

lemma untouched_apply [simp]: "untouched t0 pid (snd (apply_state s r t)) = untouched t0 pid t"
  by (simp add: untouched_def apply_state_def Let_def)

lemma untouched_tick:
  assumes "untouched t0 pid t"
  shows "untouched t0 pid (snd (tick_tracker lower fg clk alive t))"
proof -
  define t2 where "t2 = (let t1 = t\<lparr>t_foreground_cmd := fg (t_root_pid t)\<rparr>
      in case t_foreground_cmd t1 of None \<Rightarrow> t1 | Some cmd \<Rightarrow> t1\<lparr>t_agent := classify_foreground lower cmd\<rparr>)"
  have t2: "untouched t0 pid t2" using assms by (simp add: t2_def untouched_def Let_def split: option.split)
  obtain s r where "evaluate_rules clk alive t2 = apply_state s r t2" using evaluate_rules_apply by blast
  moreover have "tick_tracker lower fg clk alive t = evaluate clk alive t2" by (simp add: tick_tracker_def t2_def Let_def)
  ultimately have "tick_tracker lower fg clk alive t = apply_state s r t2"
    using t2 by (simp add: evaluate_def untouched_def)
  then show ?thesis using t2 by simp
qed

text \<open>Operations that leave the tracker of a slot to the ticks.\<close>

fun spares :: "u32 \<Rightarrow> worker_op \<Rightarrow> bool" where
  "spares slot (WOpen _ _ _ i _ _ _ _) \<longleftrightarrow> i \<noteq> slot"
| "spares slot (WClose i) \<longleftrightarrow> i \<noteq> slot"
| "spares slot (WOverride _ i _ _) \<longleftrightarrow> i \<noteq> slot"
| "spares slot _ \<longleftrightarrow> True"

definition untouched_in :: "u32 \<Rightarrow> instant \<Rightarrow> u32 \<Rightarrow> worker \<Rightarrow> bool" where
  "untouched_in slot t0 pid w \<longleftrightarrow> (\<exists>h. map_of (wk_panes w) slot = Some h \<and> untouched t0 pid (ph_tracker h))"

lemma shard_exec_panes [simp]: "wk_panes (snd (shard_exec f w)) = wk_panes w"
  by (simp add: shard_exec_def split: list.split bool.split)

lemma worker_close_panes:
  "map_of (wk_panes (snd (worker_close_pane i w))) k = (if k = i then None else map_of (wk_panes w) k)"
proof -
  have "wk_panes (snd (worker_close_pane i w)) = (case map_of (wk_panes w) i of None \<Rightarrow> wk_panes w | Some h \<Rightarrow> AList.delete i (wk_panes w))"
    by (simp add: worker_close_pane_def shard_delete_pane_def Let_def case_prod_unfold split: option.split)
  then show ?thesis by (simp add: delete_conv' split: option.split)
qed

lemma untouched_tick_pane: "untouched_in slot t0 pid w \<Longrightarrow> untouched_in slot t0 pid (worker_tick_pane lower fg clk alive w i)"
  by (auto simp: untouched_in_def worker_tick_pane_def untouched_tick update_conv' Let_def case_prod_unfold split: option.split)

lemma untouched_do:
  assumes "untouched_in slot t0 pid w" and "spares slot x"
  shows "untouched_in slot t0 pid (worker_do var lower w x)"
proof (cases x)
  case (WTick fg clk alive)
  have "untouched_in slot t0 pid v \<Longrightarrow> untouched_in slot t0 pid (foldl (worker_tick_pane lower fg clk alive) v slots)" for slots v
    by (induction slots arbitrary: v) (simp_all add: untouched_tick_pane)
  then show ?thesis using assms(1) by (simp add: WTick worker_engine_tick_def)
next
  case (WOpen now wall child i shell cwd cols rows)
  then show ?thesis using assms
    by (auto simp: untouched_in_def worker_open_pane_def shard_upsert_pane_def update_conv' Let_def case_prod_unfold split: option.split)
next
  case (WClose i)
  then show ?thesis using assms
    by (simp add: untouched_in_def worker_close_panes)
next
  case (WSeen i)
  then show ?thesis using assms
    by (auto simp: untouched_in_def worker_mark_pane_seen_def update_tracker_def mark_seen_def untouched_def update_conv' split: option.split)
next
  case (WOverride now i st reason)
  then show ?thesis using assms
    by (auto simp: untouched_in_def worker_set_pane_state_def update_tracker_def update_conv' Let_def split: option.split)
qed (use assms in \<open>auto simp: untouched_in_def worker_read_chunk_def worker_resize_pane_def worker_send_keys_def update_conv' Let_def
      split: option.split\<close>)

text \<open>
  C40. In a worker an agent always seems to wait: the reader thread of a worker does not tell the
  pane's tracker about output, so however much an agent prints, and whenever, from 15 seconds
  after its pane was opened the next tick makes the pane waiting for input and reports it to
  the supervisor if that is a change.
\<close>

theorem worker_agent_waits_despite_output:
  assumes "map_of (wk_panes w) slot = Some h" and "ph_tracker h = tracker_new t0 pid" and "list_all (spares slot) ops"
    and "fg pid = Some cmd" and "classify_foreground lower cmd \<notin> {Unknown, Shell}" and "base_name cmd \<notin> set interactive_set"
    and "alive pid" and "t0 + from_secs 15 < clk 2"
    and h': "map_of (wk_panes (worker_tick_pane lower fg clk alive (worker_run var lower ops w) slot)) slot = Some h'"
  shows "t_state (ph_tracker h') = WaitingInput"
proof -
  have "untouched_in slot t0 pid w" using assms(1,2) by (simp add: untouched_in_def untouched_def tracker_new_def)
  then have "untouched_in slot t0 pid (worker_run var lower ops w)"
    using assms(3) unfolding worker_run_def by (induction ops arbitrary: w) (simp_all add: untouched_do)
  then obtain g where g: "map_of (wk_panes (worker_run var lower ops w)) slot = Some g" and u: "untouched t0 pid (ph_tracker g)"
    by (auto simp: untouched_in_def)
  have "ph_tracker h' = snd (tick_tracker lower fg clk alive (ph_tracker g))"
    using h' by (simp add: worker_tick_pane_def g update_conv' Let_def case_prod_unfold split: if_splits)
       (auto simp: update_conv')
  moreover have "clk 2 - t0 > from_secs agent_idle_secs" using assms(8) by (simp add: agent_idle_secs_def)
  ultimately show ?thesis
    using u assms(4-7)
    by (simp add: tick_tracker_def evaluate_def evaluate_rules_def untouched_def fg_base_def at_prompt_def Let_def)
qed

definition demo_worker :: worker where
  "demo_worker = snd (worker_open_pane 0 0 (Some 5) 0 ''sh'' ''/tmp'' 80 24 (worker_new ''x'' [] []))"

lemma classify_claude: "classify_foreground id ''claude'' \<notin> {Unknown, Shell}"
proof -
  let ?cs = "[99, 108, 97, 117, 100, 101] :: scalar list"
  have enc: "''claude'' = encode_string ?cs" by (simp add: encode_utf8_def utf8_codes_def) code_simp
  have "list_all is_scalar ?cs" by (simp add: is_scalar_def)
  then have "lossy_scalars ''claude'' = ?cs" unfolding enc by (rule lossy_string)
  then have "str_trim ''claude'' = encode_string (trim_end_scalars (dropWhile is_whitespace ?cs))" by (simp add: str_trim_def)
  also have "\<dots> = ''claude''" by (simp add: trim_end_scalars_def is_whitespace_def encode_utf8_def utf8_codes_def) code_simp
  finally show ?thesis by (simp add: classify_foreground_def agent_base_def strip_suffix_def)
qed

theorem worker_agent_waits_despite_output_witness:
  "\<exists>h'. map_of (wk_panes (worker_tick_pane id (\<lambda>_. Some ''claude'') (\<lambda>_. from_secs 20) (\<lambda>_. True)
       (worker_run (\<lambda>_. None) id [WChunk 0 0 ''thinking'', WChunk 1 0 ''working''] demo_worker) 0)) 0 = Some h'
     \<and> t_state (ph_tracker h') = WaitingInput"
proof -
  let ?w = "worker_tick_pane id (\<lambda>_. Some ''claude'') (\<lambda>_. from_secs 20) (\<lambda>_. True)
      (worker_run (\<lambda>_. None) id [WChunk 0 0 ''thinking'', WChunk 1 0 ''working''] demo_worker) 0"
  have panes: "wk_panes demo_worker = [(0, \<lparr>ph_shell = ''sh'', ph_cwd = ''/tmp'', ph_cols = 80, ph_rows = 24, ph_created_at = 0,
      ph_child_pid = 5, ph_pty_size = (80, 24), ph_input = [], ph_ring_buf = ring_new worker_ring_capacity, ph_output = [],
      ph_tracker = tracker_new 0 5\<rparr>)]"
    by (simp add: demo_worker_def worker_open_pane_def shard_upsert_pane_def shard_exec_def worker_new_def Let_def)
  have "map_of (wk_panes ?w) 0 \<noteq> None"
    by (simp add: worker_run_def worker_read_chunk_def worker_tick_pane_def panes update_conv' Let_def case_prod_unfold)
  then obtain h' where h': "map_of (wk_panes ?w) 0 = Some h'" by blast
  obtain h where h: "map_of (wk_panes demo_worker) 0 = Some h" "ph_tracker h = tracker_new 0 5" by (simp add: panes)
  have "base_name ''claude'' \<notin> set interactive_set" by (simp add: base_name_def interactive_set_def)
  with classify_claude have "t_state (ph_tracker h') = WaitingInput"
    by (intro worker_agent_waits_despite_output [OF h _ _ _ _ _ _ h', where cmd = "''claude''"]) (simp_all add: from_secs_def)
  with h' show ?thesis by blast
qed

section \<open>Shards that cannot be read\<close>

text \<open>
  At start-up the supervisor means to leave alone a shard it cannot read. The pane count, though,
  never fails: a shard that cannot be opened or queried counts as one without panes, and the
  supervisor deletes it, with the panes recorded in it.
\<close>

lemma unreadable_shard_is_deleted:
  assumes "list_session_ids U (su_store s) = (Inr ids, st)" and "session \<in> set ids"
    and "files (session_key U session) \<in> {OpenFails, QueryFails}" and "get_ctrl_client (session_key U session) (su_registry s) = None"
    and "reattach U (\<lambda>k. case shard_pane_count (files k) of Inr n \<Rightarrow> Some (unat n) | Inl _ \<Rightarrow> None) lok reg s = (removed, s')"
  shows "session_key U session \<in> set removed"
proof -
  have run: "sup_run (list_session_ids U) s = (Inr ids, s\<lparr>su_store := st\<rparr>)" using assms(1) by (simp add: sup_run_def)
  have "shard_pane_count (files (session_key U session)) = Inr 0" using assms(3) by (auto simp: shard_pane_count_def)
  then show ?thesis
    using assms(2,4,5) by (auto simp: reattach_def run partition_shards_def Let_def)
qed

section \<open>Failing statements and resizing\<close>

text \<open>
  If the row of a closed pane cannot be deleted, the pane is gone but the supervisor is not told
  and a worker without panes does not stop; the row stays, so that a restart opens the pane again.
\<close>

lemma failed_delete_hides_the_close:
  assumes "map_of (wk_panes w) slot = Some h" and "wk_faults w = True # fs" and "worker_close_pane slot w = (r, w')"
  shows "r = Inl Internal \<and> map_of (wk_panes w') slot = None \<and> wk_outbox w' = wk_outbox w
    \<and> wk_shutdown w' = wk_shutdown w \<and> wk_shard w' = wk_shard w"
  using assms by (auto simp: worker_close_pane_def shard_delete_pane_def shard_exec_def delete_conv' Let_def)

text \<open>The size that is reported for a pane is the one it was opened with, whatever it was resized to.\<close>

lemma resize_is_not_reported:
  assumes "map_of (wk_panes w) slot = Some h" and "worker_resize_pane True slot cols rows w = (Inr (), w')"
  shows "map_option ph_pty_size (map_of (wk_panes w') slot) = Some (cols, rows)
    \<and> map_option (\<lambda>h. (ph_cols h, ph_rows h)) (map_of (wk_panes w') slot) = Some (ph_cols h, ph_rows h)"
  using assms by (auto simp: worker_resize_pane_def update_conv')

end
