(* ===== verification/Pane_Stream.thy ===== *)
theory Pane_Stream
  imports Ring_Buffer Session_Registry Worker_Registry
begin

text \<open>
  Connections: the mode tag and version handshake (\<^verbatim>\<open>crates/pyre-proto/src/handshake.rs, socket.rs\<close>), the
  header of a stream connection, and what a client receives on it from the single-process daemon
  (\<^verbatim>\<open>crates/pyred/src/stream.rs\<close>), from a worker (\<^verbatim>\<open>worker.rs\<close>, \<open>handle_stream_conn\<close>) and through the
  supervisor's mirror (\<^verbatim>\<open>supervisor.rs\<close>, \<open>proxy_stream_to_worker\<close>). A socket is the list of bytes still
  to be read. Length-delimited framing and its encoding are those of a library; a frame is its
  sequence number and data.
\<close>

section \<open>Integers on the wire\<close>

fun be_digits :: "nat \<Rightarrow> nat \<Rightarrow> nat list" where
  "be_digits 0 x = []"
| "be_digits (Suc n) x = be_digits n (x div 256) @ [x mod 256]"

definition be_value :: "nat list \<Rightarrow> nat" where
  "be_value ds = foldl (\<lambda>acc d. 256 * acc + d) 0 ds"

text \<open>\<open>to_le_bytes\<close>, \<open>from_le_bytes\<close> of 32-bit integers, \<open>as_bytes\<close>, \<open>from_bytes\<close> of identifiers.\<close>

definition u32_to_le_bytes :: "u32 \<Rightarrow> bytes" where
  "u32_to_le_bytes x = map char_of (rev (be_digits 4 (unat x)))"

definition u32_from_le_bytes :: "bytes \<Rightarrow> u32" where
  "u32_from_le_bytes bs = of_nat (be_value (map of_char (rev bs)))"

definition uuid_as_bytes :: "uuid \<Rightarrow> bytes" where
  "uuid_as_bytes u = map char_of (be_digits 16 (unat u))"

definition uuid_from_bytes :: "bytes \<Rightarrow> uuid" where
  "uuid_from_bytes bs = of_nat (be_value (map of_char bs))"

section \<open>Handshake\<close>

datatype wire_error = UnexpectedEof | BadTag byte | VersionMismatch u32 | UnknownMode byte

definition read_exact :: "nat \<Rightarrow> bytes \<Rightarrow> wire_error + bytes \<times> bytes" where
  "read_exact n sock = (if length sock < n then Inl UnexpectedEof else Inr (take n sock, drop n sock))"

definition mode_control :: byte where "mode_control = CHR 0x01"

definition mode_stream :: byte where "mode_stream = CHR 0x02"

definition proto_version :: u32 where "proto_version = 7"

definition write_control_client :: bytes where
  "write_control_client = mode_control # u32_to_le_bytes proto_version"

definition read_control_version_after_tag :: "bytes \<Rightarrow> wire_error + bytes" where
  "read_control_version_after_tag sock =
     (case read_exact 4 sock of
        Inl e \<Rightarrow> Inl e
      | Inr (ver, rest) \<Rightarrow>
          (let client_ver = u32_from_le_bytes ver
           in if client_ver \<noteq> proto_version then Inl (VersionMismatch client_ver) else Inr rest))"

definition read_control_server :: "bytes \<Rightarrow> wire_error + bytes" where
  "read_control_server sock =
     (case read_exact 1 sock of
        Inl e \<Rightarrow> Inl e
      | Inr (tag, rest) \<Rightarrow>
          if hd tag \<noteq> mode_control then Inl (BadTag (hd tag)) else read_control_version_after_tag rest)"

text \<open>The daemon's dispatch on the mode tag: what is left to read, per mode.\<close>

datatype conn_mode = ControlConn bytes | StreamConn bytes

definition handle_conn :: "bytes \<Rightarrow> wire_error + conn_mode" where
  "handle_conn sock =
     (case read_exact 1 sock of
        Inl e \<Rightarrow> Inl e
      | Inr (tag, rest) \<Rightarrow>
          if hd tag = mode_control
          then (case read_control_version_after_tag rest of Inl e \<Rightarrow> Inl e | Inr r \<Rightarrow> Inr (ControlConn r))
          else if hd tag = mode_stream then Inr (StreamConn rest)
          else Inl (UnknownMode (hd tag)))"

definition attach_stream :: "session_id \<Rightarrow> pane_id \<Rightarrow> bytes" where
  "attach_stream session pane = mode_stream # uuid_as_bytes (session_uuid session) @ uuid_as_bytes (pane_uuid pane)"

definition read_stream_header :: "bytes \<Rightarrow> wire_error + session_id \<times> pane_id \<times> bytes" where
  "read_stream_header sock =
     (case read_exact 16 sock of
        Inl e \<Rightarrow> Inl e
      | Inr (sbuf, rest) \<Rightarrow>
          (case read_exact 16 rest of
             Inl e \<Rightarrow> Inl e
           | Inr (pbuf, rest') \<Rightarrow> Inr (SessionId (uuid_from_bytes sbuf), PaneId (uuid_from_bytes pbuf), rest')))"

text \<open>Which pane a stream is for: in the single-process daemon, and through the supervisor.\<close>

definition stream_target :: "session_id \<Rightarrow> pane_id \<Rightarrow> registry \<Rightarrow> pane_state option" where
  "stream_target session pane reg =
     (case get_pane pane reg of
        Some (s, p) \<Rightarrow> if ss_id s = session then Some p else None
      | None \<Rightarrow> None)"

definition proxy_target :: "codec \<Rightarrow> session_id \<Rightarrow> pane_id \<Rightarrow> worker_registry \<Rightarrow> (string \<times> u32) option" where
  "proxy_target U session pane wr =
     (case lookup_pane (pane_uuid pane) wr of
        None \<Rightarrow> None
      | Some (_, slot) \<Rightarrow> map_option (\<lambda>sock. (sock, slot)) (get_stream_sock (cd_show U (session_uuid session)) wr))"

section \<open>The connection\<close>

text \<open>
  What a connection does before it forwards live output, in the order of the code, and then
  one frame per chunk received. Output may be printed between any two actions. A subscriber
  that is 256 chunks behind loses the oldest.
\<close>

datatype stream_action = Subscribe | TakeSnapshot | SendSnapshot



definition broadcast_cap :: nat where "broadcast_cap = 256"

record stream_conn =
  sc_todo :: "stream_action list"
  sc_ring :: ring_buf
  sc_queue :: "bytes list option"
  sc_snap :: bytes
  sc_seq :: u64
  sc_frames :: "(u64 \<times> bytes) list"


datatype stream_input = Printed bytes | Advance

definition conn_printed :: "bytes \<Rightarrow> stream_conn \<Rightarrow> stream_conn" where
  "conn_printed bs c =
     c\<lparr>sc_ring := push bs (sc_ring c), sc_queue := map_option (\<lambda>q. last_n broadcast_cap (q @ [bs])) (sc_queue c)\<rparr>"

definition conn_advance :: "stream_conn \<Rightarrow> stream_conn" where
  "conn_advance c =
     (case sc_todo c of
        Subscribe # todo \<Rightarrow> c\<lparr>sc_todo := todo, sc_queue := Some []\<rparr>
      | TakeSnapshot # todo \<Rightarrow> c\<lparr>sc_todo := todo, sc_snap := snapshot (sc_ring c)\<rparr>
      | SendSnapshot # todo \<Rightarrow> c\<lparr>sc_todo := todo, sc_frames := sc_frames c @ [(0, sc_snap c)]\<rparr>
      | [] \<Rightarrow>
          (case sc_queue c of
             Some (d # q) \<Rightarrow>
               (let seq = sc_seq c + 1
                in c\<lparr>sc_queue := Some q, sc_seq := seq, sc_frames := sc_frames c @ [(seq, d)]\<rparr>)
           | _ \<Rightarrow> c))"

fun conn_step :: "stream_conn \<Rightarrow> stream_input \<Rightarrow> stream_conn" where
  "conn_step c (Printed bs) = conn_printed bs c"
| "conn_step c Advance = conn_advance c"

definition conn_run :: "stream_input list \<Rightarrow> stream_conn \<Rightarrow> stream_conn" where
  "conn_run ins c = foldl conn_step c ins"

text \<open>The mirror's snapshot: the frames of the worker, cut to the newest 256 KiB.\<close>

definition snapshot_cap :: nat where "snapshot_cap = 256 * 1024"

definition mirror_append :: "bytes \<Rightarrow> bytes \<Rightarrow> bytes" where
  "mirror_append data snap =
     (let new_len = length snap + length data
      in if new_len \<le> snapshot_cap then snap @ data
         else (let v = snap @ data in drop (length v - snapshot_cap) v))"

section \<open>Laws of the wire\<close>

lemma be_value_append: "be_value (ds @ [d]) = 256 * be_value ds + d"
  by (simp add: be_value_def)

lemma be_value_digits: "be_value (be_digits n x) = x mod 256 ^ n"
proof (induction n arbitrary: x)
  case (Suc n)
  have "256 * (x div 256 mod 256 ^ n) + x mod 256 = x mod (256 * 256 ^ n)"
    by (metis add.commute mod_mult2_eq)
  then show ?case using Suc by (simp add: be_value_append)
qed (simp add: be_value_def)

lemma be_digits_byte: "d \<in> set (be_digits n x) \<Longrightarrow> d < 256"
  by (induction n arbitrary: x) auto

lemma length_be_digits [simp]: "length (be_digits n x) = n"
  by (induction n arbitrary: x) auto

lemma of_char_digits: "map (of_char :: char \<Rightarrow> nat) (map char_of (be_digits n x)) = be_digits n x"
  using be_digits_byte [of _ n x] by (auto intro!: map_idI simp: of_char_of)

lemma u32_round_trip [simp]: "u32_from_le_bytes (u32_to_le_bytes x) = x"
proof -
  have "unat x < 256 ^ 4" using unsigned_less [of x, where ?'a = nat] by simp
  then show ?thesis
    using of_char_digits [of 4 "unat x"] by (simp add: u32_from_le_bytes_def u32_to_le_bytes_def rev_map [symmetric] be_value_digits)
qed

lemma uuid_round_trip [simp]: "uuid_from_bytes (uuid_as_bytes u) = u"
proof -
  have "unat u < 256 ^ 16" using unsigned_less [of u, where ?'a = nat] by simp
  then show ?thesis
    using of_char_digits [of 16 "unat u"] by (simp add: uuid_from_bytes_def uuid_as_bytes_def be_value_digits)
qed

lemma wire_lengths [simp]: "length (u32_to_le_bytes x) = 4" "length (uuid_as_bytes u) = 16"
  by (simp_all add: u32_to_le_bytes_def uuid_as_bytes_def)

lemma read_exact_append [simp]: "length bs = n \<Longrightarrow> read_exact n (bs @ rest) = Inr (bs, rest)"
  by (simp add: read_exact_def)

text \<open>
  C19. The handshake lets exactly the right clients in: a connection that starts with a tag and a
  version is served as a control connection if and only if the tag is the control tag and the
  version is the daemon's own, and then nothing of what follows is consumed; a stream header
  written by a client is read back as the session and pane it was written for.
\<close>

theorem handshake_accepts_exactly_own_version:
  "(handle_conn (tag # u32_to_le_bytes v @ rest) = Inr (ControlConn rest') \<longleftrightarrow>
      tag = mode_control \<and> v = proto_version \<and> rest' = rest)
   \<and> handle_conn (write_control_client @ rest) = Inr (ControlConn rest)
   \<and> handle_conn (attach_stream session pane @ rest)
      = Inr (StreamConn (uuid_as_bytes (session_uuid session) @ uuid_as_bytes (pane_uuid pane) @ rest))
   \<and> read_stream_header (uuid_as_bytes (session_uuid session) @ uuid_as_bytes (pane_uuid pane) @ rest) = Inr (session, pane, rest)"
proof -
  have one: "read_exact (Suc 0) (b # bs) = Inr ([b], bs)" for b bs by (simp add: read_exact_def)
  have four: "read_control_version_after_tag (u32_to_le_bytes v @ rest)
      = (if v \<noteq> proto_version then Inl (VersionMismatch v) else Inr rest)" for v rest
    by (simp add: read_control_version_after_tag_def)
  have "mode_stream \<noteq> mode_control" by (simp add: mode_stream_def mode_control_def)
  then show ?thesis
    by (auto simp: handle_conn_def one four write_control_client_def attach_stream_def read_stream_header_def)
qed

section \<open>Laws of the stream\<close>



lemma run_printed_fields [simp]:
  "sc_ring (conn_run (map Printed xs) c) = foldl (\<lambda>r bs. push bs r) (sc_ring c) xs"
  "sc_todo (conn_run (map Printed xs) c) = sc_todo c" "sc_frames (conn_run (map Printed xs) c) = sc_frames c"
  "sc_snap (conn_run (map Printed xs) c) = sc_snap c" "sc_seq (conn_run (map Printed xs) c) = sc_seq c"
  unfolding conn_run_def by (induction xs arbitrary: c) (simp_all add: conn_printed_def)

lemma run_printed_none: "sc_queue c = None \<Longrightarrow> sc_queue (conn_run (map Printed xs) c) = None"
  unfolding conn_run_def by (induction xs arbitrary: c) (simp_all add: conn_printed_def)







section \<open>Mirrors\<close>

interpretation mirror: bounded_log mirror_append id "\<lambda>_. snapshot_cap" "\<lambda>snap. length snap \<le> snapshot_cap"
  by unfold_locales (auto simp: mirror_append_def last_n_def Let_def)

text \<open>A client that joins late is sent the newest 256 KiB of all the worker has sent.\<close>

lemma mirror_snapshot_is_newest: "foldl (\<lambda>snap data. mirror_append data snap) [] frames = last_n snapshot_cap (concat frames)"
  using mirror.run_contents [of "[]" frames] by simp

text \<open>
  The supervisor does not check that the pane belongs to the session a client names: the slot is
  that of the pane, the worker that of the session. A pane of another session is then mistaken
  for the pane in the same slot of the named one; the single-process daemon refuses such a request.
\<close>

lemma proxy_mixes_sessions:
  assumes "lookup_pane (pane_uuid pane) wr = Some (other, slot)" and "other \<noteq> cd_show U (session_uuid session)"
    and "get_stream_sock (cd_show U (session_uuid session)) wr = Some sock"
  shows "proxy_target U session pane wr = Some (sock, slot)"
  using assms by (simp add: proxy_target_def)

end
