(* ===== verification/Spec2Isabelle.thy ===== *)
theory Spec2Isabelle
  imports Pyre_Proto Ring_Buffer Layout Layout_Weights Layout_Geometry Utf8 Block_Parser State_Tracker
    Block_Store Store_Laws Store_Backfill Block_Index Pty_Pipeline Session_Registry Registry_Laws
    Worker_Registry Supervisor Supervisor_Laws Block_Batcher Worker_Text Worker Worker_Laws Pane_Stream
begin

text \<open>
  \<^bold>\<open>Pyre\<close> is a terminal multiplexer: a daemon (\<^verbatim>\<open>crates/pyred\<close>) owns sessions of windows and panes,
  each pane a shell on a PTY, and clients (TUI, GPU, command line, MCP, desktop) talk to it over
  RPC types shared in \<^verbatim>\<open>crates/pyre-proto\<close>. This development models the daemon's core and the
  layout trees it shares with its clients.

  \<^bold>\<open>How the parts interact.\<close> A process prints bytes; the reader thread of its pane pushes them
  into a replay ring and sends them to the parser task. The parser cuts the stream into command
  blocks at OSC 133 markers; each block event updates the pane's state tracker, the database, the
  block's output blob and finally the search index. The session registry opens, splits, closes and
  lists panes, keeps a layout tree per window, mirrors both in the database and numbers every change
  as an event that clients can resume from. A periodic tick re-evaluates every state tracker.

  \<^bold>\<open>Theories.\<close>
  \<^item> \<open>Pyre_Prelude\<close>: lemma collections, machine integers, clocks, the newest-n function on lists and
    the locale \<open>bounded_log\<close> (a log that keeps the newest entries), interpreted by the byte ring,
    by the registry's event ring, by the supervisor's and by the mirror's snapshot.
  \<^item> \<open>Pyre_Proto\<close> (\<^verbatim>\<open>pyre-proto/src/lib.rs, blocks.rs, sessions.rs, service.rs\<close>): identifiers, blocks,
    block events, pane states, requests and events as records and datatypes.
  \<^item> \<open>Layout\<close>, \<open>Layout_Weights\<close>, \<open>Layout_Geometry\<close> (\<^verbatim>\<open>pyre-proto/src/layout.rs\<close>): the tiling tree with
    its operations at 16-bit width; invariant of reachable trees, refinement of the tree by the list
    of its panes (locale \<open>tiling\<close>), resizing bounds, disjoint rectangles, directional focus.
  \<^item> \<open>Ring_Buffer\<close> (\<^verbatim>\<open>pyred/src/ringbuf.rs\<close>): the circular buffer equals the newest bytes.
  \<^item> \<open>Utf8\<close>, \<open>Block_Parser\<close> (\<^verbatim>\<open>pyred/src/parser.rs\<close>): lossy UTF-8 decoding and the block machine; event
    protocol and conservation of output for every escape parser and chunking.
  \<^item> \<open>State_Tracker\<close> (\<^verbatim>\<open>pyred/src/state.rs, agent_detect.rs, hooks.rs\<close>): the rules that turn output,
    markers, process state and overrides into a pane state, with every clock reading explicit.
  \<^item> \<open>Block_Store\<close>, \<open>Store_Laws\<close>, \<open>Store_Backfill\<close> (\<^verbatim>\<open>pyred/src/store.rs\<close>): the four tables, every statement
    of the code on them (each may fail), output blobs, opening with migration and window backfill.
    The locale \<open>sql_table\<close> states what inserts and updates keep of a table and is interpreted for
    each table; the backfill is verified with a small Hoare logic over store programs.
  \<^item> \<open>Block_Index\<close> (\<^verbatim>\<open>pyred/src/index.rs, search_filter.rs\<close>): documents, commits, batched backfill and
    search filters; query parsing and ranking are parameters.
  \<^item> \<open>Pty_Pipeline\<close> (\<^verbatim>\<open>pyred/src/pty.rs\<close>): reader thread and parser task, composing ring, parser,
    tracker, store and index; one command end to end, and what goes wrong at the edges.
  \<^item> \<open>Session_Registry\<close>, \<open>Registry_Laws\<close> (\<^verbatim>\<open>pyred/src/session.rs\<close>): every registry operation with its
    store writes and signals; structural invariant over the inductive set of reachable daemons,
    event numbering and resumption, opening and closing, and states that get out of step.
  \<^item> \<open>Worker_Registry\<close>, \<open>Supervisor\<close>, \<open>Supervisor_Laws\<close> (\<^verbatim>\<open>pyred/src/supervisor.rs\<close>): the multi-process mode,
    in which one worker process per session owns the panes. The pane index from panes to worker
    slots, the worker registry and the event bus; the supervisor's session, pane, window and layout
    requests; what workers report; heartbeat monitor, child reaper and reattaching at start-up.
    Lookups by pane and by slot are inverse, exactly the silent workers are started again and
    deliberately ended ones never, layouts are reconciled with the live panes, and what a crash, a
    failed request and late messages leave behind.
  \<^item> \<open>Block_Batcher\<close> (\<^verbatim>\<open>pyred/src/supervisor.rs\<close>): the task that turns the output of all workers into blocks.
    Its batching refines immediate handling, it closes every open block whatever failed, and
    without failures it agrees with the parser task of \<open>Pty_Pipeline\<close>.
  \<^item> \<open>Worker_Text\<close>, \<open>Worker\<close>, \<open>Worker_Laws\<close> (\<^verbatim>\<open>pyred/src/worker.rs, ansi.rs, shard.rs\<close>): the worker process with
    its panes, shard, state engine and control requests. A restarted worker opens exactly the
    panes that were open; capturing returns the last lines; \<open>write_all_bytes\<close>, the one loop that may
    not end, is a partial function that returns if the terminal accepts bytes.
  \<^item> \<open>Pane_Stream\<close> (\<^verbatim>\<open>pyre-proto/src/handshake.rs, socket.rs; pyred/src/stream.rs, main.rs\<close>): handshake, stream
    header and the frames a client receives, for every interleaving of output with connecting.

  \<^bold>\<open>Conventions.\<close> Integers keep their width and wrap as in the release profile. Code outside the
  repository is a parameter: the escape parser, the search engine, SQLite's and the file system's
  failures (a list of outcomes consumed one per operation), uuid, JSON, time and compression
  encodings (the record \<open>codec\<close> with its laws \<open>codec_ok\<close>), process and clock readings. Fresh
  identifiers are arguments; that they are new is the hypothesis \<open>fresh_pane\<close>. Except
  for \<open>write_all_bytes\<close> all functions are total and executable; no fuel is used: every loop is a
  recursion on the data it consumes.

  \<^bold>\<open>Not modelled.\<close> The legacy migration (\<^verbatim>\<open>migration.rs\<close>), the RPC forwarding of \<^verbatim>\<open>server.rs\<close>, the git status
  parser and configuration, long polls of the supervisor, and the model part of the TUI are
  planned in this order. Rendering (\<^verbatim>\<open>pyre-gpu\<close>, TUI drawing), argument parsing and JSON forwarding
  (\<^verbatim>\<open>pyrec, pyre-mcp, gui/src-tauri\<close>) and colour tables are input and output glue. Within modelled
  files: logging, channel back-pressure, lock poisoning, the PTY system calls, socket set-up,
  message framing by libraries and non-Linux branches.
\<close>

end
